(* ===== verification/Prelude.thy ===== *)
theory Prelude
  imports Main "HOL-Library.Word"
begin

text \<open>
  Shared vocabulary of the development: machine integer names, Rust's \<open>Result\<close> and the
  outcome of code that may panic, the collections of facts the component theories extend, and
  generic lemmas on lists and options.  The locales at the end are the interfaces several
  components are proved against: a system given by a step relation with an invariant, a
  refinement between two step systems, and a store that keeps the last accepted value.
\<close>

section \<open>Fact collections\<close>

named_theorems rust_std \<open>definitions of the modelled part of Rust's standard library\<close>
named_theorems cfg_defs \<open>definitions of the runtime configuration\<close>
named_theorems xds_defs \<open>definitions of the xDS conversion functions\<close>
named_theorems ads_wf \<open>preservation of the ADS state invariant\<close>

section \<open>Types\<close>

type_synonym u8 = "8 word"
type_synonym u16 = "16 word"
type_synonym u32 = "32 word"
type_synonym u64 = "64 word"
type_synonym u128 = "128 word"
type_synonym bytes = "u8 list"

datatype ('a, 'e) result = Ok 'a | Err 'e

text \<open>A computation that returns, or unwinds because of an arithmetic overflow check.\<close>

datatype 'a outcome = Done 'a | Panic

fun is_ok :: "('a, 'e) result \<Rightarrow> bool" where
  "is_ok (Ok _) = True"
| "is_ok (Err _) = False"

fun map_err :: "('e \<Rightarrow> 'f) \<Rightarrow> ('a, 'e) result \<Rightarrow> ('a, 'f) result" where
  "map_err f (Ok a) = Ok a"
| "map_err f (Err e) = Err (f e)"

text \<open>Rust's \<open>?\<close> operator: go on with the value, or return the error.\<close>

fun and_then :: "('a, 'e) result \<Rightarrow> ('a \<Rightarrow> ('b, 'e) result) \<Rightarrow> ('b, 'e) result" where
  "and_then (Ok a) f = f a"
| "and_then (Err e) f = Err e"

text \<open>
  A \<open>for\<close> loop whose body may return early with an error through \<open>?\<close>: the state the loop had
  reached is kept.
\<close>

fun try_for_each :: "('s \<Rightarrow> 'x \<Rightarrow> ('s, 'e) result) \<Rightarrow> 's \<Rightarrow> 'x list \<Rightarrow> 's \<times> (unit, 'e) result" where
  "try_for_each f s [] = (s, Ok ())"
| "try_for_each f s (x # xs) =
     (case f s x of
        Err e \<Rightarrow> (s, Err e)
      | Ok s' \<Rightarrow> try_for_each f s' xs)"

definition ok_or :: "'a option \<Rightarrow> 'e \<Rightarrow> ('a, 'e) result" where
  "ok_or x e = (case x of None \<Rightarrow> Err e | Some a \<Rightarrow> Ok a)"

definition unwrap_or :: "'a option \<Rightarrow> 'a \<Rightarrow> 'a" where
  "unwrap_or x d = (case x of None \<Rightarrow> d | Some a \<Rightarrow> a)"

lemma try_for_each_inv:
  assumes "P s" and "\<And>s x s'. P s \<Longrightarrow> f s x = Ok s' \<Longrightarrow> P s'"
  shows "P (fst (try_for_each f s xs))"
  using assms by (induction xs arbitrary: s) (auto split: result.splits)

lemma try_for_each_Err:
  "snd (try_for_each f s xs) = Err e \<Longrightarrow> \<exists>s' x. x \<in> set xs \<and> f s' x = Err e"
  by (induction xs arbitrary: s) (auto split: result.splits, blast+)

lemma try_for_each_is_ok:
  "(\<And>s x. is_ok (f s x) \<longleftrightarrow> good x) \<Longrightarrow> is_ok (snd (try_for_each f s xs)) \<longleftrightarrow> list_all good xs"
  by (induction xs arbitrary: s) (auto split: result.splits, (metis is_ok.simps)+)

lemma ok_or_simps [simp]: "ok_or None e = Err e" "ok_or (Some a) e = Ok a"
  by (simp_all add: ok_or_def)

lemma unwrap_or_simps [simp]: "unwrap_or None d = d" "unwrap_or (Some a) d = a"
  by (simp_all add: unwrap_or_def)

lemma and_then_eq_Ok [simp]: "and_then r f = Ok b \<longleftrightarrow> (\<exists>a. r = Ok a \<and> f a = Ok b)"
  by (cases r) auto

lemma and_then_eq_Err:
  "and_then r f = Err e \<longleftrightarrow> r = Err e \<or> (\<exists>a. r = Ok a \<and> f a = Err e)"
  by (cases r) auto

lemma map_err_eq_Ok [simp]: "map_err f r = Ok a \<longleftrightarrow> r = Ok a"
  by (cases r) auto

lemma map_err_eq_Err: "map_err f r = Err e \<longleftrightarrow> (\<exists>e'. r = Err e' \<and> e = f e')"
  by (cases r) auto

lemma is_ok_iff: "is_ok r \<longleftrightarrow> (\<exists>a. r = Ok a)"
  by (cases r) auto

lemma ok_or_eq_Ok [simp]: "ok_or x e = Ok a \<longleftrightarrow> x = Some a"
  by (cases x) auto

section \<open>Lists\<close>

text \<open>\<open>find\<close> on a list that is filtered or concatenated first.\<close>

lemma find_eq_SomeE:
  assumes "find P xs = Some x"
  obtains "P x" "x \<in> set xs"
  using assms by (auto simp: find_Some_iff in_set_conv_nth)

lemma find_append:
  "find P (xs @ ys) = (case find P xs of None \<Rightarrow> find P ys | Some x \<Rightarrow> Some x)"
  by (induction xs) auto

lemma find_None_on: "find P xs = None \<longleftrightarrow> (\<forall>x\<in>set xs. \<not> P x)"
  by (induction xs) auto

text \<open>The element a first-match search returns: it satisfies the predicate and nothing before it does.\<close>

definition is_first :: "('a \<Rightarrow> bool) \<Rightarrow> 'a list \<Rightarrow> 'a \<Rightarrow> bool" where
  "is_first P xs x = (\<exists>pre post. xs = pre @ x # post \<and> P x \<and> (\<forall>y\<in>set pre. \<not> P y))"

lemma find_eq_Some_iff: "find P xs = Some x \<longleftrightarrow> is_first P xs x"
proof (induction xs)
  case Nil
  show ?case by (simp add: is_first_def)
next
  case (Cons y ys)
  show ?case
  proof (cases "P y")
    case True
    then have "is_first P (y # ys) x \<longleftrightarrow> x = y"
      unfolding is_first_def by (auto simp: Cons_eq_append_conv intro: exI [of _ "[]"])
    then show ?thesis using True by auto
  next
    case False
    then have "is_first P (y # ys) x \<longleftrightarrow> is_first P ys x"
      unfolding is_first_def
      by (auto simp: Cons_eq_append_conv) (metis append_Cons set_ConsD)
    then show ?thesis using False Cons.IH by simp
  qed
qed

text \<open>Two lists are equal when they are split at the first separator.\<close>

lemma append_Cons_unique:
  assumes "a @ c # b = a' @ c # b'" and "c \<notin> set a" and "c \<notin> set a'"
  shows "a = a' \<and> b = b'"
  using assms
proof (induction a arbitrary: a')
  case Nil
  then show ?case by (cases a') auto
next
  case (Cons x a)
  then show ?case by (cases a') auto
qed

lemma append_Cons_unique_last:
  assumes "a @ c # b = a' @ c # b'" and "c \<notin> set b" and "c \<notin> set b'"
  shows "a = a' \<and> b = b'"
proof -
  have "rev b @ c # rev a = rev b' @ c # rev a'"
    using arg_cong [OF assms(1), of rev] by simp
  then show ?thesis
    using append_Cons_unique [of "rev b" c "rev a" "rev b'" "rev a'"] assms(2,3) by simp
qed

section \<open>A step system with an invariant\<close>

text \<open>
  Several components are state machines: the published-config loop, the proxy state shared by
  concurrent tasks.  Their safety properties are invariants, so the closure under runs is proved
  once, here.
\<close>

locale step_system =
  fixes init :: "'s \<Rightarrow> bool"
    and step :: "'s \<Rightarrow> 's \<Rightarrow> bool"
    and inv :: "'s \<Rightarrow> bool"
  assumes inv_init: "init s \<Longrightarrow> inv s"
    and inv_step: "inv s \<Longrightarrow> step s t \<Longrightarrow> inv t"
begin

lemma inv_steps: "step\<^sup>*\<^sup>* s t \<Longrightarrow> inv s \<Longrightarrow> inv t"
  by (induction rule: rtranclp_induct) (auto intro: inv_step)

lemma inv_reachable: "init s \<Longrightarrow> step\<^sup>*\<^sup>* s t \<Longrightarrow> inv t"
  by (blast intro: inv_steps inv_init)

end

section \<open>Refinement\<close>

text \<open>
  A detailed step system implements an abstract one: related states stay related, a detailed step
  being matched by any number of abstract steps.
\<close>

locale simulation =
  fixes detailed :: "'c \<Rightarrow> 'c \<Rightarrow> bool"
    and abstract :: "'a \<Rightarrow> 'a \<Rightarrow> bool"
    and related :: "'c \<Rightarrow> 'a \<Rightarrow> bool"
  assumes matched: "related c a \<Longrightarrow> detailed c c' \<Longrightarrow> \<exists>a'. abstract\<^sup>*\<^sup>* a a' \<and> related c' a'"
begin

lemma matched_run:
  assumes "detailed\<^sup>*\<^sup>* c c'" and "related c a"
  shows "\<exists>a'. abstract\<^sup>*\<^sup>* a a' \<and> related c' a'"
  using assms
proof (induction rule: rtranclp_induct)
  case (step c' c'')
  then obtain a' where "abstract\<^sup>*\<^sup>* a a'" "related c' a'" by blast
  with matched [OF _ step.hyps(2)] show ?case by (blast intro: rtranclp_trans)
qed blast

end

section \<open>A store that keeps the last accepted value\<close>

text \<open>
  What a consumer of configurations promises: an accepted value becomes current and the store
  reports ready; a refused one leaves the current value alone and clears ready.
\<close>

locale config_store =
  fixes apply_to :: "'s \<Rightarrow> 'c \<Rightarrow> 's"
    and current :: "'s \<Rightarrow> 'c"
    and is_ready :: "'s \<Rightarrow> bool"
    and accepted :: "'c \<Rightarrow> bool"
  assumes apply_accepted: "accepted c \<Longrightarrow> current (apply_to s c) = c \<and> is_ready (apply_to s c)"
    and apply_refused: "\<not> accepted c \<Longrightarrow>
          current (apply_to s c) = current s \<and> \<not> is_ready (apply_to s c)"
begin

lemma current_after_run:
  "current (foldl apply_to s cs) = last (current s # filter accepted cs)"
proof (induction cs arbitrary: s)
  case Nil
  show ?case by simp
next
  case (Cons c cs)
  show ?case
    using Cons.IH [of "apply_to s c"] apply_accepted [of c s] apply_refused [of c s]
    by (cases "accepted c") auto
qed

lemma ready_after_run:
  "cs \<noteq> [] \<Longrightarrow> is_ready (foldl apply_to s cs) \<longleftrightarrow> accepted (last cs)"
proof (induction cs arbitrary: s rule: rev_induct)
  case (snoc c cs)
  show ?case
    using apply_accepted [of c] apply_refused [of c] by (cases "accepted c") auto
qed simp

end

end
