(* ===== verification/Rust_Std.thy ===== *)
theory Rust_Std
  imports Prelude "HOL-Library.Sublist" "HOL-Library.List_Lexorder" "HOL-Library.Char_ord"
    "HOL-Library.Product_Lexorder" "HOL-Library.Multiset"
begin

text \<open>
  The part of Rust's standard library that dxgate's own code computes with.

  A \<open>str\<close> is its list of UTF-8 bytes, one \<^typ>\<open>char\<close> each.  Every string operation the code
  uses is either byte-wise in Rust (\<open>==\<close>, the order, \<open>eq_ignore_ascii_case\<close>) or searches for an
  ASCII character or a whole string (\<open>split\<close>, \<open>starts_with\<close>, \<open>ends_with\<close>, \<open>contains\<close>), which on
  UTF-8 is the same as searching bytes, so nothing is lost by the choice.  The order on
  \<^typ>\<open>string\<close> is the lexicographic one on bytes, as \<open>Ord for str\<close>.
\<close>

section \<open>Strings\<close>

definition starts_with :: "string \<Rightarrow> string \<Rightarrow> bool" where
  "starts_with s p = prefix p s"

definition ends_with :: "string \<Rightarrow> string \<Rightarrow> bool" where
  "ends_with s p = suffix p s"

definition str_contains :: "string \<Rightarrow> string \<Rightarrow> bool" where
  "str_contains s p = sublist p s"

definition strip_prefix :: "string \<Rightarrow> string \<Rightarrow> string option" where
  "strip_prefix s p = (if prefix p s then Some (drop (length p) s) else None)"

fun str_split :: "char \<Rightarrow> string \<Rightarrow> string list" where
  "str_split c [] = [[]]"
| "str_split c (x # xs) =
     (if x = c then [] # str_split c xs
      else (x # hd (str_split c xs)) # tl (str_split c xs))"

fun str_join :: "string \<Rightarrow> string list \<Rightarrow> string" where
  "str_join sep [] = []"
| "str_join sep [x] = x"
| "str_join sep (x # y # ys) = x @ sep @ str_join sep (y # ys)"

text \<open>\<open>rsplit_once\<close>: the parts before and after the last occurrence of a character.\<close>

fun rsplit_once :: "char \<Rightarrow> string \<Rightarrow> (string \<times> string) option" where
  "rsplit_once c [] = None"
| "rsplit_once c (x # xs) =
     (case rsplit_once c xs of
        Some (a, b) \<Rightarrow> Some (x # a, b)
      | None \<Rightarrow> if x = c then Some ([], xs) else None)"

definition to_ascii_lowercase :: "char \<Rightarrow> char" where
  "to_ascii_lowercase c =
     (let n = (of_char c :: nat) in if 65 \<le> n \<and> n \<le> 90 then char_of (n + 32) else c)"

definition eq_ignore_ascii_case :: "string \<Rightarrow> string \<Rightarrow> bool" where
  "eq_ignore_ascii_case a b = (map to_ascii_lowercase a = map to_ascii_lowercase b)"

section \<open>Numbers as text\<close>

definition digit_char :: "nat \<Rightarrow> char" where
  "digit_char d = char_of (48 + d)"

fun show_nat :: "nat \<Rightarrow> string" where
  "show_nat n =
     (if n < 10 then [digit_char n] else show_nat (n div 10) @ [digit_char (n mod 10)])"

declare show_nat.simps [simp del]

definition digit_val :: "char \<Rightarrow> nat option" where
  "digit_val c = (let n = (of_char c :: nat) in if 48 \<le> n \<and> n \<le> 57 then Some (n - 48) else None)"

text \<open>
  The loop of \<open>u16::from_str_radix(_, 10)\<close>: every character is a digit, and the checked
  multiplication and addition stop at the first overflow.
\<close>

fun parse_digits :: "nat \<Rightarrow> string \<Rightarrow> nat option" where
  "parse_digits acc [] = Some acc"
| "parse_digits acc (c # cs) =
     (case digit_val c of
        None \<Rightarrow> None
      | Some d \<Rightarrow> if acc * 10 + d < 2 ^ 16 then parse_digits (acc * 10 + d) cs else None)"

definition parse_u16 :: "string \<Rightarrow> u16 option" where
  "parse_u16 s =
     (let ds = (case s of [] \<Rightarrow> [] | c # cs \<Rightarrow> if c = CHR ''+'' then cs else s)
      in if ds = [] then None else map_option of_nat (parse_digits 0 ds))"

definition show_u16 :: "u16 \<Rightarrow> string" where
  "show_u16 w = show_nat (unat w)"

definition try_into_u16 :: "u32 \<Rightarrow> u16 option" where
  "try_into_u16 w = (if unat w < 2 ^ 16 then Some (ucast w) else None)"

section \<open>Socket addresses\<close>

text \<open>\<open>std::net::SocketAddr\<close>: an IPv4 address and port, or an IPv6 address, port, flow and scope.\<close>

datatype SocketAddr =
    SocketV4 (sa_ip4: u32) (sa_port4: u16)
  | SocketV6 (sa_ip6: u128) (sa_port6: u16) (sa_flow: u32) (sa_scope: u32)

fun socket_port :: "SocketAddr \<Rightarrow> u16" where
  "socket_port (SocketV4 _ p) = p"
| "socket_port (SocketV6 _ p _ _) = p"

text \<open>The derived order: IPv4 before IPv6, then field by field.\<close>

fun socket_key :: "SocketAddr \<Rightarrow> nat \<times> nat \<times> nat \<times> nat \<times> nat" where
  "socket_key (SocketV4 i p) = (0, unat i, unat p, 0, 0)"
| "socket_key (SocketV6 i p f s) = (1, unat i, unat p, unat f, unat s)"

lemma socket_key_inject: "socket_key a = socket_key b \<Longrightarrow> a = b"
  by (cases a; cases b) (auto simp: word_unat_eq_iff)

instantiation SocketAddr :: linorder
begin

definition less_eq_SocketAddr :: "SocketAddr \<Rightarrow> SocketAddr \<Rightarrow> bool" where
  "less_eq_SocketAddr a b = (socket_key a \<le> socket_key b)"

definition less_SocketAddr :: "SocketAddr \<Rightarrow> SocketAddr \<Rightarrow> bool" where
  "less_SocketAddr a b = (socket_key a < socket_key b)"

instance
  by standard
    (auto simp: less_eq_SocketAddr_def less_SocketAddr_def intro: socket_key_inject)

end

fun hex_char :: "nat \<Rightarrow> char" where
  "hex_char d = char_of (if d < 10 then 48 + d else 87 + d)"

fun show_hex :: "nat \<Rightarrow> string" where
  "show_hex n = (if n < 16 then [hex_char n] else show_hex (n div 16) @ [hex_char (n mod 16)])"

declare show_hex.simps [simp del]

definition show_ipv4 :: "nat \<Rightarrow> string" where
  "show_ipv4 n =
     str_join ''.'' (map show_nat
       [n div 2 ^ 24 mod 256, n div 2 ^ 16 mod 256, n div 2 ^ 8 mod 256, n mod 256])"

definition ipv6_segments :: "u128 \<Rightarrow> nat list" where
  "ipv6_segments w = map (\<lambda>i. unat w div 2 ^ (16 * (7 - i)) mod 2 ^ 16) [0..<8]"

text \<open>
  The longest run of zero segments, the first one on a tie: \<open>(start, len)\<close> of the longest and
  of the current run, over the remaining segments with their index.
\<close>

fun zero_span :: "nat \<times> nat \<Rightarrow> nat \<times> nat \<Rightarrow> nat \<Rightarrow> nat list \<Rightarrow> nat \<times> nat" where
  "zero_span longest cur i [] = longest"
| "zero_span longest cur i (s # ss) =
     (if s = 0 then
        (let cur' = (if snd cur = 0 then (i, 1) else (fst cur, snd cur + 1))
         in zero_span (if snd cur' > snd longest then cur' else longest) cur' (i + 1) ss)
      else zero_span longest (0, 0) (i + 1) ss)"

definition show_ipv6 :: "u128 \<Rightarrow> string" where
  "show_ipv6 w =
     (let segs = ipv6_segments w; (start, len) = zero_span (0, 0) (0, 0) 0 segs;
          part = (\<lambda>xs. str_join '':'' (map show_hex xs))
      in if unat w div 2 ^ 32 = 65535 then ''::ffff:'' @ show_ipv4 (unat w mod 2 ^ 32)
         else if len > 1 then part (take start segs) @ ''::'' @ part (drop (start + len) segs)
         else part segs)"

fun show_socket_addr :: "SocketAddr \<Rightarrow> string" where
  "show_socket_addr (SocketV4 i p) = show_ipv4 (unat i) @ '':'' @ show_u16 p"
| "show_socket_addr (SocketV6 i p f s) =
     ''['' @ show_ipv6 i @ (if s = 0 then [] else ''%'' @ show_nat (unat s)) @ '']:'' @ show_u16 p"

section \<open>Paths\<close>

text \<open>
  \<open>Path::extension\<close> on Unix: the last component of the path after dropping empty and \<open>.\<close>
  components, unless it is \<open>..\<close>; in it, what follows the last dot, unless the name has no
  dot or only the leading one.
\<close>

definition path_file_name :: "string \<Rightarrow> string option" where
  "path_file_name p =
     (let parts = filter (\<lambda>c. c \<noteq> [] \<and> c \<noteq> ''.'') (str_split (CHR ''/'') p)
      in if parts = [] \<or> last parts = ''..'' then None else Some (last parts))"

definition path_extension :: "string \<Rightarrow> string option" where
  "path_extension p =
     (case path_file_name p of
        None \<Rightarrow> None
      | Some f \<Rightarrow>
          (case rsplit_once (CHR ''.'') f of
             None \<Rightarrow> None
           | Some (before, after) \<Rightarrow> if before = [] then None else Some after))"

section \<open>Debug formatting of strings\<close>

text \<open>
  \<open>{:?}\<close> on a \<open>str\<close>: quoted, with the escapes of \<open>char::escape_debug\<close>.  Exact on ASCII; a
  non-ASCII byte is copied, which is what Rust prints for printable characters.
\<close>

definition debug_char :: "char \<Rightarrow> string" where
  "debug_char c =
     (let n = (of_char c :: nat) in
      if n = 0 then [CHR 0x5C, CHR ''0'']
      else if n = 9 then [CHR 0x5C, CHR ''t'']
      else if n = 10 then [CHR 0x5C, CHR ''n'']
      else if n = 13 then [CHR 0x5C, CHR ''r'']
      else if n = 34 \<or> n = 92 then [CHR 0x5C, c]
      else if n < 32 \<or> n = 127 then [CHR 0x5C] @ ''u{'' @ show_hex n @ ''}''
      else [c])"

definition debug_str :: "string \<Rightarrow> string" where
  "debug_str s = [CHR 0x22] @ concat (map debug_char s) @ [CHR 0x22]"

section \<open>Checked and wrapping sums\<close>

text \<open>
  \<open>Iterator::sum\<close> and \<open>+=\<close> on \<open>u32\<close>.  With overflow checks (a debug build) an overflow panics;
  without them (a release build) the addition wraps.
\<close>

definition add_u32 :: "bool \<Rightarrow> u32 \<Rightarrow> u32 \<Rightarrow> u32 outcome" where
  "add_u32 overflow_checks a b =
     (if overflow_checks \<and> 2 ^ 32 \<le> unat a + unat b then Panic else Done (a + b))"

fun sum_u32 :: "bool \<Rightarrow> u32 \<Rightarrow> u32 list \<Rightarrow> u32 outcome" where
  "sum_u32 chk acc [] = Done acc"
| "sum_u32 chk acc (w # ws) =
     (case add_u32 chk acc w of Panic \<Rightarrow> Panic | Done a \<Rightarrow> sum_u32 chk a ws)"

section \<open>Lemmas\<close>

subsection \<open>Splitting and joining\<close>

lemma str_split_not_Nil [simp]: "str_split c s \<noteq> []"
  by (cases s) auto

lemma str_split_append:
  "c \<notin> set a \<Longrightarrow> str_split c (a @ c # b) = a # str_split c b"
  by (induction a) auto

lemma str_split_no_sep: "c \<notin> set s \<Longrightarrow> str_split c s = [s]"
  by (induction s) auto

lemma str_split_pieces: "p \<in> set (str_split c s) \<Longrightarrow> c \<notin> set p"
proof (induction s arbitrary: p)
  case Nil
  then show ?case by simp
next
  case (Cons x s)
  obtain h t where ht: "str_split c s = h # t"
    by (cases "str_split c s") auto
  with Cons show ?case by (auto split: if_splits)
qed

lemma hd_str_split: "hd (str_split c s) = takeWhile (\<lambda>x. x \<noteq> c) s"
  by (induction s) auto

lemma str_join_Cons: "xs \<noteq> [] \<Longrightarrow> str_join sep (x # xs) = x @ sep @ str_join sep xs"
  by (cases xs) auto

lemma str_join_split: "str_join [c] (str_split c s) = s"
proof (induction s)
  case Nil
  show ?case by simp
next
  case (Cons x s)
  obtain h t where ht: "str_split c s = h # t"
    by (cases "str_split c s") auto
  show ?case
  proof (cases "x = c")
    case True
    then show ?thesis using Cons.IH by (simp add: str_join_Cons)
  next
    case False
    then show ?thesis using Cons.IH ht by (cases t) auto
  qed
qed

lemma str_split_join:
  assumes "xs \<noteq> []" and "\<And>x. x \<in> set xs \<Longrightarrow> c \<notin> set x"
  shows "str_split c (str_join [c] xs) = xs"
  using assms
proof (induction xs)
  case Nil
  then show ?case by simp
next
  case (Cons x xs)
  show ?case
  proof (cases xs)
    case Nil
    then show ?thesis using Cons.prems by (simp add: str_split_no_sep)
  next
    case (Cons y ys)
    then have "str_split c (str_join [c] xs) = xs"
      using Cons.IH Cons.prems by auto
    then show ?thesis
      using Cons Cons.prems by (simp add: str_split_append)
  qed
qed

lemma rsplit_once_None: "rsplit_once c s = None \<longleftrightarrow> c \<notin> set s"
  by (induction s) (auto split: option.splits)

lemma rsplit_once_Some:
  "rsplit_once c s = Some (a, b) \<longleftrightarrow> s = a @ c # b \<and> c \<notin> set b"
proof (induction s arbitrary: a b)
  case Nil
  show ?case by simp
next
  case (Cons x s)
  show ?case
  proof (cases "rsplit_once c s")
    case None
    then have "c \<notin> set s" by (simp add: rsplit_once_None)
    then show ?thesis using None by (cases a) auto
  next
    case (Some p)
    obtain a' b' where p: "p = (a', b')" by (cases p)
    have s: "s = a' @ c # b'" "c \<notin> set b'"
      using Cons.IH [of a' b'] Some p by simp_all
    have "x # s = a @ c # b \<and> c \<notin> set b \<longleftrightarrow> a = x # a' \<and> b = b'"
      using s append_Cons_unique_last [of a c b "x # a'" b'] by auto
    then show ?thesis
      using Some p by auto
  qed
qed

subsection \<open>Case-insensitive comparison\<close>

lemma eq_ignore_ascii_case_refl [simp]: "eq_ignore_ascii_case s s"
  by (simp add: eq_ignore_ascii_case_def)

lemma eq_ignore_ascii_case_sym: "eq_ignore_ascii_case a b = eq_ignore_ascii_case b a"
  by (auto simp: eq_ignore_ascii_case_def)

lemma eq_ignore_ascii_case_trans:
  "eq_ignore_ascii_case a b \<Longrightarrow> eq_ignore_ascii_case b c \<Longrightarrow> eq_ignore_ascii_case a c"
  by (simp add: eq_ignore_ascii_case_def)

subsection \<open>Decimal numbers\<close>

lemma digit_val_digit_char: "d < 10 \<Longrightarrow> digit_val (digit_char d) = Some d"
  by (simp add: digit_val_def digit_char_def Let_def)

lemma show_nat_not_Nil [simp]: "show_nat n \<noteq> []"
  by (subst show_nat.simps) simp

lemma show_nat_digits: "c \<in> set (show_nat n) \<Longrightarrow> \<exists>d < 10. c = digit_char d"
proof (induction n rule: show_nat.induct)
  case (1 n)
  then show ?case
    by (subst (asm) show_nat.simps) (auto split: if_splits intro: exI [of _ "n mod 10"])
qed

lemma parse_digits_append:
  "parse_digits acc (xs @ ys) = Option.bind (parse_digits acc xs) (\<lambda>a. parse_digits a ys)"
  by (induction xs arbitrary: acc) (auto split: option.splits)

lemma parse_digits_show: "n < 2 ^ 16 \<Longrightarrow> parse_digits 0 (show_nat n) = Some n"
proof (induction n rule: show_nat.induct)
  case (1 n)
  show ?case
  proof (cases "n < 10")
    case True
    then show ?thesis by (simp add: show_nat.simps [of n] digit_val_digit_char)
  next
    case False
    then have "parse_digits 0 (show_nat (n div 10)) = Some (n div 10)"
      using 1 by simp
    then show ?thesis
      using False 1 by (simp add: show_nat.simps [of n] parse_digits_append digit_val_digit_char)
  qed
qed

lemma not_digit_not_in_show_nat:
  assumes "digit_val c = None"
  shows "c \<notin> set (show_nat n)"
proof
  assume "c \<in> set (show_nat n)"
  then obtain d where "d < 10" "c = digit_char d"
    using show_nat_digits by blast
  then show False using digit_val_digit_char [of d] assms by simp
qed

lemma parse_u16_show_u16: "parse_u16 (show_u16 w) = Some w"
proof -
  have lt: "unat w < 2 ^ 16"
    using unsigned_less [of w, where ?'a = nat] by simp
  obtain c cs where s: "show_nat (unat w) = c # cs"
    by (cases "show_nat (unat w)") auto
  then have "c \<noteq> CHR ''+''"
    using not_digit_not_in_show_nat [of "CHR ''+''" "unat w"] by (auto simp: digit_val_def)
  then show ?thesis
    using parse_digits_show [OF lt] s by (simp add: parse_u16_def show_u16_def)
qed

lemma try_into_u16_Some:
  "try_into_u16 w = Some p \<longleftrightarrow> unat w < 2 ^ 16 \<and> p = ucast w"
  by (auto simp: try_into_u16_def)

subsection \<open>Sums\<close>

lemma sum_u32_release: "sum_u32 False acc ws = Done (acc + sum_list ws)"
  by (induction ws arbitrary: acc) (auto simp: add_u32_def add.assoc)

lemma unat_add_no_overflow:
  "unat a + unat b < 2 ^ 32 \<Longrightarrow> unat (a + b :: u32) = unat a + unat b"
  by (simp add: unat_word_ariths)

lemma sum_u32_debug:
  "sum_u32 True acc ws =
     (if unat acc + (\<Sum>w\<leftarrow>ws. unat w) < 2 ^ 32 then Done (acc + sum_list ws) else Panic)"
proof (induction ws arbitrary: acc)
  case Nil
  then show ?case using unsigned_less [of acc, where ?'a = nat] by simp
next
  case (Cons w ws)
  show ?case
  proof (cases "unat acc + unat w < 2 ^ 32")
    case True
    then show ?thesis
      using Cons.IH [of "acc + w"] unat_add_no_overflow [OF True]
      by (simp add: add_u32_def add.assoc)
  next
    case False
    then show ?thesis by (simp add: add_u32_def)
  qed
qed

lemma unat_sum_list_no_overflow:
  "(\<Sum>w\<leftarrow>ws. unat w) < 2 ^ 32 \<Longrightarrow> unat (sum_list ws :: u32) = (\<Sum>w\<leftarrow>ws. unat w)"
proof (induction ws)
  case (Cons w ws)
  then have "unat (sum_list ws) = (\<Sum>w\<leftarrow>ws. unat w)" by simp
  then show ?case using Cons.prems by (simp add: unat_add_no_overflow)
qed simp

lemmas [rust_std] = starts_with_def ends_with_def str_contains_def strip_prefix_def
  eq_ignore_ascii_case_def to_ascii_lowercase_def digit_char_def digit_val_def
  parse_u16_def show_u16_def try_into_u16_def

end
