(* ===== verification/BTree_Map.thy ===== *)
theory BTree_Map
  imports Rust_Std
begin

text \<open>
  \<open>std::collections::BTreeMap\<close> and \<open>BTreeSet\<close>.  The code iterates over them (\<open>values()\<close>,
  \<open>into_iter()\<close>), so the order of the keys is observable: a map is its list of entries in
  strictly increasing key order, a set its strictly increasing list of elements.  The locale
  \<open>ordered_map\<close> states what the clients rely on; \<open>bt\<close> is its interpretation on the
  operations defined here, and the xDS client's state is reasoned about through it.
\<close>

section \<open>Operations\<close>

type_synonym ('k, 'v) btree_map = "('k \<times> 'v) list"
type_synonym 'k btree_set = "'k list"

definition bt_get :: "('k, 'v) btree_map \<Rightarrow> 'k \<Rightarrow> 'v option" where
  "bt_get m k = map_of m k"

fun bt_insert :: "'k::linorder \<Rightarrow> 'v \<Rightarrow> ('k, 'v) btree_map \<Rightarrow> ('k, 'v) btree_map" where
  "bt_insert k v [] = [(k, v)]"
| "bt_insert k v (e # m) =
     (if fst e < k then e # bt_insert k v m
      else if fst e = k then (k, v) # m
      else (k, v) # e # m)"

definition bt_remove :: "'k \<Rightarrow> ('k, 'v) btree_map \<Rightarrow> ('k, 'v) btree_map" where
  "bt_remove k m = filter (\<lambda>e. fst e \<noteq> k) m"

definition bt_values :: "('k, 'v) btree_map \<Rightarrow> 'v list" where
  "bt_values m = map snd m"

definition bt_invar :: "('k::linorder, 'v) btree_map \<Rightarrow> bool" where
  "bt_invar m = sorted_wrt (<) (map fst m)"

text \<open>\<open>BTreeSet::insert\<close> also reports whether the value was new.\<close>

definition bset_insert :: "'k::linorder \<Rightarrow> 'k btree_set \<Rightarrow> bool \<times> 'k btree_set" where
  "bset_insert x s = (if x \<in> set s then (False, s) else (True, insort x s))"

fun bset_of_list :: "'k::linorder btree_set \<Rightarrow> 'k list \<Rightarrow> 'k btree_set" where
  "bset_of_list s [] = s"
| "bset_of_list s (x # xs) = bset_of_list (snd (bset_insert x s)) xs"

section \<open>The interface\<close>

locale ordered_map =
  fixes empty :: "'m"
    and get :: "'m \<Rightarrow> 'k::linorder \<Rightarrow> 'v option"
    and put :: "'k \<Rightarrow> 'v \<Rightarrow> 'm \<Rightarrow> 'm"
    and del :: "'k \<Rightarrow> 'm \<Rightarrow> 'm"
    and entries :: "'m \<Rightarrow> ('k \<times> 'v) list"
    and ok :: "'m \<Rightarrow> bool"
  assumes ok_empty: "ok empty"
    and ok_put: "ok m \<Longrightarrow> ok (put k v m)"
    and ok_del: "ok m \<Longrightarrow> ok (del k m)"
    and get_empty: "get empty k = None"
    and get_put: "ok m \<Longrightarrow> get (put k v m) j = (if j = k then Some v else get m j)"
    and get_del: "ok m \<Longrightarrow> get (del k m) j = (if j = k then None else get m j)"
    and entries_sorted: "ok m \<Longrightarrow> sorted_wrt (<) (map fst (entries m))"
    and entries_get: "ok m \<Longrightarrow> map_of (entries m) = get m"
begin

lemma distinct_keys: "ok m \<Longrightarrow> distinct (map fst (entries m))"
  using entries_sorted [of m] by (simp add: strict_sorted_iff)

lemma in_entries_iff: "ok m \<Longrightarrow> (k, v) \<in> set (entries m) \<longleftrightarrow> get m k = Some v"
  using distinct_keys entries_get by (metis map_of_eq_Some_iff)

lemma ok_del_all: "ok m \<Longrightarrow> ok (fold del ks m)"
  by (induction ks arbitrary: m) (auto intro: ok_del)

lemma get_del_all: "ok m \<Longrightarrow> get (fold del ks m) k = (if k \<in> set ks then None else get m k)"
  by (induction ks arbitrary: m) (auto simp: ok_del get_del)

lemma ok_put_all: "ok m \<Longrightarrow> ok (fold (\<lambda>x. put (f x) (g x)) xs m)"
  by (induction xs arbitrary: m) (auto intro: ok_put)

lemma get_put_all:
  "ok m \<Longrightarrow> get (fold (\<lambda>x. put (f x) (g x)) xs m) k =
     (case map_of (rev (map (\<lambda>x. (f x, g x)) xs)) k of Some v \<Rightarrow> Some v | None \<Rightarrow> get m k)"
proof (induction xs arbitrary: m)
  case (Cons x xs)
  then show ?case
    by (auto simp: ok_put get_put map_add_def split: option.splits)
qed simp

lemma value_iff:
  "ok m \<Longrightarrow> v \<in> set (map snd (entries m)) \<longleftrightarrow> (\<exists>k. get m k = Some v)"
  using in_entries_iff by (auto simp: image_iff) force

end

section \<open>The interpretation\<close>

lemma map_of_bt_insert:
  "bt_invar m \<Longrightarrow> map_of (bt_insert k v m) j = (if j = k then Some v else map_of m j)"
  by (induction m) (auto simp: bt_invar_def)

lemma keys_bt_insert: "set (map fst (bt_insert k v m)) = insert k (set (map fst m))"
  by (induction m) auto

lemma bt_insert_invar: "bt_invar m \<Longrightarrow> bt_invar (bt_insert k v m)"
proof (induction m)
  case Nil
  show ?case by (simp add: bt_invar_def)
next
  case (Cons e m)
  have "\<forall>j\<in>set (map fst m). fst e < j" and "bt_invar m"
    using Cons.prems by (auto simp: bt_invar_def)
  then show ?case
    using Cons keys_bt_insert [of k v m] by (fastforce simp: bt_invar_def)
qed

lemma bt_remove_invar: "bt_invar m \<Longrightarrow> bt_invar (bt_remove k m)"
  by (induction m) (auto simp: bt_invar_def bt_remove_def)

lemma map_of_bt_remove:
  "map_of (bt_remove k m) j = (if j = k then None else map_of m j)"
  by (induction m) (auto simp: bt_remove_def)

interpretation bt: ordered_map
  "[] :: ('k::linorder, 'v) btree_map" bt_get bt_insert bt_remove "\<lambda>m. m" bt_invar
  by unfold_locales
    (auto simp: bt_get_def bt_invar_def [of "[]"] fun_eq_iff map_of_bt_insert map_of_bt_remove
       bt_insert_invar bt_remove_invar, auto simp: bt_invar_def)

lemma bt_values_iff: "bt_invar m \<Longrightarrow> v \<in> set (bt_values m) \<longleftrightarrow> (\<exists>k. bt_get m k = Some v)"
  unfolding bt_values_def by (rule bt.value_iff)

text \<open>A map is determined by its lookups: the entry list is a canonical representation.\<close>

lemma bt_extensional:
  assumes "bt_invar m" and "bt_invar n" and "\<And>k. bt_get m k = bt_get n k"
  shows "m = n"
proof -
  have "set m = set n"
    using bt.in_entries_iff [OF assms(1)] bt.in_entries_iff [OF assms(2)] assms(3) by auto
  moreover have "distinct (map fst m)" "distinct (map fst n)"
    using assms(1,2) by (simp_all add: bt.distinct_keys)
  moreover have "sorted (map fst m)" "sorted (map fst n)"
    using assms(1,2) by (simp_all add: bt_invar_def strict_sorted_iff)
  ultimately show ?thesis
    by (intro map_sorted_distinct_set_unique [of fst]) (simp_all add: distinct_map)
qed

section \<open>Sets\<close>

lemma bset_insert_set: "set (snd (bset_insert x s)) = insert x (set s)"
  by (auto simp: bset_insert_def set_insort_key)

lemma bset_insert_invar:
  "sorted_wrt (<) s \<Longrightarrow> sorted_wrt (<) (snd (bset_insert x s))"
  by (auto simp: bset_insert_def strict_sorted_iff sorted_insort distinct_insort)

lemma set_bset_of_list: "set (bset_of_list s xs) = set s \<union> set xs"
  by (induction xs arbitrary: s) (auto simp: bset_insert_set)

lemma bset_of_list_invar: "sorted_wrt (<) s \<Longrightarrow> sorted_wrt (<) (bset_of_list s xs)"
  by (induction xs arbitrary: s) (auto intro: bset_insert_invar)

end
