(* ===== verification/Xds_Proto.thy ===== *)
theory Xds_Proto
  imports Rust_Std BTree_Map
begin

text \<open>
  The protobuf messages of \<open>crates/xds/proto\<close> as the Rust code sees them after \<open>prost\<close>:
  a message is a record, a \<open>oneof\<close> is an optional variant, an enum field is the raw \<open>i32\<close>.
  Fields the client never reads are left out.  Decoding itself is \<open>prost\<close>'s and is a
  parameter (\<open>decoders\<close>): each decoder maps bytes to the message or to an error text.
\<close>

section \<open>Common messages\<close>

record Any =
  any_type_url :: string
  any_value :: bytes

datatype PortSpecifier = PortValue u32

record SocketAddress =
  sock_address :: string
  sock_port_specifier :: "PortSpecifier option"

datatype AddressKind = SocketAddressKind SocketAddress | PipeKind string

record Address =
  addr_address :: "AddressKind option"

datatype ConfigType = TypedConfig Any

record TransportSocket =
  tsock_name :: string
  tsock_config_type :: "ConfigType option"

datatype Value = StringValue string

record Node =
  node_id_field :: string
  node_cluster :: string
  node_metadata :: "(string, Value) btree_map option"

section \<open>Routes\<close>

datatype PathSpecifier = PS_Prefix string | PS_Path string | PS_SafeRegex string

datatype HeaderMatchSpecifier = ExactMatch string | SafeRegexMatch string

record HeaderMatcher =
  hmr_name :: string
  hmr_specifier :: "HeaderMatchSpecifier option"

record xds_RouteMatch =
  xrm_path_specifier :: "PathSpecifier option"
  xrm_headers :: "HeaderMatcher list"

record ClusterWeight =
  cw_name :: string
  cw_weight :: "u32 option"

datatype ClusterSpecifier = CS_Cluster string | CS_WeightedClusters "ClusterWeight list"

record RouteAction =
  ra_cluster_specifier :: "ClusterSpecifier option"

datatype RouteActionKind = ActionRoute RouteAction | NonForwardingAction

record xds_Route =
  xr_name :: string
  xr_match :: "xds_RouteMatch option"
  xr_action :: "RouteActionKind option"

record xds_VirtualHost =
  xvh_name :: string
  xvh_domains :: "string list"
  xvh_routes :: "xds_Route list"

record RouteConfiguration =
  rcfg_name :: string
  rcfg_virtual_hosts :: "xds_VirtualHost list"

section \<open>Listeners\<close>

datatype RouteSpecifier = Rds string | RouteConfig RouteConfiguration

record HttpConnectionManager =
  hcm_route_specifier :: "RouteSpecifier option"

record Filter =
  flt_name :: string
  flt_config_type :: "ConfigType option"

record FilterChain =
  fch_filters :: "Filter list"

record ApiListener =
  al_api_listener :: "Any option"

record xds_Listener =
  xl_name :: string
  xl_address :: "Address option"
  xl_filter_chains :: "FilterChain list"
  xl_api_listener :: "ApiListener option"

section \<open>Clusters, endpoints, TLS\<close>

record xds_Endpoint =
  xe_address :: "Address option"

datatype HostIdentifier = HI_Endpoint xds_Endpoint | HI_EndpointName string

record LbEndpoint =
  lbe_host_identifier :: "HostIdentifier option"
  lbe_health_status :: "32 word"

record LocalityLbEndpoints =
  loc_lb_endpoints :: "LbEndpoint list"

record ClusterLoadAssignment =
  cla_cluster_name :: string
  cla_endpoints :: "LocalityLbEndpoints list"

record EdsClusterConfig =
  eds_service_name :: string

record xds_Cluster =
  xc_name :: string
  xc_eds_cluster_config :: "EdsClusterConfig option"
  xc_load_assignment :: "ClusterLoadAssignment option"
  xc_transport_socket :: "TransportSocket option"

record CertificateProviderInstance =
  cpi_instance_name :: string
  cpi_certificate_name :: string

record CombinedValidationContext =
  cvc_provider_instance :: "CertificateProviderInstance option"

datatype ValidationContextType = CombinedValidation CombinedValidationContext

record CommonTlsContext =
  ctc_certificate_provider :: "CertificateProviderInstance option"
  ctc_alpn_protocols :: "string list"
  ctc_validation_context_type :: "ValidationContextType option"

record UpstreamTlsContext =
  utc_common :: "CommonTlsContext option"
  utc_sni :: string

section \<open>Discovery\<close>

record DiscoveryRequest =
  dq_version_info :: string
  dq_node :: "Node option"
  dq_resource_names :: "string list"
  dq_type_url :: string
  dq_response_nonce :: string
  dq_error_detail :: "string option"

record DiscoveryResponse =
  dr_version_info :: string
  dr_resources :: "Any list"
  dr_type_url :: string
  dr_nonce :: string

section \<open>Decoders\<close>

record decoders =
  dec_listener :: "bytes \<Rightarrow> (xds_Listener, string) result"
  dec_route :: "bytes \<Rightarrow> (RouteConfiguration, string) result"
  dec_cluster :: "bytes \<Rightarrow> (xds_Cluster, string) result"
  dec_assignment :: "bytes \<Rightarrow> (ClusterLoadAssignment, string) result"
  dec_hcm :: "bytes \<Rightarrow> (HttpConnectionManager, string) result"
  dec_tls :: "bytes \<Rightarrow> (UpstreamTlsContext, string) result"

end
