(* ===== verification/Core_Config.thy ===== *)
theory Core_Config
  imports BTree_Map
begin

text \<open>
  The crate \<open>dxgate-core\<close>: the runtime configuration of \<open>config.rs\<close> with its validation and
  routing, the match input and conflict records of \<open>matchers.rs\<close>, the errors of \<open>error.rs\<close>.
  The main results: \<open>validate\<close> reports each kind of conflict exactly when the configuration
  has it (\<open>validate_reports_exactly\<close>), routing is first-match over the virtual hosts of the
  first listener on the port, and a validated configuration never routes to an empty
  destination or to a cluster it does not define.
\<close>

section \<open>Data\<close>

abbreviation HTTP_LISTENER_PORT :: u16 where
  "HTTP_LISTENER_PORT \<equiv> 80"

datatype ListenerProtocol = Http | Https

datatype PathMatch = Prefix string | Exact string

record HeaderMatch =
  hm_name :: string
  hm_value :: string

record RouteMatch =
  rm_path :: PathMatch
  rm_headers :: "HeaderMatch list"

record WeightedCluster =
  wc_name :: string
  wc_weight :: u32

record Route =
  rt_name :: string
  rt_matches :: "RouteMatch list"
  rt_weighted_clusters :: "WeightedCluster list"

record VirtualHost =
  vh_name :: string
  vh_domains :: "string list"
  vh_routes :: "Route list"

record Listener =
  l_name :: string
  l_bind :: SocketAddr
  l_protocol :: ListenerProtocol
  l_virtual_hosts :: "VirtualHost list"
  l_tls_secret :: "string option"

record UpstreamTls =
  tls_sni :: "string option"
  tls_certificate_provider :: "string option"
  tls_validation_provider :: "string option"
  tls_alpn_protocols :: "string list"

record Endpoint =
  ep_address :: string
  ep_port :: u16
  ep_healthy :: bool
  ep_node_name :: "string option"

record Cluster =
  c_name :: string
  c_endpoints :: "Endpoint list"
  c_tls :: "UpstreamTls option"

record TlsSecret =
  ts_name :: string
  ts_certificate_chain_pem :: string
  ts_private_key_pem :: string

record RuntimeConfig =
  rc_version :: string
  rc_listeners :: "Listener list"
  rc_clusters :: "Cluster list"
  rc_secrets :: "TlsSecret list"

record MatchInput =
  in_host :: string
  in_path :: string
  in_headers :: "(string \<times> string) list"

record ConfigConflict =
  cc_kind :: string
  cc_message :: string

datatype DxgateError =
    InvalidConfig string
  | RouteNotFound string string
  | ClusterNotFound string
  | NoHealthyEndpoints string
  | Io string

fun show_DxgateError :: "DxgateError \<Rightarrow> string" where
  "show_DxgateError (InvalidConfig m) = ''invalid runtime config: '' @ m"
| "show_DxgateError (RouteNotFound h p) = ''route not found for host='' @ h @ '' path='' @ p"
| "show_DxgateError (ClusterNotFound c) = ''cluster '' @ c @ '' not found''"
| "show_DxgateError (NoHealthyEndpoints c) = ''cluster '' @ c @ '' has no healthy endpoints''"
| "show_DxgateError (Io m) = ''io error: '' @ m"

section \<open>Validation\<close>

definition config_empty :: "string \<Rightarrow> RuntimeConfig" where
  "config_empty version =
     \<lparr>rc_version = version, rc_listeners = [], rc_clusters = [], rc_secrets = []\<rparr>"

definition conflict_new :: "string \<Rightarrow> string \<Rightarrow> ConfigConflict" where
  "conflict_new kind message = \<lparr>cc_kind = kind, cc_message = message\<rparr>"

text \<open>What \<open>binds\<close> remembers of the last listener on an address: name, protocol, TLS or not.\<close>

type_synonym bind_entry = "string \<times> ListenerProtocol \<times> bool"

definition listener_entry :: "Listener \<Rightarrow> bind_entry" where
  "listener_entry l = (l_name l, l_protocol l, l_tls_secret l \<noteq> None)"

definition bind_conflicts :: "bind_entry option \<Rightarrow> Listener \<Rightarrow> ConfigConflict list" where
  "bind_conflicts old l =
     (case old of
        None \<Rightarrow> []
      | Some (existing_name, existing_protocol, existing_tls) \<Rightarrow>
          if existing_protocol \<noteq> l_protocol l \<or> existing_tls \<noteq> (l_tls_secret l \<noteq> None)
          then [conflict_new ''listener-bind-conflict''
                  (''listeners '' @ existing_name @ '' and '' @ l_name l @ '' both bind '' @
                   show_socket_addr (l_bind l) @ '' with incompatible protocol or TLS mode'')]
          else [])"

fun check_listeners ::
  "string btree_set \<Rightarrow> (SocketAddr, bind_entry) btree_map \<Rightarrow> Listener list \<Rightarrow> ConfigConflict list"
where
  "check_listeners names binds [] = []"
| "check_listeners names binds (l # ls) =
     (let (new, names') = bset_insert (l_name l) names
      in (if new then []
          else [conflict_new ''duplicate-listener''
                  (''listener '' @ l_name l @ '' is defined more than once'')])
         @ bind_conflicts (bt_get binds (l_bind l)) l
         @ check_listeners names' (bt_insert (l_bind l) (listener_entry l) binds) ls)"

fun check_clusters ::
  "string btree_set \<Rightarrow> Cluster list \<Rightarrow> ConfigConflict list \<times> string btree_set"
where
  "check_clusters names [] = ([], names)"
| "check_clusters names (c # cs) =
     (let (new, names') = bset_insert (c_name c) names;
          (rest, final) = check_clusters names' cs
      in ((if new then []
           else [conflict_new ''duplicate-cluster''
                   (''cluster '' @ c_name c @ '' is defined more than once'')]) @ rest, final))"

definition check_route :: "string btree_set \<Rightarrow> Listener \<Rightarrow> Route \<Rightarrow> ConfigConflict list" where
  "check_route clusters l r =
     (if rt_weighted_clusters r = []
      then [conflict_new ''empty-route-destination''
              (''route '' @ rt_name r @ '' on listener '' @ l_name l @
               '' has no weighted clusters'')]
      else []) @
     concat (map (\<lambda>dst.
        if wc_name dst \<notin> set clusters
        then [conflict_new ''missing-cluster''
                (''route '' @ rt_name r @ '' references missing cluster '' @ wc_name dst)]
        else []) (rt_weighted_clusters r))"

definition check_routes :: "string btree_set \<Rightarrow> Listener list \<Rightarrow> ConfigConflict list" where
  "check_routes clusters ls =
     concat (map (\<lambda>l. concat (map (\<lambda>host.
        concat (map (check_route clusters l) (vh_routes host))) (l_virtual_hosts l))) ls)"

definition config_conflicts :: "RuntimeConfig \<Rightarrow> ConfigConflict list" where
  "config_conflicts cfg =
     (let (dup, names) = check_clusters [] (rc_clusters cfg)
      in check_listeners [] [] (rc_listeners cfg) @ dup @ check_routes names (rc_listeners cfg))"

definition validate :: "RuntimeConfig \<Rightarrow> (unit, ConfigConflict list) result" where
  "validate cfg =
     (let conflicts = config_conflicts cfg
      in if conflicts = [] then Ok () else Err conflicts)"

section \<open>Routing\<close>

definition listener_by_port :: "RuntimeConfig \<Rightarrow> u16 \<Rightarrow> Listener option" where
  "listener_by_port cfg port = find (\<lambda>l. socket_port (l_bind l) = port) (rc_listeners cfg)"

definition cluster_by_name :: "RuntimeConfig \<Rightarrow> string \<Rightarrow> Cluster option" where
  "cluster_by_name cfg name = find (\<lambda>c. c_name c = name) (rc_clusters cfg)"

definition domain_matches :: "string \<Rightarrow> string \<Rightarrow> bool" where
  "domain_matches domain host =
     (domain = ''*'' \<or> eq_ignore_ascii_case domain host \<or>
      (case strip_prefix domain ''*.'' of
         None \<Rightarrow> False
       | Some sfx \<Rightarrow> ends_with host sfx))"

definition matches_host :: "VirtualHost \<Rightarrow> string \<Rightarrow> bool" where
  "matches_host vh host = list_ex (\<lambda>domain. domain_matches domain host) (vh_domains vh)"

definition path_match_default :: PathMatch where
  "path_match_default = Prefix ''/''"

fun path_matches :: "PathMatch \<Rightarrow> string \<Rightarrow> bool" where
  "path_matches (Prefix p) path = starts_with path p"
| "path_matches (Exact e) path = (path = e)"

definition header_matches :: "HeaderMatch \<Rightarrow> MatchInput \<Rightarrow> bool" where
  "header_matches h input =
     list_ex (\<lambda>(name, value). eq_ignore_ascii_case name (hm_name h) \<and> value = hm_value h)
       (in_headers input)"

definition route_match_matches :: "RouteMatch \<Rightarrow> MatchInput \<Rightarrow> bool" where
  "route_match_matches m input =
     (path_matches (rm_path m) (in_path input) \<and>
      list_all (\<lambda>h. header_matches h input) (rm_headers m))"

definition route_matches :: "Route \<Rightarrow> MatchInput \<Rightarrow> bool" where
  "route_matches r input =
     (rt_matches r = [] \<or> list_ex (\<lambda>m. route_match_matches m input) (rt_matches r))"

definition candidate_routes :: "Listener \<Rightarrow> string \<Rightarrow> Route list" where
  "candidate_routes l host =
     concat (map vh_routes (filter (\<lambda>vh. matches_host vh host) (l_virtual_hosts l)))"

definition route_for :: "RuntimeConfig \<Rightarrow> u16 \<Rightarrow> MatchInput \<Rightarrow> (Route, DxgateError) result" where
  "route_for cfg port input =
     and_then
       (ok_or (listener_by_port cfg port) (RouteNotFound (in_host input) (in_path input)))
       (\<lambda>listener.
          ok_or (find (\<lambda>r. route_matches r input) (candidate_routes listener (in_host input)))
            (RouteNotFound (in_host input) (in_path input)))"

definition healthy_endpoints :: "Cluster \<Rightarrow> Endpoint list" where
  "healthy_endpoints c = filter ep_healthy (c_endpoints c)"

lemmas [cfg_defs] = config_empty_def conflict_new_def listener_entry_def bind_conflicts_def
  check_route_def check_routes_def config_conflicts_def validate_def listener_by_port_def
  cluster_by_name_def domain_matches_def matches_host_def header_matches_def
  route_match_matches_def route_matches_def candidate_routes_def route_for_def

section \<open>What a valid configuration is\<close>

text \<open>
  The declarative counterpart of \<open>validate\<close>, with one predicate per kind of conflict.
\<close>

definition listener_mode :: "Listener \<Rightarrow> ListenerProtocol \<times> bool" where
  "listener_mode l = (l_protocol l, l_tls_secret l \<noteq> None)"

definition binds_compatible :: "Listener list \<Rightarrow> bool" where
  "binds_compatible ls =
     (\<forall>l\<in>set ls. \<forall>l'\<in>set ls. l_bind l = l_bind l' \<longrightarrow> listener_mode l = listener_mode l')"

definition config_routes :: "RuntimeConfig \<Rightarrow> Route set" where
  "config_routes cfg =
     {r. \<exists>l\<in>set (rc_listeners cfg). \<exists>vh\<in>set (l_virtual_hosts l). r \<in> set (vh_routes vh)}"

definition routes_nonempty :: "RuntimeConfig \<Rightarrow> bool" where
  "routes_nonempty cfg = (\<forall>r\<in>config_routes cfg. rt_weighted_clusters r \<noteq> [])"

definition references_defined :: "RuntimeConfig \<Rightarrow> bool" where
  "references_defined cfg =
     (\<forall>r\<in>config_routes cfg. \<forall>dst\<in>set (rt_weighted_clusters r).
        wc_name dst \<in> c_name ` set (rc_clusters cfg))"

definition config_ok :: "RuntimeConfig \<Rightarrow> bool" where
  "config_ok cfg =
     (distinct (map l_name (rc_listeners cfg)) \<and> binds_compatible (rc_listeners cfg) \<and>
      distinct (map c_name (rc_clusters cfg)) \<and> routes_nonempty cfg \<and> references_defined cfg)"

text \<open>The kinds of the conflicts that are reported, and the ones that should be.\<close>

abbreviation kinds :: "ConfigConflict list \<Rightarrow> string set" where
  "kinds cs \<equiv> cc_kind ` set cs"

definition violated_kinds :: "RuntimeConfig \<Rightarrow> string set" where
  "violated_kinds cfg =
     (if distinct (map l_name (rc_listeners cfg)) then {} else {''duplicate-listener''}) \<union>
     (if binds_compatible (rc_listeners cfg) then {} else {''listener-bind-conflict''}) \<union>
     (if distinct (map c_name (rc_clusters cfg)) then {} else {''duplicate-cluster''}) \<union>
     (if routes_nonempty cfg then {} else {''empty-route-destination''}) \<union>
     (if references_defined cfg then {} else {''missing-cluster''})"

lemma config_ok_iff_violated_kinds: "config_ok cfg \<longleftrightarrow> violated_kinds cfg = {}"
  by (simp add: config_ok_def violated_kinds_def)

section \<open>Validation reports exactly the violated kinds\<close>

subsection \<open>Listeners\<close>

lemma kinds_bind_conflicts_subset: "kinds (bind_conflicts old l) \<subseteq> {''listener-bind-conflict''}"
  by (auto simp: bind_conflicts_def conflict_new_def split: option.splits)

lemma kinds_check_listeners_Cons:
  "kinds (check_listeners names binds (l # ls)) =
     (if l_name l \<in> set names then {''duplicate-listener''} else {}) \<union>
     kinds (bind_conflicts (bt_get binds (l_bind l)) l) \<union>
     kinds (check_listeners (snd (bset_insert (l_name l) names))
              (bt_insert (l_bind l) (listener_entry l) binds) ls)"
  by (simp add: Let_def case_prod_beta image_Un conflict_new_def bset_insert_def)

lemma kinds_check_listeners_subset:
  "kinds (check_listeners names binds ls) \<subseteq> {''duplicate-listener'', ''listener-bind-conflict''}"
proof (induction ls arbitrary: names binds)
  case (Cons l ls)
  show ?case
    unfolding kinds_check_listeners_Cons
    using Cons.IH [of "snd (bset_insert (l_name l) names)"
        "bt_insert (l_bind l) (listener_entry l) binds"]
      kinds_bind_conflicts_subset [of "bt_get binds (l_bind l)" l] by auto
qed simp

lemma duplicate_listener_iff:
  "''duplicate-listener'' \<in> kinds (check_listeners names binds ls) \<longleftrightarrow>
     \<not> (distinct (map l_name ls) \<and> set names \<inter> l_name ` set ls = {})"
proof (induction ls arbitrary: names binds)
  case (Cons l ls)
  have "''duplicate-listener'' \<notin> kinds (bind_conflicts old l)" for old
    using kinds_bind_conflicts_subset [of old l] by blast
  then show ?case
    unfolding kinds_check_listeners_Cons
    using Cons.IH [of "snd (bset_insert (l_name l) names)"
        "bt_insert (l_bind l) (listener_entry l) binds"]
    by (simp add: bset_insert_set)
qed simp

definition compatible_with :: "bind_entry option \<Rightarrow> Listener \<Rightarrow> bool" where
  "compatible_with old l = (case old of None \<Rightarrow> True | Some (n, mode) \<Rightarrow> mode = listener_mode l)"

lemma bind_conflicts_Nil: "bind_conflicts old l = [] \<longleftrightarrow> compatible_with old l"
  by (auto simp: bind_conflicts_def compatible_with_def listener_mode_def split: option.splits)

lemma kinds_bind_conflicts:
  "''listener-bind-conflict'' \<in> kinds (bind_conflicts old l) \<longleftrightarrow> \<not> compatible_with old l"
  using bind_conflicts_Nil [of old l] kinds_bind_conflicts_subset [of old l]
  by (cases "bind_conflicts old l") auto

lemma binds_compatible_Cons:
  "binds_compatible (l # ls) \<longleftrightarrow>
     (\<forall>x\<in>set ls. l_bind x = l_bind l \<longrightarrow> listener_mode x = listener_mode l) \<and> binds_compatible ls"
  unfolding binds_compatible_def by (simp add: eq_commute [of "l_bind l"] eq_commute [of "listener_mode l"]) blast

lemma bind_conflict_iff:
  assumes "bt_invar binds"
  shows "''listener-bind-conflict'' \<in> kinds (check_listeners names binds ls) \<longleftrightarrow>
     \<not> ((\<forall>l\<in>set ls. compatible_with (bt_get binds (l_bind l)) l) \<and> binds_compatible ls)"
  using assms
proof (induction ls arbitrary: names binds)
  case Nil
  show ?case by (simp add: binds_compatible_def)
next
  case (Cons l ls)
  let ?binds = "bt_insert (l_bind l) (listener_entry l) binds"
  let ?rest = "check_listeners (snd (bset_insert (l_name l) names)) ?binds ls"
  have head: "''listener-bind-conflict'' \<in> kinds (check_listeners names binds (l # ls)) \<longleftrightarrow>
      \<not> compatible_with (bt_get binds (l_bind l)) l \<or> ''listener-bind-conflict'' \<in> kinds ?rest"
    unfolding kinds_check_listeners_Cons by (simp add: kinds_bind_conflicts)
  have upd: "compatible_with (bt_get ?binds (l_bind x)) x \<longleftrightarrow>
      (if l_bind x = l_bind l then listener_mode x = listener_mode l
       else compatible_with (bt_get binds (l_bind x)) x)" for x
    using Cons.prems
    by (auto simp: bt.get_put compatible_with_def listener_entry_def listener_mode_def)
  have IH: "''listener-bind-conflict'' \<in> kinds ?rest \<longleftrightarrow>
      \<not> ((\<forall>x\<in>set ls. compatible_with (bt_get ?binds (l_bind x)) x) \<and> binds_compatible ls)"
    using Cons.IH [of ?binds] Cons.prems by (simp add: bt_insert_invar)
  have old: "compatible_with (bt_get binds (l_bind x)) x"
    if "compatible_with (bt_get binds (l_bind l)) l" "l_bind x = l_bind l"
      "listener_mode x = listener_mode l" for x
    using that by (auto simp: compatible_with_def split: option.splits)
  show ?case
    unfolding head IH binds_compatible_Cons upd by (auto intro: old)
qed

subsection \<open>Clusters\<close>

lemma check_clusters_names:
  "set (snd (check_clusters names cs)) = set names \<union> c_name ` set cs"
  by (induction cs arbitrary: names) (simp_all add: Let_def case_prod_beta bset_insert_set)

lemma duplicate_cluster_Nil:
  "fst (check_clusters names cs) = [] \<longleftrightarrow>
     distinct (map c_name cs) \<and> set names \<inter> c_name ` set cs = {}"
proof (induction cs arbitrary: names)
  case (Cons c cs)
  show ?case
    using Cons.IH [of "snd (bset_insert (c_name c) names)"] bset_insert_set [of "c_name c" names]
    by (cases "c_name c \<in> set names") (auto simp: Let_def case_prod_beta bset_insert_def)
qed simp

lemma kinds_check_clusters_subset: "kinds (fst (check_clusters names cs)) \<subseteq> {''duplicate-cluster''}"
proof (induction cs arbitrary: names)
  case (Cons c cs)
  show ?case
    using Cons.IH [of "snd (bset_insert (c_name c) names)"]
    by (simp add: Let_def case_prod_beta conflict_new_def)
qed simp

lemma kinds_check_clusters:
  "kinds (fst (check_clusters [] cs)) =
     (if distinct (map c_name cs) then {} else {''duplicate-cluster''})"
  using duplicate_cluster_Nil [of "[]" cs] kinds_check_clusters_subset [of "[]" cs]
  by (cases "fst (check_clusters [] cs)") auto

subsection \<open>Routes\<close>

lemma UN_two_flags:
  "(\<Union>r\<in>R. (if P r then {a} else {}) \<union> (if Q r then {} else {b})) =
     (if \<exists>r\<in>R. P r then {a} else {}) \<union> (if \<forall>r\<in>R. Q r then {} else {b})"
  by (auto split: if_splits)

lemma kinds_check_route:
  "kinds (check_route names l r) =
     (if rt_weighted_clusters r = [] then {''empty-route-destination''} else {}) \<union>
     (if \<forall>dst\<in>set (rt_weighted_clusters r). wc_name dst \<in> set names
      then {} else {''missing-cluster''})"
  by (auto simp: check_route_def conflict_new_def image_iff)

lemma kinds_check_routes:
  assumes "set names = c_name ` set (rc_clusters cfg)"
  shows "kinds (check_routes names (rc_listeners cfg)) =
     (if routes_nonempty cfg then {} else {''empty-route-destination''}) \<union>
     (if references_defined cfg then {} else {''missing-cluster''})"
proof -
  have "kinds (check_routes names (rc_listeners cfg)) =
      (\<Union>l\<in>set (rc_listeners cfg). \<Union>vh\<in>set (l_virtual_hosts l). \<Union>r\<in>set (vh_routes vh).
         kinds (check_route names l r))"
    by (simp add: check_routes_def image_UN)
  also have "\<dots> = (\<Union>r\<in>config_routes cfg.
      (if rt_weighted_clusters r = [] then {''empty-route-destination''} else {}) \<union>
      (if \<forall>dst\<in>set (rt_weighted_clusters r). wc_name dst \<in> set names
       then {} else {''missing-cluster''}))"
    unfolding kinds_check_route config_routes_def by blast
  finally show ?thesis
    unfolding UN_two_flags routes_nonempty_def references_defined_def assms by auto
qed

subsection \<open>The whole configuration\<close>

lemma subset_pair_cases:
  "A \<subseteq> {a, b} \<Longrightarrow> (a \<in> A \<longleftrightarrow> \<not> P) \<Longrightarrow> (b \<in> A \<longleftrightarrow> \<not> Q) \<Longrightarrow>
     A = (if P then {} else {a}) \<union> (if Q then {} else {b})"
  by (cases P; cases Q; simp) blast+

lemma kinds_config_conflicts: "kinds (config_conflicts cfg) = violated_kinds cfg"
proof -
  have names: "set (snd (check_clusters [] (rc_clusters cfg))) = c_name ` set (rc_clusters cfg)"
    by (simp add: check_clusters_names)
  have listeners: "kinds (check_listeners [] [] ls) =
     (if distinct (map l_name ls) then {} else {''duplicate-listener''}) \<union>
     (if binds_compatible ls then {} else {''listener-bind-conflict''})" for ls
  proof (rule subset_pair_cases [OF kinds_check_listeners_subset])
    show "''duplicate-listener'' \<in> kinds (check_listeners [] [] ls) \<longleftrightarrow> \<not> distinct (map l_name ls)"
      unfolding duplicate_listener_iff by simp
    show "''listener-bind-conflict'' \<in> kinds (check_listeners [] [] ls) \<longleftrightarrow> \<not> binds_compatible ls"
      unfolding bind_conflict_iff [OF bt.ok_empty] by (simp add: bt.get_empty compatible_with_def)
  qed
  have "kinds (config_conflicts cfg) = kinds (check_listeners [] [] (rc_listeners cfg)) \<union>
      kinds (fst (check_clusters [] (rc_clusters cfg))) \<union>
      kinds (check_routes (snd (check_clusters [] (rc_clusters cfg))) (rc_listeners cfg))"
    by (simp add: config_conflicts_def case_prod_beta image_Un Un_assoc)
  also have "\<dots> = violated_kinds cfg"
    unfolding listeners kinds_check_clusters kinds_check_routes [OF names] violated_kinds_def
    by (simp only: Un_assoc)
  finally show ?thesis .
qed

lemma validate_Ok_iff: "validate cfg = Ok () \<longleftrightarrow> config_ok cfg"
  using kinds_config_conflicts [of cfg]
  by (auto simp: validate_def Let_def config_ok_iff_violated_kinds)

lemma validate_Err_iff: "validate cfg = Err cs \<longleftrightarrow> cs = config_conflicts cfg \<and> \<not> config_ok cfg"
  using validate_Ok_iff [of cfg] by (auto simp: validate_def Let_def)

lemma is_ok_validate: "is_ok (validate cfg) \<longleftrightarrow> config_ok cfg"
  using validate_Ok_iff [of cfg] by (cases "validate cfg") auto

section \<open>Routing\<close>

lemma in_candidate_routes:
  assumes "listener_by_port cfg port = Some l" and "r \<in> set (candidate_routes l host)"
  shows "r \<in> config_routes cfg"
proof -
  from assms(1) have "l \<in> set (rc_listeners cfg)"
    unfolding listener_by_port_def by (rule find_eq_SomeE)
  with assms(2) show ?thesis
    by (auto simp: candidate_routes_def config_routes_def)
qed

lemma route_for_Ok:
  "route_for cfg port input = Ok r \<longleftrightarrow>
     (\<exists>l. listener_by_port cfg port = Some l \<and>
        find (\<lambda>r. route_matches r input) (candidate_routes l (in_host input)) = Some r)"
  by (simp add: route_for_def)

lemma route_for_error_value:
  "route_for cfg port input = Err e \<Longrightarrow> e = RouteNotFound (in_host input) (in_path input)"
  by (auto simp: route_for_def and_then_eq_Err ok_or_def split: option.splits)

lemma route_for_Ok_in_routes:
  "route_for cfg port input = Ok r \<Longrightarrow> r \<in> config_routes cfg"
  by (auto simp: route_for_Ok elim!: find_eq_SomeE intro: in_candidate_routes)

lemma cluster_by_name_defined:
  "n \<in> c_name ` set (rc_clusters cfg) \<Longrightarrow> \<exists>c. cluster_by_name cfg n = Some c \<and> c_name c = n"
  unfolding cluster_by_name_def
  by (cases "find (\<lambda>c. c_name c = n) (rc_clusters cfg)")
    (auto simp: find_None_on elim: find_eq_SomeE)

lemma cluster_by_name_Some: "cluster_by_name cfg n = Some c \<Longrightarrow> c \<in> set (rc_clusters cfg) \<and> c_name c = n"
  unfolding cluster_by_name_def by (auto elim: find_eq_SomeE)

lemma config_ok_route:
  assumes "config_ok cfg" and "r \<in> config_routes cfg"
  shows "rt_weighted_clusters r \<noteq> []"
    and "\<And>dst. dst \<in> set (rt_weighted_clusters r) \<Longrightarrow>
           \<exists>c. cluster_by_name cfg (wc_name dst) = Some c \<and> c_name c = wc_name dst"
  using assms
  by (auto simp: config_ok_def routes_nonempty_def references_defined_def cluster_by_name_defined)

lemma config_ok_empty: "config_ok (config_empty v)"
  by (simp add: config_ok_def config_empty_def binds_compatible_def routes_nonempty_def
      references_defined_def config_routes_def)

section \<open>Properties\<close>

text \<open>
  C10: \<open>validate\<close> is sound and complete: it accepts exactly the configurations that violate
  nothing, and otherwise the kinds of the conflicts it returns are exactly the violated ones
  (duplicate listener names, incompatible listeners on one address, duplicate cluster names,
  routes without destination, references to undefined clusters).
\<close>

theorem validate_reports_exactly:
  "(case validate cfg of
      Ok u \<Rightarrow> violated_kinds cfg = {}
    | Err cs \<Rightarrow> cs \<noteq> [] \<and> kinds cs = violated_kinds cfg \<and> violated_kinds cfg \<noteq> {})"
  using kinds_config_conflicts [of cfg] by (auto simp: validate_def Let_def)

text \<open>
  Routing is first match: the route returned is the first matching one among the routes of
  the virtual hosts that match the host, in order, of the first listener on the port.
\<close>

lemma route_for_first_match:
  "route_for cfg port input = Ok r \<longleftrightarrow>
     (\<exists>l. is_first (\<lambda>l. socket_port (l_bind l) = port) (rc_listeners cfg) l \<and>
          is_first (\<lambda>r. route_matches r input)
            (concat (map vh_routes
               (filter (\<lambda>vh. matches_host vh (in_host input)) (l_virtual_hosts l)))) r)"
  by (simp add: route_for_Ok listener_by_port_def find_eq_Some_iff candidate_routes_def)

text \<open>
  When nothing matches, the only error is \<open>RouteNotFound\<close> with the request's host and path,
  and it is returned exactly when the port has no listener or no candidate route matches.
\<close>

lemma route_for_error:
  "route_for cfg port input = Err e \<longleftrightarrow>
     e = RouteNotFound (in_host input) (in_path input) \<and>
     (case listener_by_port cfg port of
        None \<Rightarrow> True
      | Some l \<Rightarrow> \<not> list_ex (\<lambda>r. route_matches r input) (candidate_routes l (in_host input)))"
  by (auto simp: route_for_def and_then_eq_Err ok_or_def find_None_on list_ex_iff
      split: option.splits elim!: find_eq_SomeE)

text \<open>
  C16: on a configuration that passes validation, every route that routing can return has at
  least one destination, and every destination names a cluster the configuration defines, so
  neither lookup of the forwarding path can fail.
\<close>

theorem validated_routes_resolve:
  assumes "validate cfg = Ok ()" and "route_for cfg port input = Ok r"
  shows "rt_weighted_clusters r \<noteq> [] \<and>
         (\<forall>dst\<in>set (rt_weighted_clusters r). \<exists>c. cluster_by_name cfg (wc_name dst) = Some c \<and>
            c_name c = wc_name dst)"
  using assms config_ok_route [of cfg r] route_for_Ok_in_routes [of cfg port input r]
  by (auto simp: validate_Ok_iff)

text \<open>
  Only the first listener on a port is consulted.  Validation accepts further listeners on
  the same address when protocol and TLS mode agree, but their virtual hosts are never routed to.
\<close>

lemma only_first_listener_routes:
  assumes "listener_by_port cfg port = Some l"
  shows "route_for cfg port input = route_for (cfg\<lparr>rc_listeners := [l]\<rparr>) port input"
proof -
  have "socket_port (l_bind l) = port"
    using assms unfolding listener_by_port_def by (rule find_eq_SomeE)
  then show ?thesis
    using assms by (simp add: route_for_def listener_by_port_def)
qed

text \<open>
  A wildcard domain is matched by plain suffix: \<open>*.d\<close> matches every host that ends in \<open>d\<close>,
  with or without a dot before it, so \<open>*.example.com\<close> also serves \<open>badexample.com\<close>.
\<close>

lemma wildcard_domain_ignores_label_boundary:
  "matches_host (vh\<lparr>vh_domains := [''*.'' @ d]\<rparr>) (x @ d)"
  by (simp add: matches_host_def domain_matches_def strip_prefix_def ends_with_def suffix_def)

section \<open>Witnesses\<close>

text \<open>The configuration of the unit test \<open>routes_by_host_path_and_header_match\<close>.\<close>

definition sample_config :: RuntimeConfig where
  "sample_config =
     \<lparr>rc_version = ''test'',
      rc_listeners =
        [\<lparr>l_name = ''http'', l_bind = SocketV4 0 80, l_protocol = Http,
          l_virtual_hosts =
            [\<lparr>vh_name = ''example'', vh_domains = [''*.example.com''],
              vh_routes =
                [\<lparr>rt_name = ''admin'',
                  rt_matches = [\<lparr>rm_path = Exact ''/admin'',
                     rm_headers = [\<lparr>hm_name = ''x-env'', hm_value = ''prod''\<rparr>]\<rparr>],
                  rt_weighted_clusters = [\<lparr>wc_name = ''admin'', wc_weight = 100\<rparr>]\<rparr>,
                 \<lparr>rt_name = ''default'',
                  rt_matches = [\<lparr>rm_path = Prefix ''/'', rm_headers = []\<rparr>],
                  rt_weighted_clusters = [\<lparr>wc_name = ''default'', wc_weight = 100\<rparr>]\<rparr>]\<rparr>],
          l_tls_secret = None\<rparr>],
      rc_clusters =
        [\<lparr>c_name = ''admin'', c_endpoints = [], c_tls = None\<rparr>,
         \<lparr>c_name = ''default'', c_endpoints = [], c_tls = None\<rparr>],
      rc_secrets = []\<rparr>"

definition sample_input :: MatchInput where
  "sample_input = \<lparr>in_host = ''api.example.com'', in_path = ''/admin'',
     in_headers = [(''x-env'', ''prod'')]\<rparr>"

lemma sample_config_valid: "validate sample_config = Ok ()"
  by (simp add: cfg_defs sample_config_def bset_insert_def bt_get_def Let_def)

lemma sample_route:
  "map_err (\<lambda>e. ()) (route_for sample_config 80 sample_input) =
     Ok (hd (vh_routes (hd (l_virtual_hosts (hd (rc_listeners sample_config))))))"
  by (simp add: cfg_defs rust_std sample_config_def sample_input_def suffix_to_prefix)

theorem validated_routes_resolve_witness:
  "\<exists>r. validate sample_config = Ok () \<and> route_for sample_config 80 sample_input = Ok r \<and>
     rt_weighted_clusters r \<noteq> []"
  using validated_routes_resolve [OF sample_config_valid, of 80 sample_input] sample_route
    sample_config_valid by simp

lemma only_first_listener_routes_example:
  "route_for (sample_config\<lparr>rc_listeners := rc_listeners sample_config @ rc_listeners sample_config\<rparr>)
     80 sample_input = route_for sample_config 80 sample_input"
proof -
  let ?cfg = "sample_config\<lparr>rc_listeners := rc_listeners sample_config @ rc_listeners sample_config\<rparr>"
  have l: "listener_by_port ?cfg 80 = Some (hd (rc_listeners sample_config))"
    by (simp add: listener_by_port_def sample_config_def)
  show ?thesis
    using only_first_listener_routes [OF l, of sample_input]
    by (simp add: route_for_def listener_by_port_def sample_config_def)
qed

end
