(* ===== verification/Xds_Convert.thy ===== *)
theory Xds_Convert
  imports Xds_Proto Core_Config
begin

text \<open>
  The conversion functions of \<open>crates/xds/src/client.rs\<close> (lines 464 to 771): from the decoded
  xDS messages to the runtime configuration's types.  They never fail except for a nested
  message that does not decode, and they drop what the proxy cannot serve (routes without
  destination, regular expressions, endpoints without an address).  Results: converted routes
  always have named destinations, converted endpoints are sorted and complete, a listener
  snapshot is a plain HTTP listener on all interfaces.
\<close>

section \<open>Errors and type names\<close>

datatype XdsError =
    InvalidEndpoint string string
  | Connect string string
  | StreamOpen string
  | StreamReceive string
  | RequestChannelClosed
  | Decode string string
  | RuntimeConfigClosed

definition CLUSTER_TYPE :: string where
  "CLUSTER_TYPE = ''type.googleapis.com/cluster.v1.Cluster''"

definition ENDPOINT_TYPE :: string where
  "ENDPOINT_TYPE = ''type.googleapis.com/endpoint.v1.ClusterLoadAssignment''"

definition LISTENER_TYPE :: string where
  "LISTENER_TYPE = ''type.googleapis.com/listener.v1.Listener''"

definition ROUTE_TYPE :: string where
  "ROUTE_TYPE = ''type.googleapis.com/route.v1.RouteConfiguration''"

definition HCM_TYPE :: string where
  "HCM_TYPE = ''type.googleapis.com/extensions.filters.network.http_connection_manager.v1.HttpConnectionManager''"

lemma type_urls_distinct [simp]:
  "LISTENER_TYPE \<noteq> ROUTE_TYPE" "LISTENER_TYPE \<noteq> CLUSTER_TYPE" "LISTENER_TYPE \<noteq> ENDPOINT_TYPE"
  "ROUTE_TYPE \<noteq> LISTENER_TYPE" "ROUTE_TYPE \<noteq> CLUSTER_TYPE" "ROUTE_TYPE \<noteq> ENDPOINT_TYPE"
  "CLUSTER_TYPE \<noteq> LISTENER_TYPE" "CLUSTER_TYPE \<noteq> ROUTE_TYPE" "CLUSTER_TYPE \<noteq> ENDPOINT_TYPE"
  "ENDPOINT_TYPE \<noteq> LISTENER_TYPE" "ENDPOINT_TYPE \<noteq> ROUTE_TYPE" "ENDPOINT_TYPE \<noteq> CLUSTER_TYPE"
  by (simp_all add: LISTENER_TYPE_def ROUTE_TYPE_def CLUSTER_TYPE_def ENDPOINT_TYPE_def)

definition decode_resource ::
  "(bytes \<Rightarrow> ('m, string) result) \<Rightarrow> string \<Rightarrow> Any \<Rightarrow> ('m, XdsError) result"
where
  "decode_resource dec type_url resource = map_err (Decode type_url) (dec (any_value resource))"

definition sorted_unique :: "string list \<Rightarrow> string list" where
  "sorted_unique names = bset_of_list [] names"

section \<open>Upstream TLS\<close>

definition instance_name :: "CertificateProviderInstance \<Rightarrow> string option" where
  "instance_name i = (if cpi_instance_name i = [] then None else Some (cpi_instance_name i))"

definition certificate_provider_name :: "CommonTlsContext \<Rightarrow> string option" where
  "certificate_provider_name common = Option.bind (ctc_certificate_provider common) instance_name"

definition validation_provider_name :: "CommonTlsContext \<Rightarrow> string option" where
  "validation_provider_name common =
     (case ctc_validation_context_type common of
        None \<Rightarrow> None
      | Some (CombinedValidation combined) \<Rightarrow>
          Option.bind (cvc_provider_instance combined) instance_name)"

definition cluster_authority :: "string \<Rightarrow> string option" where
  "cluster_authority name =
     (let parts = str_split (CHR ''|'') name
      in if 3 < length parts \<and> parts ! 3 \<noteq> [] then Some (parts ! 3) else None)"

definition first_non_empty :: "string \<Rightarrow> string option \<Rightarrow> string option" where
  "first_non_empty value fallback = (if value = [] then fallback else Some value)"

definition upstream_tls_from_cluster :: "decoders \<Rightarrow> xds_Cluster \<Rightarrow> UpstreamTls option" where
  "upstream_tls_from_cluster D cluster =
     (case Option.bind (xc_transport_socket cluster) tsock_config_type of
        None \<Rightarrow> None
      | Some (TypedConfig any) \<Rightarrow>
          if \<not> ends_with (any_type_url any) ''extensions.transport_sockets.tls.v1.UpstreamTlsContext''
          then None
          else
            (case dec_tls D (any_value any) of
               Err _ \<Rightarrow> None
             | Ok tls \<Rightarrow>
                 (let common = utc_common tls
                  in Some \<lparr>tls_sni = first_non_empty (utc_sni tls) (cluster_authority (xc_name cluster)),
                           tls_certificate_provider = Option.bind common certificate_provider_name,
                           tls_validation_provider = Option.bind common validation_provider_name,
                           tls_alpn_protocols =
                             unwrap_or (map_option ctc_alpn_protocols common) []\<rparr>)))"

section \<open>Routes\<close>

definition convert_route_action :: "RouteAction \<Rightarrow> WeightedCluster list" where
  "convert_route_action action =
     (case ra_cluster_specifier action of
        Some (CS_Cluster name) \<Rightarrow>
          if name \<noteq> [] then [\<lparr>wc_name = name, wc_weight = 100\<rparr>] else []
      | Some (CS_WeightedClusters weighted) \<Rightarrow>
          map (\<lambda>c. \<lparr>wc_name = cw_name c, wc_weight = unwrap_or (cw_weight c) 1\<rparr>)
            (filter (\<lambda>c. cw_name c \<noteq> []) weighted)
      | None \<Rightarrow> [])"

fun convert_headers :: "HeaderMatcher list \<Rightarrow> HeaderMatch list option" where
  "convert_headers [] = Some []"
| "convert_headers (h # hs) =
     (case hmr_specifier h of
        Some (ExactMatch value) \<Rightarrow>
          map_option (\<lambda>rest. \<lparr>hm_name = hmr_name h, hm_value = value\<rparr> # rest) (convert_headers hs)
      | Some (SafeRegexMatch _) \<Rightarrow> None
      | None \<Rightarrow> convert_headers hs)"

definition convert_path :: "PathSpecifier option \<Rightarrow> PathMatch option" where
  "convert_path p =
     (case p of
        Some (PS_Prefix pfx) \<Rightarrow> Some (Prefix pfx)
      | Some (PS_Path path) \<Rightarrow> Some (Exact path)
      | Some (PS_SafeRegex _) \<Rightarrow> None
      | None \<Rightarrow> Some (Prefix ''/''))"

definition convert_route_match :: "xds_RouteMatch \<Rightarrow> RouteMatch option" where
  "convert_route_match m =
     Option.bind (convert_path (xrm_path_specifier m)) (\<lambda>path.
     Option.bind (convert_headers (xrm_headers m)) (\<lambda>headers.
       Some \<lparr>rm_path = path, rm_headers = headers\<rparr>))"

definition convert_route :: "xds_Route \<Rightarrow> Route option" where
  "convert_route r =
     (case xr_action r of
        None \<Rightarrow> None
      | Some action \<Rightarrow>
          (let weighted = (case action of
                 ActionRoute a \<Rightarrow> convert_route_action a
               | NonForwardingAction \<Rightarrow> [])
           in if weighted = [] then None
              else
                (case (case xr_match r of
                         Some m \<Rightarrow> map_option (\<lambda>x. [x]) (convert_route_match m)
                       | None \<Rightarrow> Some []) of
                   None \<Rightarrow> None
                 | Some matches \<Rightarrow>
                     Some \<lparr>rt_name = xr_name r, rt_matches = matches,
                           rt_weighted_clusters = weighted\<rparr>)))"

definition convert_virtual_hosts :: "xds_VirtualHost list \<Rightarrow> VirtualHost list" where
  "convert_virtual_hosts vhosts =
     map (\<lambda>vh. \<lparr>vh_name = xvh_name vh, vh_domains = xvh_domains vh,
                vh_routes = List.map_filter convert_route (xvh_routes vh)\<rparr>) vhosts"

section \<open>Endpoints\<close>

definition socket_address :: "Address option \<Rightarrow> (string \<times> u16) option" where
  "socket_address address =
     (case Option.bind address addr_address of
        Some (SocketAddressKind socket) \<Rightarrow>
          (case sock_port_specifier socket of
             Some (PortValue port) \<Rightarrow>
               map_option (\<lambda>p. (sock_address socket, p)) (try_into_u16 port)
           | None \<Rightarrow> None)
      | _ \<Rightarrow> None)"

datatype HealthStatus = Unknown | Healthy | Unhealthy | Draining | Timeout | Degraded

definition health_status_try_from :: "32 word \<Rightarrow> HealthStatus option" where
  "health_status_try_from status =
     (if status = 0 then Some Unknown else if status = 1 then Some Healthy
      else if status = 2 then Some Unhealthy else if status = 3 then Some Draining
      else if status = 4 then Some Timeout else if status = 5 then Some Degraded else None)"

definition endpoint_is_healthy :: "32 word \<Rightarrow> bool" where
  "endpoint_is_healthy status =
     (unwrap_or (health_status_try_from status) Unknown \<notin> {Unhealthy, Draining, Timeout})"

definition convert_lb_endpoint :: "LbEndpoint \<Rightarrow> Endpoint option" where
  "convert_lb_endpoint lb =
     (case lbe_host_identifier lb of
        Some (HI_Endpoint endpoint) \<Rightarrow>
          map_option (\<lambda>(address, port).
             \<lparr>ep_address = address, ep_port = port,
              ep_healthy = endpoint_is_healthy (lbe_health_status lb), ep_node_name = None\<rparr>)
            (socket_address (xe_address endpoint))
      | _ \<Rightarrow> None)"

definition endpoint_key :: "Endpoint \<Rightarrow> string \<times> u16" where
  "endpoint_key e = (ep_address e, ep_port e)"

definition endpoints_from_assignment :: "ClusterLoadAssignment \<Rightarrow> Endpoint list" where
  "endpoints_from_assignment assignment =
     sort_key endpoint_key
       (concat (map (\<lambda>locality. List.map_filter convert_lb_endpoint (loc_lb_endpoints locality))
          (cla_endpoints assignment)))"

section \<open>Listeners\<close>

record ListenerSnapshot =
  ls_listener :: Listener
  ls_route_names :: "string list"
  ls_inline_virtual_hosts :: "VirtualHost list"

definition listener_port :: "xds_Listener \<Rightarrow> u16 option" where
  "listener_port listener =
     (case socket_address (xl_address listener) of
        Some (_, port) \<Rightarrow> Some port
      | None \<Rightarrow>
          (case rsplit_once (CHR '':'') (xl_name listener) of
             None \<Rightarrow> None
           | Some (_, port) \<Rightarrow> parse_u16 port))"

definition decode_hcm :: "decoders \<Rightarrow> Any \<Rightarrow> (HttpConnectionManager, XdsError) result" where
  "decode_hcm D any = decode_resource (dec_hcm D) HCM_TYPE any"

definition is_http_connection_manager :: "string \<Rightarrow> Any \<Rightarrow> bool" where
  "is_http_connection_manager name any =
     (str_contains name ''http_connection_manager'' \<or>
      ends_with (any_type_url any)
        ''extensions.filters.network.http_connection_manager.v1.HttpConnectionManager'')"

text \<open>The \<open>Any\<close> messages that are decoded, in the order of the two loops.\<close>

definition hcm_candidates :: "xds_Listener \<Rightarrow> Any list" where
  "hcm_candidates listener =
     (case Option.bind (xl_api_listener listener) al_api_listener of None \<Rightarrow> [] | Some any \<Rightarrow> [any]) @
     concat (map (\<lambda>chain. List.map_filter (\<lambda>filter.
        (case flt_config_type filter of
           Some (TypedConfig any) \<Rightarrow>
             if is_http_connection_manager (flt_name filter) any then Some any else None
         | None \<Rightarrow> None)) (fch_filters chain)) (xl_filter_chains listener))"

fun decode_all ::
  "decoders \<Rightarrow> Any list \<Rightarrow> (HttpConnectionManager list, XdsError) result"
where
  "decode_all D [] = Ok []"
| "decode_all D (any # rest) =
     and_then (decode_hcm D any) (\<lambda>hcm.
     and_then (decode_all D rest) (\<lambda>managers. Ok (hcm # managers)))"

definition http_connection_managers ::
  "decoders \<Rightarrow> xds_Listener \<Rightarrow> (HttpConnectionManager list, XdsError) result"
where
  "http_connection_managers D listener = decode_all D (hcm_candidates listener)"

definition hcm_route_names :: "HttpConnectionManager \<Rightarrow> string list" where
  "hcm_route_names hcm =
     (case hcm_route_specifier hcm of
        Some (Rds name) \<Rightarrow> if name \<noteq> [] then [name] else []
      | _ \<Rightarrow> [])"

definition hcm_inline_hosts :: "HttpConnectionManager \<Rightarrow> VirtualHost list" where
  "hcm_inline_hosts hcm =
     (case hcm_route_specifier hcm of
        Some (RouteConfig cfg) \<Rightarrow> convert_virtual_hosts (rcfg_virtual_hosts cfg)
      | _ \<Rightarrow> [])"

definition listener_snapshot :: "decoders \<Rightarrow> xds_Listener \<Rightarrow> (ListenerSnapshot, XdsError) result" where
  "listener_snapshot D listener =
     (let port = unwrap_or (listener_port listener) 80
      in and_then (http_connection_managers D listener) (\<lambda>managers.
           Ok \<lparr>ls_listener =
                 \<lparr>l_name = xl_name listener, l_bind = SocketV4 0 port,
                  l_protocol = (if port = 443 then Https else Http),
                  l_virtual_hosts = [], l_tls_secret = None\<rparr>,
               ls_route_names = sorted_unique (concat (map hcm_route_names managers)),
               ls_inline_virtual_hosts = concat (map hcm_inline_hosts managers)\<rparr>))"

lemmas [xds_defs] = decode_resource_def sorted_unique_def instance_name_def
  certificate_provider_name_def validation_provider_name_def cluster_authority_def
  first_non_empty_def upstream_tls_from_cluster_def convert_route_action_def convert_path_def
  convert_route_match_def convert_route_def convert_virtual_hosts_def socket_address_def
  health_status_try_from_def endpoint_is_healthy_def convert_lb_endpoint_def endpoint_key_def
  endpoints_from_assignment_def listener_port_def decode_hcm_def is_http_connection_manager_def
  hcm_candidates_def http_connection_managers_def hcm_route_names_def hcm_inline_hosts_def
  listener_snapshot_def

section \<open>Sorted name lists\<close>

lemma set_sorted_unique [simp]: "set (sorted_unique xs) = set xs"
  by (simp add: sorted_unique_def set_bset_of_list)

lemma sorted_sorted_unique: "sorted_wrt (<) (sorted_unique xs)"
  by (simp add: sorted_unique_def bset_of_list_invar)

lemma sorted_unique_eq: "sorted_unique xs = sorted_list_of_set (set xs)"
  using sorted_sorted_unique [of xs] set_sorted_unique [of xs]
  by (metis strict_sorted_equal strict_sorted_list_of_set set_sorted_list_of_set List.finite_set)

lemma sorted_unique_Nil_iff [simp]: "sorted_unique xs = [] \<longleftrightarrow> xs = []"
  by (metis set_empty set_sorted_unique)

lemma sorted_unique_id: "sorted_wrt (<) xs \<Longrightarrow> sorted_unique xs = xs"
  using sorted_sorted_unique [of xs] by (intro strict_sorted_equal) auto

section \<open>Converted routes\<close>

definition route_wf :: "Route \<Rightarrow> bool" where
  "route_wf r = (rt_weighted_clusters r \<noteq> [] \<and> (\<forall>c\<in>set (rt_weighted_clusters r). wc_name c \<noteq> []))"

definition vhost_wf :: "VirtualHost \<Rightarrow> bool" where
  "vhost_wf vh = list_all route_wf (vh_routes vh)"

lemma convert_route_action_names: "c \<in> set (convert_route_action a) \<Longrightarrow> wc_name c \<noteq> []"
proof (cases "ra_cluster_specifier a")
  case (Some spec)
  then show "c \<in> set (convert_route_action a) \<Longrightarrow> wc_name c \<noteq> []"
    by (cases spec) (auto simp: convert_route_action_def split: if_splits)
qed (simp add: convert_route_action_def)

lemma convert_route_wf: "convert_route r = Some r' \<Longrightarrow> route_wf r'"
  by (auto simp: convert_route_def route_wf_def Let_def convert_route_action_names
      split: option.splits RouteActionKind.splits if_splits)

lemma convert_virtual_hosts_wf: "list_all vhost_wf (convert_virtual_hosts vhosts)"
  by (auto simp: convert_virtual_hosts_def vhost_wf_def list_all_iff List.map_filter_def
      dest: convert_route_wf)

text \<open>
  What an xDS route match means, over an arbitrary regular-expression engine.  A header
  matcher without a specifier constrains nothing, as in the conversion.
\<close>

definition xds_path_matches :: "(string \<Rightarrow> string \<Rightarrow> bool) \<Rightarrow> PathSpecifier option \<Rightarrow> string \<Rightarrow> bool" where
  "xds_path_matches regex p path =
     (case p of
        Some (PS_Prefix pfx) \<Rightarrow> starts_with path pfx
      | Some (PS_Path exact) \<Rightarrow> path = exact
      | Some (PS_SafeRegex re) \<Rightarrow> regex re path
      | None \<Rightarrow> starts_with path ''/'')"

definition xds_header_matches ::
  "(string \<Rightarrow> string \<Rightarrow> bool) \<Rightarrow> HeaderMatcher \<Rightarrow> (string \<times> string) list \<Rightarrow> bool"
where
  "xds_header_matches regex h headers =
     (case hmr_specifier h of
        Some (ExactMatch v) \<Rightarrow>
          list_ex (\<lambda>(n, value). eq_ignore_ascii_case n (hmr_name h) \<and> value = v) headers
      | Some (SafeRegexMatch re) \<Rightarrow>
          list_ex (\<lambda>(n, value). eq_ignore_ascii_case n (hmr_name h) \<and> regex re value) headers
      | None \<Rightarrow> True)"

definition xds_matches :: "(string \<Rightarrow> string \<Rightarrow> bool) \<Rightarrow> xds_RouteMatch \<Rightarrow> MatchInput \<Rightarrow> bool" where
  "xds_matches regex m input =
     (xds_path_matches regex (xrm_path_specifier m) (in_path input) \<and>
      list_all (\<lambda>h. xds_header_matches regex h (in_headers input)) (xrm_headers m))"

definition uses_regex :: "xds_RouteMatch \<Rightarrow> bool" where
  "uses_regex m =
     ((case xrm_path_specifier m of Some (PS_SafeRegex _) \<Rightarrow> True | _ \<Rightarrow> False) \<or>
      list_ex (\<lambda>h. case hmr_specifier h of Some (SafeRegexMatch _) \<Rightarrow> True | _ \<Rightarrow> False)
        (xrm_headers m))"

lemma convert_path_exact:
  "convert_path p = Some q \<Longrightarrow> path_matches q path = xds_path_matches regex p path"
  by (auto simp: convert_path_def xds_path_matches_def split: option.splits PathSpecifier.splits)

lemma convert_headers_exact:
  "convert_headers hs = Some qs \<Longrightarrow>
     list_all (\<lambda>q. header_matches q input) qs =
     list_all (\<lambda>h. xds_header_matches regex h (in_headers input)) hs"
proof (induction hs arbitrary: qs)
  case (Cons h hs)
  show ?case
  proof (cases "hmr_specifier h")
    case None
    then show ?thesis using Cons by (simp add: xds_header_matches_def)
  next
    case (Some spec)
    then show ?thesis
      using Cons by (cases spec) (auto simp: xds_header_matches_def header_matches_def)
  qed
qed simp

lemma convert_headers_None:
  "convert_headers hs = None \<longleftrightarrow>
     list_ex (\<lambda>h. case hmr_specifier h of Some (SafeRegexMatch _) \<Rightarrow> True | _ \<Rightarrow> False) hs"
  by (induction hs) (auto split: option.splits HeaderMatchSpecifier.splits)

lemma convert_route_match_None: "convert_route_match m = None \<longleftrightarrow> uses_regex m"
  by (auto simp: convert_route_match_def uses_regex_def convert_headers_None convert_path_def
      bind_eq_None_conv split: option.splits PathSpecifier.splits)

lemma convert_route_match_Some:
  "convert_route_match m = Some rm \<Longrightarrow> route_match_matches rm input = xds_matches regex m input"
  by (auto simp: convert_route_match_def route_match_matches_def xds_matches_def bind_eq_Some_conv
      dest: convert_path_exact [of _ _ "in_path input" regex]
        convert_headers_exact [of _ _ input regex])

section \<open>Converted endpoints and listeners\<close>

lemma endpoint_is_healthy_iff: "endpoint_is_healthy status \<longleftrightarrow> status \<notin> {2, 3, 4}"
  by (simp add: endpoint_is_healthy_def health_status_try_from_def)

text \<open>What the snapshot of a listener always looks like, whatever the message holds.\<close>

definition snapshot_wf :: "ListenerSnapshot \<Rightarrow> bool" where
  "snapshot_wf snap =
     (let l = ls_listener snap
      in (\<exists>port. l_bind l = SocketV4 0 port \<and> l_protocol l = (if port = 443 then Https else Http)) \<and>
         l_virtual_hosts l = [] \<and> l_tls_secret l = None \<and>
         sorted_wrt (<) (ls_route_names snap) \<and> [] \<notin> set (ls_route_names snap) \<and>
         list_all vhost_wf (ls_inline_virtual_hosts snap))"

lemma hcm_inline_hosts_wf: "list_all vhost_wf (hcm_inline_hosts h)"
  by (auto simp: hcm_inline_hosts_def convert_virtual_hosts_wf
      split: option.splits RouteSpecifier.splits)

lemma hcm_route_names_nonempty: "[] \<notin> set (hcm_route_names h)"
  by (auto simp: hcm_route_names_def split: option.splits RouteSpecifier.splits)

lemma listener_snapshot_Ok:
  assumes "listener_snapshot D listener = Ok snap"
  shows "snapshot_wf snap" and "l_name (ls_listener snap) = xl_name listener"
proof -
  from assms obtain managers where snap:
    "snap = \<lparr>ls_listener =
         \<lparr>l_name = xl_name listener, l_bind = SocketV4 0 (unwrap_or (listener_port listener) 80),
          l_protocol = (if unwrap_or (listener_port listener) 80 = 443 then Https else Http),
          l_virtual_hosts = [], l_tls_secret = None\<rparr>,
       ls_route_names = sorted_unique (concat (map hcm_route_names managers)),
       ls_inline_virtual_hosts = concat (map hcm_inline_hosts managers)\<rparr>"
    by (auto simp: listener_snapshot_def Let_def)
  show "snapshot_wf snap"
    unfolding snap snapshot_wf_def
    using hcm_inline_hosts_wf hcm_route_names_nonempty
    by (auto simp: sorted_sorted_unique list_all_iff)
  show "l_name (ls_listener snap) = xl_name listener"
    by (simp add: snap)
qed

lemma decode_all_Err: "decode_all D anys = Err e \<Longrightarrow> \<exists>source. e = Decode HCM_TYPE source"
proof (induction anys)
  case (Cons any anys)
  then show ?case
    by (cases "dec_hcm D (any_value any)")
      (auto simp: decode_hcm_def decode_resource_def and_then_eq_Err)
qed simp

lemma listener_snapshot_Err:
  "listener_snapshot D listener = Err e \<Longrightarrow> \<exists>source. e = Decode HCM_TYPE source"
  by (auto simp: listener_snapshot_def http_connection_managers_def and_then_eq_Err Let_def
      dest: decode_all_Err)

section \<open>What the messages say\<close>

text \<open>An address with a host and a port that fits 16 bits.\<close>

definition has_socket :: "Address option \<Rightarrow> string \<Rightarrow> u16 \<Rightarrow> bool" where
  "has_socket address host port =
     (\<exists>addr socket p. address = Some addr \<and> addr_address addr = Some (SocketAddressKind socket) \<and>
        sock_port_specifier socket = Some (PortValue p) \<and> sock_address socket = host \<and> unat p = unat port)"

lemma u16_of_u32: "unat (w :: u32) < 2 ^ 16 \<and> (p :: u16) = ucast w \<longleftrightarrow> unat w = unat p"
proof -
  have "unat (ucast w :: u16) = unat w mod 2 ^ 16" by (simp add: unsigned_ucast_eq take_bit_eq_mod)
  moreover have "unat p < 2 ^ 16" using unsigned_less [of p, where ?'a = nat] by simp
  ultimately show ?thesis by (auto simp: word_unat_eq_iff)
qed

lemma socket_address_iff: "socket_address address = Some (host, port) \<longleftrightarrow> has_socket address host port"
proof -
  have "socket_address address = Some (host, port) \<longleftrightarrow>
      (\<exists>addr socket p. address = Some addr \<and> addr_address addr = Some (SocketAddressKind socket) \<and>
        sock_port_specifier socket = Some (PortValue p) \<and> sock_address socket = host \<and>
        unat p < 2 ^ 16 \<and> port = ucast p)"
    by (auto simp: socket_address_def bind_eq_Some_conv try_into_u16_Some
        split: option.splits AddressKind.splits PortSpecifier.splits)
  then show ?thesis unfolding has_socket_def u16_of_u32 .
qed

text \<open>
  The endpoint an assignment announces: address and port of the socket, healthy unless the status
  is \<open>UNHEALTHY\<close> (2), \<open>DRAINING\<close> (3) or \<open>TIMEOUT\<close> (4).
\<close>

definition announces :: "LbEndpoint \<Rightarrow> Endpoint \<Rightarrow> bool" where
  "announces lb e =
     ((\<exists>x. lbe_host_identifier lb = Some (HI_Endpoint x) \<and> has_socket (xe_address x) (ep_address e) (ep_port e)) \<and>
      (ep_healthy e \<longleftrightarrow> lbe_health_status lb \<notin> {2, 3, 4}) \<and> ep_node_name e = None)"

lemma convert_lb_endpoint_iff: "convert_lb_endpoint lb = Some e \<longleftrightarrow> announces lb e"
proof -
  have "convert_lb_endpoint lb = Some e \<longleftrightarrow>
      (\<exists>x. lbe_host_identifier lb = Some (HI_Endpoint x) \<and>
         socket_address (xe_address x) = Some (ep_address e, ep_port e)) \<and>
      ep_healthy e = endpoint_is_healthy (lbe_health_status lb) \<and> ep_node_name e = None"
    by (cases e) (auto simp: convert_lb_endpoint_def split: option.splits HostIdentifier.splits)
  then show ?thesis by (simp add: announces_def socket_address_iff endpoint_is_healthy_iff)
qed

lemma endpoint_key_order: "endpoint_key a \<le> endpoint_key b \<longleftrightarrow>
    ep_address a < ep_address b \<or> ep_address a = ep_address b \<and> ep_port a \<le> ep_port b"
  by (auto simp: endpoint_key_def less_eq_prod_def)

text \<open>The HTTP connection managers of a listener: its API listener, or a filter of its chains.\<close>

definition carries_manager :: "xds_Listener \<Rightarrow> Any \<Rightarrow> bool" where
  "carries_manager listener any =
     ((\<exists>api. xl_api_listener listener = Some api \<and> al_api_listener api = Some any) \<or>
      (\<exists>chain\<in>set (xl_filter_chains listener). \<exists>f\<in>set (fch_filters chain).
         flt_config_type f = Some (TypedConfig any) \<and> is_http_connection_manager (flt_name f) any))"

lemma in_set_map_filter: "y \<in> set (List.map_filter f xs) \<longleftrightarrow> (\<exists>x\<in>set xs. f x = Some y)"
  by (induction xs) (auto simp: map_filter_simps split: option.split)

lemma set_hcm_candidates: "any \<in> set (hcm_candidates listener) \<longleftrightarrow> carries_manager listener any"
proof -
  have filter: "(case flt_config_type f of
           Some (TypedConfig any) \<Rightarrow> if is_http_connection_manager (flt_name f) any then Some any else None
         | None \<Rightarrow> None) = Some any \<longleftrightarrow>
      flt_config_type f = Some (TypedConfig any) \<and> is_http_connection_manager (flt_name f) any" for f
    by (auto split: option.split ConfigType.split)
  have "any \<in> set (case x of None \<Rightarrow> [] | Some a \<Rightarrow> [a]) \<longleftrightarrow> x = Some any" for x
    by (auto split: option.split)
  then show ?thesis
    by (simp add: hcm_candidates_def carries_manager_def in_set_map_filter filter bind_eq_Some_conv)
qed

definition has_manager :: "decoders \<Rightarrow> xds_Listener \<Rightarrow> HttpConnectionManager \<Rightarrow> bool" where
  "has_manager D listener hcm = (\<exists>any. carries_manager listener any \<and> dec_hcm D (any_value any) = Ok hcm)"

lemma decode_all_Ok: "decode_all D anys = Ok hcms \<longleftrightarrow> map (decode_hcm D) anys = map Ok hcms"
proof (induction anys arbitrary: hcms)
  case (Cons any anys)
  then show ?case by (cases "decode_hcm D any"; cases "decode_all D anys"; cases hcms) auto
qed auto

lemma decode_all_failed:
  "decode_all D anys = Err e \<Longrightarrow> \<exists>any\<in>set anys. \<exists>source. dec_hcm D (any_value any) = Err source \<and> e = Decode HCM_TYPE source"
proof (induction anys)
  case (Cons any anys)
  then show ?case
    by (cases "dec_hcm D (any_value any)") (auto simp: decode_hcm_def decode_resource_def and_then_eq_Err)
qed simp

lemma managers_of_listener:
  assumes "http_connection_managers D listener = Ok hcms"
  shows "hcm \<in> set hcms \<longleftrightarrow> has_manager D listener hcm"
proof -
  have m: "map (decode_hcm D) (hcm_candidates listener) = map Ok hcms"
    using assms by (simp add: http_connection_managers_def decode_all_Ok)
  have "(Ok hcm :: (HttpConnectionManager, XdsError) result) \<in> set (map Ok hcms) \<longleftrightarrow>
      (\<exists>any\<in>set (hcm_candidates listener). decode_hcm D any = Ok hcm)"
    unfolding m [symmetric] set_map image_iff by metis
  then have "hcm \<in> set hcms \<longleftrightarrow> (\<exists>any\<in>set (hcm_candidates listener). decode_hcm D any = Ok hcm)"
    by auto
  moreover have "decode_hcm D any = Ok hcm \<longleftrightarrow> dec_hcm D (any_value any) = Ok hcm" for any
    by (cases "dec_hcm D (any_value any)") (auto simp: decode_hcm_def decode_resource_def)
  ultimately show ?thesis by (auto simp: has_manager_def set_hcm_candidates)
qed

text \<open>The port: of the socket address, else after the last colon of the name, else 80.\<close>

definition serves_on :: "xds_Listener \<Rightarrow> u16 \<Rightarrow> bool" where
  "serves_on listener port =
     ((\<exists>host. has_socket (xl_address listener) host port) \<or>
      (\<nexists>host p. has_socket (xl_address listener) host p) \<and>
      ((\<exists>pre digits. xl_name listener = pre @ '':'' @ digits \<and> CHR '':'' \<notin> set digits \<and> parse_u16 digits = Some port) \<or>
       (\<nexists>pre digits p. xl_name listener = pre @ '':'' @ digits \<and> CHR '':'' \<notin> set digits \<and> parse_u16 digits = Some p) \<and>
       port = 80))"

lemma listener_port_serves: "serves_on listener (unwrap_or (listener_port listener) 80)"
proof (cases "socket_address (xl_address listener)")
  case (Some hp)
  obtain host port where hp: "hp = (host, port)" by fastforce
  then show ?thesis
    using Some socket_address_iff [of "xl_address listener" host port]
    by (auto simp: listener_port_def serves_on_def)
next
  case None
  then have none: "\<nexists>host p. has_socket (xl_address listener) host p" by (simp flip: socket_address_iff)
  have name: "xl_name listener = pre @ '':'' @ digits \<and> CHR '':'' \<notin> set digits \<longleftrightarrow>
      rsplit_once (CHR '':'') (xl_name listener) = Some (pre, digits)" for pre digits
    by (simp add: rsplit_once_Some)
  show ?thesis
    unfolding serves_on_def conj_assoc [symmetric] name using none
    by (cases "rsplit_once (CHR '':'') (xl_name listener)"; cases "listener_port listener")
      (auto simp: listener_port_def None)
qed

section \<open>Properties\<close>

text \<open>
  C21: conversion of a route match is exact or refused: it is refused exactly when the match uses
  a regular expression, and otherwise the converted match accepts the same requests as the xDS
  one, whatever the regular-expression engine would do.  In particular no regex is widened.
\<close>

theorem convert_route_match_exact:
  "(case convert_route_match m of
      None \<Rightarrow> uses_regex m
    | Some rm \<Rightarrow> \<not> uses_regex m \<and> route_match_matches rm input = xds_matches regex m input)"
  using convert_route_match_None [of m] convert_route_match_Some [of m _ input regex]
  by (cases "convert_route_match m") auto

text \<open>
  C32: the endpoints of a load assignment are exactly those it announces, in any of its
  localities: an endpoint with a socket address whose port fits 16 bits, healthy unless its
  status is unhealthy, draining or timeout.  They are ordered by address, then port, and those
  with equal address and port keep the order of the message.
\<close>

theorem endpoints_from_assignment_sorted:
  "sorted_wrt (\<lambda>x y. ep_address x < ep_address y \<or> ep_address x = ep_address y \<and> ep_port x \<le> ep_port y)
     (endpoints_from_assignment a) \<and>
   (e \<in> set (endpoints_from_assignment a) \<longleftrightarrow>
      (\<exists>locality\<in>set (cla_endpoints a). \<exists>lb\<in>set (loc_lb_endpoints locality). announces lb e)) \<and>
   filter (\<lambda>e. ep_address e = host \<and> ep_port e = port) (endpoints_from_assignment a) =
     filter (\<lambda>e. ep_address e = host \<and> ep_port e = port)
       (List.map_filter convert_lb_endpoint (concat (map loc_lb_endpoints (cla_endpoints a))))"
proof -
  have flat: "concat (map (\<lambda>l. List.map_filter convert_lb_endpoint (loc_lb_endpoints l)) ls) =
      List.map_filter convert_lb_endpoint (concat (map loc_lb_endpoints ls))" for ls
    by (induction ls) (simp_all add: List.map_filter_def)
  have "sorted (map endpoint_key (endpoints_from_assignment a))"
    by (simp add: endpoints_from_assignment_def)
  then have "sorted_wrt (\<lambda>x y. endpoint_key x \<le> endpoint_key y) (endpoints_from_assignment a)"
    by (simp add: sorted_wrt_map)
  moreover have "e \<in> set (endpoints_from_assignment a) \<longleftrightarrow>
      (\<exists>locality\<in>set (cla_endpoints a). \<exists>lb\<in>set (loc_lb_endpoints locality). convert_lb_endpoint lb = Some e)"
    by (auto simp: endpoints_from_assignment_def in_set_map_filter)
  moreover have "(ep_address e = host \<and> ep_port e = port) \<longleftrightarrow> endpoint_key e = (host, port)" for e
    by (simp add: endpoint_key_def)
  ultimately show ?thesis
    unfolding convert_lb_endpoint_iff endpoint_key_order
    by (simp add: endpoints_from_assignment_def flat sort_key_stable)
qed

text \<open>
  C33: the snapshot of a listener holds exactly what the message says: its name; a bind address
  on all IPv4 interfaces with the port of its socket address, else the one at the end of its
  name, else 80, HTTPS exactly for 443; as route names to subscribe to, sorted and unique, the
  non-empty RDS names of its HTTP connection managers; as inline virtual hosts, all with named
  destinations, the converted ones of the route configurations in them.  The conversion fails
  only with the error of a connection manager that does not decode.
\<close>

theorem listener_snapshot_shape:
  "(case listener_snapshot D listener of
      Ok snap \<Rightarrow>
        (\<exists>port. serves_on listener port \<and>
           ls_listener snap = \<lparr>l_name = xl_name listener, l_bind = SocketV4 0 port,
             l_protocol = (if port = 443 then Https else Http), l_virtual_hosts = [], l_tls_secret = None\<rparr>) \<and>
        sorted_wrt (<) (ls_route_names snap) \<and>
        set (ls_route_names snap) =
          {n. n \<noteq> [] \<and> (\<exists>hcm. has_manager D listener hcm \<and> hcm_route_specifier hcm = Some (Rds n))} \<and>
        set (ls_inline_virtual_hosts snap) =
          {vh. \<exists>hcm rc. has_manager D listener hcm \<and> hcm_route_specifier hcm = Some (RouteConfig rc) \<and>
             vh \<in> set (convert_virtual_hosts (rcfg_virtual_hosts rc))} \<and>
        list_all vhost_wf (ls_inline_virtual_hosts snap)
    | Err e \<Rightarrow> (\<exists>any source. carries_manager listener any \<and> dec_hcm D (any_value any) = Err source \<and>
        e = Decode HCM_TYPE source))"
proof (cases "http_connection_managers D listener")
  case (Err e)
  then show ?thesis
    using decode_all_failed [of D "hcm_candidates listener" e]
    by (auto simp: listener_snapshot_def Let_def http_connection_managers_def set_hcm_candidates)
next
  case (Ok hcms)
  note m = managers_of_listener [OF Ok]
  have names: "n \<in> set (hcm_route_names h) \<longleftrightarrow> n \<noteq> [] \<and> hcm_route_specifier h = Some (Rds n)" for n h
    by (auto simp: hcm_route_names_def split: option.splits RouteSpecifier.splits)
  have inline: "vh \<in> set (hcm_inline_hosts h) \<longleftrightarrow>
      (\<exists>rc. hcm_route_specifier h = Some (RouteConfig rc) \<and> vh \<in> set (convert_virtual_hosts (rcfg_virtual_hosts rc)))"
    for vh h
    by (cases "hcm_route_specifier h") (auto simp: hcm_inline_hosts_def split: RouteSpecifier.splits)
  have "\<exists>snap. listener_snapshot D listener = Ok snap" by (simp add: listener_snapshot_def Ok Let_def)
  then obtain snap where snap: "listener_snapshot D listener = Ok snap" ..
  then have "ls_route_names snap = sorted_unique (concat (map hcm_route_names hcms))"
    "ls_inline_virtual_hosts snap = concat (map hcm_inline_hosts hcms)"
    "ls_listener snap = \<lparr>l_name = xl_name listener, l_bind = SocketV4 0 (unwrap_or (listener_port listener) 80),
       l_protocol = (if unwrap_or (listener_port listener) 80 = 443 then Https else Http),
       l_virtual_hosts = [], l_tls_secret = None\<rparr>"
    by (auto simp: listener_snapshot_def Ok Let_def)
  then show ?thesis
    using listener_port_serves [of listener] listener_snapshot_Ok(1) [OF snap]
    by (auto simp: snap sorted_sorted_unique m names inline snapshot_wf_def Let_def)
qed

text \<open>
  When a listener has no usable socket address, its port is read from the end of its name,
  and reading it inverts printing: a name ending in a colon and a port gives that port.
\<close>

lemma listener_port_from_name:
  assumes "socket_address (xl_address listener) = None"
    and "xl_name listener = host @ '':'' @ show_u16 port"
  shows "listener_port listener = Some port"
proof -
  have "CHR '':'' \<notin> set (show_u16 port)"
    by (simp add: show_u16_def not_digit_not_in_show_nat digit_val_def)
  then have "rsplit_once (CHR '':'') (xl_name listener) = Some (host, show_u16 port)"
    using assms(2) by (simp add: rsplit_once_Some)
  then show ?thesis
    using assms(1) by (simp add: listener_port_def parse_u16_show_u16)
qed

lemma listener_port_from_name_example:
  "listener_port \<lparr>xl_name = ''dxgate.app:80'', xl_address = None, xl_filter_chains = [],
     xl_api_listener = None\<rparr> = Some 80"
proof -
  have p: "show_u16 80 = ''80''"
    by code_simp
  show ?thesis
    by (rule listener_port_from_name [where host = "''dxgate.app''"])
      (simp_all add: p socket_address_def)
qed

end
