(* ===== verification/Ads_State.thy ===== *)
theory Ads_State
  imports Xds_Convert
begin

text \<open>
  \<open>AdsState\<close> of \<open>crates/xds/src/client.rs\<close>: what the client has received on one ADS stream, and
  the runtime configuration it builds from it.  Resources are kept in ordered maps by name.
  The invariant \<open>ads_inv\<close> says what every reachable state looks like (maps in order, entries
  stored under their own name, routes with named destinations, endpoints and subscriptions
  sorted); every operation keeps it, also when it stops at a resource that does not decode.
  From it follows the main result: the only conflict a configuration built from ADS can have is
  a reference to a cluster that has not arrived yet.
\<close>

section \<open>State and operations\<close>

record ClusterSnapshot =
  cs_name :: string
  cs_eds_service_name :: string
  cs_tls :: "UpstreamTls option"

record AdsState =
  as_subscriptions :: "(string, string list) btree_map"
  as_listeners :: "(string, ListenerSnapshot) btree_map"
  as_routes :: "(string, VirtualHost list) btree_map"
  as_clusters :: "(string, ClusterSnapshot) btree_map"
  as_endpoints :: "(string, Endpoint list) btree_map"

record DiscoveryUpdates =
  du_route_names :: "string list"
  du_cluster_names :: "string list"
  du_eds_names :: "string list"

definition ads_default :: AdsState where
  "ads_default = \<lparr>as_subscriptions = [], as_listeners = [], as_routes = [], as_clusters = [],
     as_endpoints = []\<rparr>"

definition updates_default :: DiscoveryUpdates where
  "updates_default = \<lparr>du_route_names = [], du_cluster_names = [], du_eds_names = []\<rparr>"

definition prune_requested :: "(string, 'v) btree_map \<Rightarrow> string list \<Rightarrow> (string, 'v) btree_map" where
  "prune_requested resources requested =
     (if requested = [] then [] else fold bt_remove requested resources)"

definition subscription :: "AdsState \<Rightarrow> string \<Rightarrow> string list" where
  "subscription s type_url = unwrap_or (bt_get (as_subscriptions s) type_url) []"

definition set_subscription :: "AdsState \<Rightarrow> string \<Rightarrow> string list \<Rightarrow> bool \<times> AdsState" where
  "set_subscription s type_url names =
     (let names = sorted_unique names
      in if bt_get (as_subscriptions s) type_url = Some names then (False, s)
         else (True, s\<lparr>as_subscriptions := bt_insert type_url names (as_subscriptions s)\<rparr>))"

definition route_names :: "AdsState \<Rightarrow> string list" where
  "route_names s = sorted_unique (concat (map ls_route_names (bt_values (as_listeners s))))"

definition vhost_clusters :: "VirtualHost list \<Rightarrow> string list" where
  "vhost_clusters vhosts =
     concat (map (\<lambda>vh. concat (map (\<lambda>r. map wc_name (rt_weighted_clusters r)) (vh_routes vh))) vhosts)"

definition cluster_names :: "AdsState \<Rightarrow> string list" where
  "cluster_names s = sorted_unique (concat (map vhost_clusters (bt_values (as_routes s))))"

definition eds_names :: "AdsState \<Rightarrow> string list" where
  "eds_names s = sorted_unique (map cs_eds_service_name (bt_values (as_clusters s)))"

definition insert_listener ::
  "decoders \<Rightarrow> (string, ListenerSnapshot) btree_map \<Rightarrow> Any \<Rightarrow>
   ((string, ListenerSnapshot) btree_map, XdsError) result"
where
  "insert_listener D m resource =
     and_then (decode_resource (dec_listener D) LISTENER_TYPE resource) (\<lambda>listener.
     and_then (listener_snapshot D listener) (\<lambda>snapshot.
       Ok (bt_insert (l_name (ls_listener snapshot)) snapshot m)))"

definition apply_listeners ::
  "decoders \<Rightarrow> AdsState \<Rightarrow> Any list \<Rightarrow> AdsState \<times> (DiscoveryUpdates, XdsError) result"
where
  "apply_listeners D s resources =
     (let requested = subscription s LISTENER_TYPE;
          (m, r) = try_for_each (insert_listener D) (prune_requested (as_listeners s) requested) resources;
          s' = s\<lparr>as_listeners := m\<rparr>
      in (s', and_then r (\<lambda>_. Ok (updates_default\<lparr>du_route_names := route_names s'\<rparr>))))"

definition insert_route ::
  "decoders \<Rightarrow> (string, VirtualHost list) btree_map \<Rightarrow> Any \<Rightarrow>
   ((string, VirtualHost list) btree_map, XdsError) result"
where
  "insert_route D m resource =
     and_then (decode_resource (dec_route D) ROUTE_TYPE resource) (\<lambda>route.
       Ok (bt_insert (rcfg_name route) (convert_virtual_hosts (rcfg_virtual_hosts route)) m))"

definition apply_routes ::
  "decoders \<Rightarrow> AdsState \<Rightarrow> Any list \<Rightarrow> AdsState \<times> (DiscoveryUpdates, XdsError) result"
where
  "apply_routes D s resources =
     (let requested = subscription s ROUTE_TYPE;
          (m, r) = try_for_each (insert_route D) (prune_requested (as_routes s) requested) resources;
          s' = s\<lparr>as_routes := m\<rparr>
      in (s', and_then r (\<lambda>_. Ok (updates_default\<lparr>du_cluster_names := cluster_names s'\<rparr>))))"

definition eds_service_name_of :: "xds_Cluster \<Rightarrow> string" where
  "eds_service_name_of cluster =
     (case xc_eds_cluster_config cluster of
        Some eds \<Rightarrow> if eds_service_name eds \<noteq> [] then eds_service_name eds else xc_name cluster
      | None \<Rightarrow> xc_name cluster)"

definition insert_cluster :: "decoders \<Rightarrow> AdsState \<Rightarrow> Any \<Rightarrow> (AdsState, XdsError) result" where
  "insert_cluster D s resource =
     and_then (decode_resource (dec_cluster D) CLUSTER_TYPE resource) (\<lambda>cluster.
       if xc_name cluster = [] then Ok s
       else
         (let eds = eds_service_name_of cluster;
              endpoints' =
                (case xc_load_assignment cluster of
                   Some assignment \<Rightarrow>
                     bt_insert eds (endpoints_from_assignment assignment) (as_endpoints s)
                 | None \<Rightarrow> as_endpoints s)
          in Ok (s\<lparr>as_endpoints := endpoints',
                   as_clusters := bt_insert (xc_name cluster)
                     \<lparr>cs_name = xc_name cluster, cs_eds_service_name = eds,
                      cs_tls = upstream_tls_from_cluster D cluster\<rparr> (as_clusters s)\<rparr>)))"

definition apply_clusters ::
  "decoders \<Rightarrow> AdsState \<Rightarrow> Any list \<Rightarrow> AdsState \<times> (DiscoveryUpdates, XdsError) result"
where
  "apply_clusters D s resources =
     (let requested = subscription s CLUSTER_TYPE;
          (s', r) = try_for_each (insert_cluster D)
             (s\<lparr>as_clusters := prune_requested (as_clusters s) requested\<rparr>) resources
      in (s', and_then r (\<lambda>_. Ok (updates_default\<lparr>du_eds_names := eds_names s'\<rparr>))))"

definition insert_assignment ::
  "decoders \<Rightarrow> (string, Endpoint list) btree_map \<Rightarrow> Any \<Rightarrow>
   ((string, Endpoint list) btree_map, XdsError) result"
where
  "insert_assignment D m resource =
     and_then (decode_resource (dec_assignment D) ENDPOINT_TYPE resource) (\<lambda>assignment.
       if cla_cluster_name assignment = [] then Ok m
       else Ok (bt_insert (cla_cluster_name assignment) (endpoints_from_assignment assignment) m))"

definition apply_endpoints ::
  "decoders \<Rightarrow> AdsState \<Rightarrow> Any list \<Rightarrow> AdsState \<times> (DiscoveryUpdates, XdsError) result"
where
  "apply_endpoints D s resources =
     (let requested = subscription s ENDPOINT_TYPE;
          (m, r) = try_for_each (insert_assignment D)
             (prune_requested (as_endpoints s) requested) resources
      in (s\<lparr>as_endpoints := m\<rparr>, and_then r (\<lambda>_. Ok updates_default)))"

definition apply_response ::
  "decoders \<Rightarrow> AdsState \<Rightarrow> DiscoveryResponse \<Rightarrow> AdsState \<times> (DiscoveryUpdates, XdsError) result"
where
  "apply_response D s resp =
     (if dr_type_url resp = LISTENER_TYPE then apply_listeners D s (dr_resources resp)
      else if dr_type_url resp = ROUTE_TYPE then apply_routes D s (dr_resources resp)
      else if dr_type_url resp = CLUSTER_TYPE then apply_clusters D s (dr_resources resp)
      else if dr_type_url resp = ENDPOINT_TYPE then apply_endpoints D s (dr_resources resp)
      else (s, Ok updates_default))"

definition updates_subscriptions :: "DiscoveryUpdates \<Rightarrow> (string \<times> string list) list" where
  "updates_subscriptions u =
     (if du_route_names u \<noteq> [] then [(ROUTE_TYPE, du_route_names u)] else []) @
     (if du_cluster_names u \<noteq> [] then [(CLUSTER_TYPE, du_cluster_names u)] else []) @
     (if du_eds_names u \<noteq> [] then [(ENDPOINT_TYPE, du_eds_names u)] else [])"

definition snapshot_listener :: "AdsState \<Rightarrow> ListenerSnapshot \<Rightarrow> Listener" where
  "snapshot_listener s snapshot =
     (ls_listener snapshot)\<lparr>l_virtual_hosts :=
        ls_inline_virtual_hosts snapshot @
        concat (map (\<lambda>n. unwrap_or (bt_get (as_routes s) n) []) (ls_route_names snapshot))\<rparr>"

definition snapshot_cluster :: "AdsState \<Rightarrow> ClusterSnapshot \<Rightarrow> Cluster" where
  "snapshot_cluster s cluster =
     \<lparr>c_name = cs_name cluster,
      c_endpoints = unwrap_or (bt_get (as_endpoints s) (cs_eds_service_name cluster)) [],
      c_tls = cs_tls cluster\<rparr>"

definition runtime_config :: "AdsState \<Rightarrow> string \<Rightarrow> RuntimeConfig" where
  "runtime_config s version =
     \<lparr>rc_version = (if version = [] then ''ads'' else version),
      rc_listeners = map (snapshot_listener s) (bt_values (as_listeners s)),
      rc_clusters = map (snapshot_cluster s) (bt_values (as_clusters s)),
      rc_secrets = []\<rparr>"

section \<open>The invariant\<close>

definition map_all :: "('k::linorder \<Rightarrow> 'v \<Rightarrow> bool) \<Rightarrow> ('k, 'v) btree_map \<Rightarrow> bool" where
  "map_all P m = (bt_invar m \<and> (\<forall>k v. bt_get m k = Some v \<longrightarrow> P k v))"

definition subscriptions_ok :: "(string, string list) btree_map \<Rightarrow> bool" where
  "subscriptions_ok = map_all (\<lambda>k names. sorted_wrt (<) names)"

definition listeners_ok :: "(string, ListenerSnapshot) btree_map \<Rightarrow> bool" where
  "listeners_ok = map_all (\<lambda>k snap. snapshot_wf snap \<and> l_name (ls_listener snap) = k)"

definition routes_ok :: "(string, VirtualHost list) btree_map \<Rightarrow> bool" where
  "routes_ok = map_all (\<lambda>k vhosts. list_all vhost_wf vhosts)"

definition clusters_ok :: "(string, ClusterSnapshot) btree_map \<Rightarrow> bool" where
  "clusters_ok = map_all (\<lambda>k c. cs_name c = k \<and> k \<noteq> [])"

definition endpoints_ok :: "(string, Endpoint list) btree_map \<Rightarrow> bool" where
  "endpoints_ok = map_all (\<lambda>k es. sorted (map endpoint_key es))"

definition ads_inv :: "AdsState \<Rightarrow> bool" where
  "ads_inv s =
     (subscriptions_ok (as_subscriptions s) \<and> listeners_ok (as_listeners s) \<and>
      routes_ok (as_routes s) \<and> clusters_ok (as_clusters s) \<and> endpoints_ok (as_endpoints s))"

lemmas maps_ok_defs =
  subscriptions_ok_def listeners_ok_def routes_ok_def clusters_ok_def endpoints_ok_def

lemma map_all_empty [ads_wf]: "map_all P []"
  by (simp add: map_all_def bt.ok_empty bt.get_empty)

lemma map_all_insert [ads_wf]: "map_all P m \<Longrightarrow> P k v \<Longrightarrow> map_all P (bt_insert k v m)"
  by (auto simp: map_all_def bt.ok_put bt.get_put)

lemma map_all_prune [ads_wf]: "map_all P m \<Longrightarrow> map_all P (prune_requested m names)"
  by (auto simp: map_all_def prune_requested_def bt.ok_empty bt.get_empty bt.ok_del_all bt.get_del_all
      split: if_splits)

lemma map_all_values: "map_all P m \<Longrightarrow> v \<in> set (bt_values m) \<Longrightarrow> \<exists>k. bt_get m k = Some v \<and> P k v"
  unfolding map_all_def using bt_values_iff [of m v] by auto

lemma map_all_keys:
  assumes "map_all (\<lambda>k v. f v = k) m"
  shows "map f (bt_values m) = map fst m"
proof -
  have "f (snd e) = fst e" if "e \<in> set m" for e
    using assms that bt.in_entries_iff [of m "fst e" "snd e"] by (simp add: map_all_def)
  then show ?thesis by (simp add: bt_values_def)
qed

lemma map_all_mono: "map_all P m \<Longrightarrow> (\<And>k v. P k v \<Longrightarrow> Q k v) \<Longrightarrow> map_all Q m"
  by (simp add: map_all_def)

lemma maps_ok_prune [ads_wf]:
  "listeners_ok ls \<Longrightarrow> listeners_ok (prune_requested ls names)"
  "routes_ok rs \<Longrightarrow> routes_ok (prune_requested rs names)"
  "clusters_ok cs \<Longrightarrow> clusters_ok (prune_requested cs names)"
  "endpoints_ok es \<Longrightarrow> endpoints_ok (prune_requested es names)"
  by (simp_all add: maps_ok_defs map_all_prune)

lemma ads_inv_default [ads_wf]: "ads_inv ads_default"
  by (simp add: ads_inv_def ads_default_def maps_ok_defs map_all_empty)

lemma insert_listener_inv:
  "listeners_ok m \<Longrightarrow> insert_listener D m r = Ok m' \<Longrightarrow> listeners_ok m'"
  by (auto simp: insert_listener_def listeners_ok_def listener_snapshot_Ok intro: map_all_insert)

lemma insert_route_inv: "routes_ok m \<Longrightarrow> insert_route D m r = Ok m' \<Longrightarrow> routes_ok m'"
  by (auto simp: insert_route_def routes_ok_def convert_virtual_hosts_wf intro: map_all_insert)

lemma sorted_endpoints: "sorted (map endpoint_key (endpoints_from_assignment a))"
  by (simp add: endpoints_from_assignment_def)

lemma endpoints_ok_insert:
  "endpoints_ok m \<Longrightarrow> endpoints_ok (bt_insert k (endpoints_from_assignment a) m)"
  by (simp add: endpoints_ok_def sorted_endpoints map_all_insert)

lemma insert_assignment_inv:
  "endpoints_ok m \<Longrightarrow> insert_assignment D m r = Ok m' \<Longrightarrow> endpoints_ok m'"
  by (auto simp: insert_assignment_def endpoints_ok_insert split: if_splits)

lemma clusters_ok_insert:
  "clusters_ok m \<Longrightarrow> k \<noteq> [] \<Longrightarrow> cs_name c = k \<Longrightarrow> clusters_ok (bt_insert k c m)"
  by (simp add: clusters_ok_def map_all_insert)

lemma insert_cluster_inv: "ads_inv s \<Longrightarrow> insert_cluster D s r = Ok s' \<Longrightarrow> ads_inv s'"
  by (auto simp: insert_cluster_def ads_inv_def Let_def endpoints_ok_insert clusters_ok_insert
      split: if_splits option.splits)

lemma apply_listeners_inv [ads_wf]:
  assumes "ads_inv s" shows "ads_inv (fst (apply_listeners D s rs))"
proof -
  have "listeners_ok (fst (try_for_each (insert_listener D)
      (prune_requested (as_listeners s) (subscription s LISTENER_TYPE)) rs))"
    by (rule try_for_each_inv) (use assms in \<open>auto simp: ads_inv_def ads_wf intro: insert_listener_inv\<close>)
  then show ?thesis
    using assms by (simp add: apply_listeners_def Let_def case_prod_beta ads_inv_def)
qed

lemma apply_routes_inv [ads_wf]:
  assumes "ads_inv s" shows "ads_inv (fst (apply_routes D s rs))"
proof -
  have "routes_ok (fst (try_for_each (insert_route D)
      (prune_requested (as_routes s) (subscription s ROUTE_TYPE)) rs))"
    by (rule try_for_each_inv) (use assms in \<open>auto simp: ads_inv_def ads_wf intro: insert_route_inv\<close>)
  then show ?thesis
    using assms by (simp add: apply_routes_def Let_def case_prod_beta ads_inv_def)
qed

lemma apply_clusters_inv [ads_wf]:
  assumes "ads_inv s" shows "ads_inv (fst (apply_clusters D s rs))"
proof -
  have "ads_inv (s\<lparr>as_clusters := prune_requested (as_clusters s) (subscription s CLUSTER_TYPE)\<rparr>)"
    using assms by (simp add: ads_inv_def ads_wf)
  then have "ads_inv (fst (try_for_each (insert_cluster D)
      (s\<lparr>as_clusters := prune_requested (as_clusters s) (subscription s CLUSTER_TYPE)\<rparr>) rs))"
    by (rule try_for_each_inv) (rule insert_cluster_inv)
  then show ?thesis
    by (simp add: apply_clusters_def Let_def case_prod_beta)
qed

lemma apply_endpoints_inv [ads_wf]:
  assumes "ads_inv s" shows "ads_inv (fst (apply_endpoints D s rs))"
proof -
  have "endpoints_ok (fst (try_for_each (insert_assignment D)
      (prune_requested (as_endpoints s) (subscription s ENDPOINT_TYPE)) rs))"
    by (rule try_for_each_inv)
      (use assms in \<open>auto simp: ads_inv_def ads_wf intro: insert_assignment_inv\<close>)
  then show ?thesis
    using assms by (simp add: apply_endpoints_def Let_def case_prod_beta ads_inv_def)
qed

lemma apply_response_inv [ads_wf]: "ads_inv s \<Longrightarrow> ads_inv (fst (apply_response D s resp))"
  by (simp add: apply_response_def ads_wf)

lemma set_subscription_inv [ads_wf]: "ads_inv s \<Longrightarrow> ads_inv (snd (set_subscription s t names))"
  by (auto simp: set_subscription_def Let_def ads_inv_def subscriptions_ok_def sorted_sorted_unique
      intro: map_all_insert)

section \<open>Reachable states\<close>

text \<open>The state changes by receiving a response or by recording a subscription.\<close>

inductive ads_step :: "decoders \<Rightarrow> AdsState \<Rightarrow> AdsState \<Rightarrow> bool" for D where
  receive: "ads_step D s (fst (apply_response D s resp))"
| subscribe: "ads_step D s (snd (set_subscription s type_url names))"

interpretation ads: step_system "(=) ads_default" "ads_step D" ads_inv for D
  by unfold_locales (auto simp: ads_wf elim!: ads_step.cases)

section \<open>The configuration built from a state\<close>

text \<open>The clusters the listeners' routes refer to, and the ones that have arrived.\<close>

definition referenced_clusters :: "AdsState \<Rightarrow> string set" where
  "referenced_clusters s =
     (\<Union>l \<in> set (rc_listeners (runtime_config s [])). set (vhost_clusters (l_virtual_hosts l)))"

definition known_clusters :: "AdsState \<Rightarrow> string set" where
  "known_clusters s = {n. bt_get (as_clusters s) n \<noteq> None}"

lemma listeners_of_config:
  assumes "ads_inv s" and "l \<in> set (rc_listeners (runtime_config s v))"
  shows "\<exists>port. l_bind l = SocketV4 0 port \<and> l_protocol l = (if port = 443 then Https else Http)"
    and "l_tls_secret l = None" and "list_all vhost_wf (l_virtual_hosts l)"
proof -
  obtain snap where snap: "snap \<in> set (bt_values (as_listeners s))" "l = snapshot_listener s snap"
    using assms(2) by (auto simp: runtime_config_def)
  have wf: "snapshot_wf snap"
    using map_all_values [OF _ snap(1)] assms(1) by (auto simp: ads_inv_def listeners_ok_def)
  have hosts: "list_all vhost_wf (unwrap_or (bt_get (as_routes s) n) [])" for n
    using assms(1) by (cases "bt_get (as_routes s) n") (auto simp: ads_inv_def routes_ok_def map_all_def)
  show "\<exists>port. l_bind l = SocketV4 0 port \<and> l_protocol l = (if port = 443 then Https else Http)"
    and "l_tls_secret l = None"
    using wf by (auto simp: snap(2) snapshot_listener_def snapshot_wf_def Let_def)
  show "list_all vhost_wf (l_virtual_hosts l)"
    using wf hosts
    by (auto simp: snap(2) snapshot_listener_def snapshot_wf_def Let_def list_all_iff)
qed

lemma config_names_distinct:
  assumes "ads_inv s"
  shows "distinct (map l_name (rc_listeners (runtime_config s v)))"
    and "distinct (map c_name (rc_clusters (runtime_config s v)))"
proof -
  have "map_all (\<lambda>k snap. l_name (ls_listener snap) = k) (as_listeners s)"
    and "map_all (\<lambda>k c. cs_name c = k) (as_clusters s)"
    using assms by (auto simp: ads_inv_def maps_ok_defs elim: map_all_mono)
  then have keys: "map l_name (rc_listeners (runtime_config s v)) = map fst (as_listeners s)"
      "map c_name (rc_clusters (runtime_config s v)) = map fst (as_clusters s)"
    by (simp_all add: runtime_config_def comp_def snapshot_listener_def snapshot_cluster_def
        map_all_keys)
  have "bt_invar (as_listeners s)" "bt_invar (as_clusters s)"
    using assms by (simp_all add: ads_inv_def maps_ok_defs map_all_def)
  then show "distinct (map l_name (rc_listeners (runtime_config s v)))"
    and "distinct (map c_name (rc_clusters (runtime_config s v)))"
    unfolding keys by (simp_all add: bt.distinct_keys)
qed

lemma config_binds_compatible:
  "ads_inv s \<Longrightarrow> binds_compatible (rc_listeners (runtime_config s v))"
  unfolding binds_compatible_def listener_mode_def
  using listeners_of_config(1,2) [of s _ v] by (metis SocketAddr.inject(1))

lemma config_routes_nonempty: "ads_inv s \<Longrightarrow> routes_nonempty (runtime_config s v)"
  using listeners_of_config(3) [of s _ v]
  by (auto simp: routes_nonempty_def config_routes_def list_all_iff vhost_wf_def route_wf_def)

lemma config_cluster_names:
  assumes "ads_inv s"
  shows "c_name ` set (rc_clusters (runtime_config s v)) = known_clusters s"
proof -
  have inv: "bt_invar (as_clusters s)" and nm: "bt_get (as_clusters s) k = Some c \<Longrightarrow> cs_name c = k"
    for k c using assms by (auto simp: ads_inv_def clusters_ok_def map_all_def)
  have "c_name ` set (rc_clusters (runtime_config s v)) = cs_name ` set (bt_values (as_clusters s))"
    by (simp add: runtime_config_def snapshot_cluster_def image_image)
  also have "\<dots> = known_clusters s"
    using bt_values_iff [OF inv] nm by (force simp: known_clusters_def)
  finally show ?thesis .
qed

lemma config_references:
  "(\<forall>r\<in>config_routes (runtime_config s v). \<forall>dst\<in>set (rt_weighted_clusters r). wc_name dst \<in> N) \<longleftrightarrow>
     referenced_clusters s \<subseteq> N"
  by (simp add: referenced_clusters_def config_routes_def runtime_config_def vhost_clusters_def
      UN_subset_iff image_subset_iff) blast

lemma violated_kinds_runtime_config:
  "ads_inv s \<Longrightarrow> violated_kinds (runtime_config s v) =
     (if referenced_clusters s \<subseteq> known_clusters s then {} else {''missing-cluster''})"
  unfolding violated_kinds_def references_defined_def
  by (simp add: config_names_distinct config_binds_compatible config_routes_nonempty
      config_cluster_names config_references)

section \<open>Applying a response\<close>

lemma get_prune_requested:
  "bt_invar m \<Longrightarrow> bt_get (prune_requested m names) n =
     (if names = [] \<or> n \<in> set names then None else bt_get m n)"
  by (simp add: prune_requested_def bt.get_empty bt.get_del_all)

lemma prune_requested_invar: "bt_invar m \<Longrightarrow> bt_invar (prune_requested m names)"
  by (simp add: prune_requested_def bt.ok_empty bt.ok_del_all)

lemma get_set_subscription:
  assumes "ads_inv s"
  shows "subscription (snd (set_subscription s t names)) t' =
           (if t' = t then sorted_unique names else subscription s t')"
proof -
  have "bt_invar (as_subscriptions s)"
    using assms by (simp add: ads_inv_def subscriptions_ok_def map_all_def)
  then show ?thesis
    by (auto simp: set_subscription_def subscription_def Let_def bt.get_put)
qed

section \<open>A sample mesh\<close>

text \<open>
  The resources of the test \<open>ads_state_builds_runtime_config_from_lds_rds_cds_and_eds\<close>, with decoders
  that return them for any non-empty payload and an error for an empty one.
\<close>

definition sample_socket :: "string \<Rightarrow> u32 \<Rightarrow> Address" where
  "sample_socket address port =
     \<lparr>addr_address = Some (SocketAddressKind
        \<lparr>sock_address = address, sock_port_specifier = Some (PortValue port)\<rparr>)\<rparr>"

definition sample_any :: "string \<Rightarrow> Any" where
  "sample_any type_url = \<lparr>any_type_url = type_url, any_value = [1]\<rparr>"

definition sample_listener :: xds_Listener where
  "sample_listener = \<lparr>xl_name = ''dxgate.app:80'', xl_address = Some (sample_socket ''10.96.0.10'' 80),
     xl_filter_chains = [],
     xl_api_listener = Some \<lparr>al_api_listener = Some (sample_any HCM_TYPE)\<rparr>\<rparr>"

definition sample_route_configuration :: RouteConfiguration where
  "sample_route_configuration = \<lparr>rcfg_name = ''orders-route'', rcfg_virtual_hosts =
     [\<lparr>xvh_name = ''orders'', xvh_domains = [''orders.example.com''], xvh_routes =
        [\<lparr>xr_name = ''orders-default'',
          xr_match = Some \<lparr>xrm_path_specifier = Some (PS_Prefix ''/''), xrm_headers = []\<rparr>,
          xr_action = Some (ActionRoute \<lparr>ra_cluster_specifier = Some (CS_Cluster ''orders'')\<rparr>)\<rparr>]\<rparr>]\<rparr>"

definition sample_cluster :: xds_Cluster where
  "sample_cluster = \<lparr>xc_name = ''orders'',
     xc_eds_cluster_config = Some \<lparr>eds_service_name = ''orders''\<rparr>,
     xc_load_assignment = None, xc_transport_socket = None\<rparr>"

definition sample_assignment :: ClusterLoadAssignment where
  "sample_assignment = \<lparr>cla_cluster_name = ''orders'', cla_endpoints =
     [\<lparr>loc_lb_endpoints = [\<lparr>lbe_host_identifier =
         Some (HI_Endpoint \<lparr>xe_address = Some (sample_socket ''10.244.0.20'' 8080)\<rparr>),
       lbe_health_status = 1\<rparr>]\<rparr>]\<rparr>"

definition sample_decode :: "'m \<Rightarrow> bytes \<Rightarrow> ('m, string) result" where
  "sample_decode m bs = (if bs = [] then Err ''buffer underflow'' else Ok m)"

definition sample_decoders :: decoders where
  "sample_decoders =
     \<lparr>dec_listener = sample_decode sample_listener,
      dec_route = sample_decode sample_route_configuration,
      dec_cluster = sample_decode sample_cluster,
      dec_assignment = sample_decode sample_assignment,
      dec_hcm = sample_decode \<lparr>hcm_route_specifier = Some (Rds ''orders-route'')\<rparr>,
      dec_tls = sample_decode \<lparr>utc_common = None, utc_sni = []\<rparr>\<rparr>"

definition sample_response :: "string \<Rightarrow> DiscoveryResponse" where
  "sample_response type_url =
     \<lparr>dr_version_info = ''v1'', dr_resources = [sample_any type_url], dr_type_url = type_url,
      dr_nonce = ''nonce''\<rparr>"

text \<open>What the conversions make of the sample resources.\<close>

definition sample_snapshot :: ListenerSnapshot where
  "sample_snapshot = \<lparr>ls_listener =
     \<lparr>l_name = ''dxgate.app:80'', l_bind = SocketV4 0 80, l_protocol = Http, l_virtual_hosts = [],
      l_tls_secret = None\<rparr>,
     ls_route_names = [''orders-route''], ls_inline_virtual_hosts = []\<rparr>"

definition sample_vhosts :: "VirtualHost list" where
  "sample_vhosts = [\<lparr>vh_name = ''orders'', vh_domains = [''orders.example.com''], vh_routes =
     [\<lparr>rt_name = ''orders-default'', rt_matches = [\<lparr>rm_path = Prefix ''/'', rm_headers = []\<rparr>],
       rt_weighted_clusters = [\<lparr>wc_name = ''orders'', wc_weight = 100\<rparr>]\<rparr>]\<rparr>]"

definition sample_mesh_endpoints :: "Endpoint list" where
  "sample_mesh_endpoints = [\<lparr>ep_address = ''10.244.0.20'', ep_port = 8080, ep_healthy = True,
     ep_node_name = None\<rparr>]"

lemma sample_conversions:
  "listener_snapshot sample_decoders sample_listener = Ok sample_snapshot"
  "convert_virtual_hosts (rcfg_virtual_hosts sample_route_configuration) = sample_vhosts"
  "endpoints_from_assignment sample_assignment = sample_mesh_endpoints"
  "upstream_tls_from_cluster sample_decoders sample_cluster = None"
     apply (simp add: listener_snapshot_def sample_listener_def sample_snapshot_def
      http_connection_managers_def hcm_candidates_def listener_port_def socket_address_def
      sample_socket_def try_into_u16_def sample_any_def HCM_TYPE_def decode_hcm_def
      decode_resource_def sample_decoders_def sample_decode_def hcm_route_names_def
      hcm_inline_hosts_def sorted_unique_def bset_insert_def)
    apply (simp add: convert_virtual_hosts_def convert_route_def convert_route_action_def
      convert_route_match_def convert_path_def sample_route_configuration_def sample_vhosts_def
      List.map_filter_def)
   apply (simp add: sample_assignment_def endpoints_from_assignment_def sample_mesh_endpoints_def
      convert_lb_endpoint_def List.map_filter_def socket_address_def try_into_u16_def
      sample_socket_def endpoint_is_healthy_iff)
  apply (simp add: upstream_tls_from_cluster_def sample_cluster_def)
  done

lemma sample_names [simp]:
  "rcfg_name sample_route_configuration = ''orders-route''" "xc_name sample_cluster = ''orders''"
  "eds_service_name_of sample_cluster = ''orders''" "xc_load_assignment sample_cluster = None"
  "cla_cluster_name sample_assignment = ''orders''"
  by (simp_all add: sample_route_configuration_def sample_cluster_def sample_assignment_def
      eds_service_name_of_def)

lemma sample_decode_any:
  "decode_resource (dec_listener sample_decoders) t (sample_any u) = Ok sample_listener"
  "decode_resource (dec_route sample_decoders) t (sample_any u) = Ok sample_route_configuration"
  "decode_resource (dec_cluster sample_decoders) t (sample_any u) = Ok sample_cluster"
  "decode_resource (dec_assignment sample_decoders) t (sample_any u) = Ok sample_assignment"
  by (simp_all add: decode_resource_def sample_decoders_def sample_decode_def sample_any_def)

definition sample_ads_state :: AdsState where
  "sample_ads_state = ads_default\<lparr>as_listeners := [(''dxgate.app:80'', sample_snapshot)],
     as_routes := [(''orders-route'', sample_vhosts)]\<rparr>"

lemma sample_ads_state_eq:
  "sample_ads_state = fst (apply_response sample_decoders
     (fst (apply_response sample_decoders ads_default (sample_response LISTENER_TYPE)))
     (sample_response ROUTE_TYPE))"
  by (simp add: sample_ads_state_def apply_response_def sample_response_def apply_listeners_def
      apply_routes_def insert_listener_def insert_route_def sample_decode_any sample_conversions
      ads_default_def subscription_def bt.get_empty prune_requested_def sample_snapshot_def
      Let_def sample_names)

lemma sample_ads_state_reachable: "(ads_step sample_decoders)\<^sup>*\<^sup>* ads_default sample_ads_state"
  unfolding sample_ads_state_eq
  by (rule rtranclp.rtrancl_into_rtrancl [OF r_into_rtranclp]) (rule ads_step.receive)+

section \<open>Properties\<close>

text \<open>
  C8: whatever responses arrive and whatever is subscribed, in any order and including responses
  that fail to decode, the configuration built from the state can have only one kind of
  conflict, a missing cluster; and it is valid exactly when every cluster its routes refer to
  has arrived.
\<close>

theorem ads_config_only_misses_clusters:
  assumes "(ads_step D)\<^sup>*\<^sup>* ads_default s"
  shows "(case validate (runtime_config s version) of
            Ok u \<Rightarrow> referenced_clusters s \<subseteq> known_clusters s
          | Err cs \<Rightarrow> kinds cs = {''missing-cluster''} \<and>
                     \<not> referenced_clusters s \<subseteq> known_clusters s)"
proof -
  have "ads_inv s" using assms by (rule ads.inv_reachable [OF refl])
  note kinds = violated_kinds_runtime_config [OF this, of version]
  have ok: "config_ok (runtime_config s version) \<longleftrightarrow> referenced_clusters s \<subseteq> known_clusters s"
    by (simp add: config_ok_iff_violated_kinds kinds)
  show ?thesis
  proof (cases "validate (runtime_config s version)")
    case (Ok u)
    then have "config_ok (runtime_config s version)" using is_ok_validate by fastforce
    with Ok ok show ?thesis by simp
  next
    case (Err cs)
    then have "cs = config_conflicts (runtime_config s version)"
      and "\<not> referenced_clusters s \<subseteq> known_clusters s"
      using ok validate_Err_iff by blast+
    with Err show ?thesis by (simp add: kinds_config_conflicts kinds)
  qed
qed

theorem ads_config_only_misses_clusters_witness:
  "(case validate (runtime_config sample_ads_state ''v1'') of
      Ok u \<Rightarrow> referenced_clusters sample_ads_state \<subseteq> known_clusters sample_ads_state
    | Err cs \<Rightarrow> kinds cs = {''missing-cluster''} \<and>
        \<not> referenced_clusters sample_ads_state \<subseteq> known_clusters sample_ads_state) \<and>
   \<not> is_ok (validate (runtime_config sample_ads_state ''v1''))"
proof -
  have "is_ok (validate (runtime_config sample_ads_state ''v1'')) = False"
    by (simp add: is_ok_validate config_ok_def references_defined_def config_routes_def
        runtime_config_def sample_ads_state_def ads_default_def bt_values_def snapshot_listener_def
        sample_snapshot_def bt_get_def sample_vhosts_def)
  with ads_config_only_misses_clusters [OF sample_ads_state_reachable, of "''v1''"]
  show ?thesis by simp
qed

text \<open>
  Recording a subscription stores the sorted, duplicate-free names for that type and no
  other, and reports a change exactly when the stored value changed; doing it again reports
  none, so the client never re-sends an unchanged subscription.
\<close>

lemma set_subscription_records:
  assumes "ads_inv s" and "set_subscription s t names = (changed, s')"
  shows "subscription s' t = sorted_list_of_set (set names) \<and>
         (\<forall>t'. t' \<noteq> t \<longrightarrow> subscription s' t' = subscription s t') \<and>
         (changed \<longleftrightarrow> s' \<noteq> s) \<and>
         set_subscription s' t names = (False, s')"
proof -
  have inv: "bt_invar (as_subscriptions s)"
    using assms(1) by (simp add: ads_inv_def subscriptions_ok_def map_all_def)
  have s': "s' = snd (set_subscription s t names)" using assms(2) by simp
  have "changed \<longleftrightarrow> bt_get (as_subscriptions s) t \<noteq> Some (sorted_unique names)"
    using assms(2) by (auto simp: set_subscription_def Let_def split: if_splits)
  moreover have "bt_get (as_subscriptions s') t = Some (sorted_unique names)"
    using assms(2) inv by (auto simp: set_subscription_def Let_def bt.get_put split: if_splits)
  ultimately show ?thesis
    using get_set_subscription [OF assms(1), of t names] assms(2)
    by (auto simp: s' sorted_unique_eq set_subscription_def Let_def split: if_splits)
      (metis AdsState.select_convs(1) AdsState.surjective AdsState.update_convs(1))
qed

lemma set_subscription_records_example:
  "set_subscription ads_default CLUSTER_TYPE [''b'', ''a'', ''b''] =
     (True, snd (set_subscription ads_default CLUSTER_TYPE [''b'', ''a'', ''b''])) \<and>
   subscription (snd (set_subscription ads_default CLUSTER_TYPE [''b'', ''a'', ''b''])) CLUSTER_TYPE =
     sorted_list_of_set (set [''b'', ''a'', ''b''])"
proof -
  have c: "set_subscription ads_default CLUSTER_TYPE [''b'', ''a'', ''b''] =
     (True, snd (set_subscription ads_default CLUSTER_TYPE [''b'', ''a'', ''b'']))"
    by (simp add: set_subscription_def Let_def ads_default_def bt.get_empty)
  from set_subscription_records [OF ads_inv_default c] c show ?thesis by blast
qed

end
