(* ===== verification/Core_Identity.thy ===== *)
theory Core_Identity
  imports Rust_Std
begin

text \<open>
  \<open>crates/core/src/identity.rs\<close>: the identity a router pod presents to the control plane.  The
  node id packs five fields into one string; it is unambiguous when the fields do not contain
  the separators, which Kubernetes guarantees for namespaces (no dot) and addresses (no tilde).
\<close>

abbreviation NODE_TYPE_ROUTER :: string where
  "NODE_TYPE_ROUTER \<equiv> ''router''"

abbreviation DEFAULT_DNS_DOMAIN :: string where
  "DEFAULT_DNS_DOMAIN \<equiv> ''svc.cluster.local''"

abbreviation DEFAULT_CLUSTER_ID :: string where
  "DEFAULT_CLUSTER_ID \<equiv> ''Kubernetes''"

record RouterIdentity =
  ri_pod_name :: string
  ri_namespace :: string
  ri_pod_ip :: string
  ri_node_name :: "string option"
  ri_cluster_id :: string
  ri_dns_domain :: string

record RouterMetadata =
  rmd_generator :: string
  rmd_cluster_id :: string
  rmd_namespace :: string
  rmd_node_name :: "string option"

definition node_id :: "RouterIdentity \<Rightarrow> string" where
  "node_id i =
     NODE_TYPE_ROUTER @ ''~'' @ ri_pod_ip i @ ''~'' @ ri_pod_name i @ ''.'' @ ri_namespace i @
     ''~'' @ ri_namespace i @ ''.'' @ ri_dns_domain i"

definition identity_metadata :: "RouterIdentity \<Rightarrow> RouterMetadata" where
  "identity_metadata i =
     \<lparr>rmd_generator = ''grpc'', rmd_cluster_id = ri_cluster_id i,
      rmd_namespace = ri_namespace i, rmd_node_name = ri_node_name i\<rparr>"

section \<open>Reading a node id back\<close>

text \<open>The fields use their separators only where the id puts them.\<close>

definition separable :: "RouterIdentity \<Rightarrow> bool" where
  "separable i =
     (CHR ''~'' \<notin> set (ri_pod_ip i) \<and> CHR ''~'' \<notin> set (ri_pod_name i) \<and>
      CHR ''~'' \<notin> set (ri_namespace i) \<and> CHR ''~'' \<notin> set (ri_dns_domain i) \<and>
      CHR ''.'' \<notin> set (ri_namespace i))"

lemma split_node_id:
  "separable i \<Longrightarrow>
     str_split (CHR ''~'') (node_id i) =
       [NODE_TYPE_ROUTER, ri_pod_ip i, ri_pod_name i @ ''.'' @ ri_namespace i,
        ri_namespace i @ ''.'' @ ri_dns_domain i]"
  using str_split_append [of "CHR ''~''" NODE_TYPE_ROUTER]
    str_split_append [of "CHR ''~''" "ri_pod_ip i"]
    str_split_append [of "CHR ''~''" "ri_pod_name i @ ''.'' @ ri_namespace i"]
    str_split_no_sep [of "CHR ''~''" "ri_namespace i @ ''.'' @ ri_dns_domain i"]
  by (simp add: node_id_def separable_def)

text \<open>
  C34: two identities with the same node id agree on pod address, pod name, namespace and DNS
  domain, when their fields do not contain the separators.
\<close>

theorem node_id_injective:
  assumes "separable i" and "separable j" and "node_id i = node_id j"
  shows "ri_pod_ip i = ri_pod_ip j \<and> ri_pod_name i = ri_pod_name j \<and>
         ri_namespace i = ri_namespace j \<and> ri_dns_domain i = ri_dns_domain j"
proof -
  have parts: "ri_pod_ip i = ri_pod_ip j"
    "ri_pod_name i @ ''.'' @ ri_namespace i = ri_pod_name j @ ''.'' @ ri_namespace j"
    "ri_namespace i @ CHR ''.'' # ri_dns_domain i = ri_namespace j @ CHR ''.'' # ri_dns_domain j"
    using split_node_id [OF assms(1)] split_node_id [OF assms(2)] assms(3) by simp_all
  have "ri_namespace i = ri_namespace j \<and> ri_dns_domain i = ri_dns_domain j"
    by (rule append_Cons_unique [OF parts(3)]) (use assms(1,2) in \<open>simp_all add: separable_def\<close>)
  with parts(1,2) show ?thesis by simp
qed

text \<open>The identity of the unit test \<open>builds_dubbo_router_node_id\<close>.\<close>

definition sample_identity :: RouterIdentity where
  "sample_identity =
     \<lparr>ri_pod_name = ''dxgate-abc'', ri_namespace = ''dubbo-system'', ri_pod_ip = ''10.0.0.10'',
      ri_node_name = Some ''node-a'', ri_cluster_id = DEFAULT_CLUSTER_ID,
      ri_dns_domain = DEFAULT_DNS_DOMAIN\<rparr>"

lemma sample_node_id:
  "node_id sample_identity =
     ''router~10.0.0.10~dxgate-abc.dubbo-system~dubbo-system.svc.cluster.local''"
  by (simp add: node_id_def sample_identity_def)

theorem node_id_injective_witness:
  "separable sample_identity \<and>
   ri_pod_ip sample_identity = ri_pod_ip (sample_identity\<lparr>ri_node_name := None\<rparr>)"
proof -
  have s: "separable sample_identity" "separable (sample_identity\<lparr>ri_node_name := None\<rparr>)"
    by (simp_all add: separable_def sample_identity_def)
  show ?thesis
    using node_id_injective [OF s] s(1) by (simp add: node_id_def)
qed

end
