(* ===== verification/Xds_Client.thy ===== *)
theory Xds_Client
  imports Ads_State Core_Identity
begin

text \<open>
  \<open>XdsClient\<close> of \<open>crates/xds/src/client.rs\<close>: one ADS session (\<open>run_once\<close>) and the reconnect loop
  (\<open>run\<close>).  The transport (tonic, tokio's \<open>mpsc\<close> request queue and \<open>watch\<close> cell) is a parameter,
  the record \<open>transport\<close>; what a connection attempt meets (connect, open, the messages received) is
  the record \<open>attempt\<close>.  \<open>watch_law\<close> and \<open>queue_law\<close> name the two documented facts about tokio that
  some results rely on: after a successful \<open>send\<close> the cell holds the value that was sent, and the
  queue keeps the requests in order.  Sleeping between attempts has no effect on the state.
\<close>

section \<open>The environment\<close>

record ('q, 'w) transport =
  tp_from_shared :: "string \<Rightarrow> (unit, string) result"
  tp_channel :: 'q
  tp_request_send :: "'q \<Rightarrow> DiscoveryRequest \<Rightarrow> 'q option"
  tp_borrow :: "'w \<Rightarrow> RuntimeConfig"
  tp_config_send :: "'w \<Rightarrow> RuntimeConfig \<Rightarrow> 'w option"

datatype stream_item = Message DiscoveryResponse | StreamStatus string

record attempt =
  at_connect :: "(unit, string) result"
  at_open :: "(stream_item list, string) result"

definition watch_law :: "('q, 'w) transport \<Rightarrow> ('w \<Rightarrow> RuntimeConfig list) \<Rightarrow> bool" where
  "watch_law T published =
     (\<forall>w. published w \<noteq> [] \<and> tp_borrow T w = last (published w) \<and>
        (\<forall>cfg w'. tp_config_send T w cfg = Some w' \<longrightarrow> published w' = published w @ [cfg]))"

definition queue_law :: "('q, 'w) transport \<Rightarrow> ('q \<Rightarrow> DiscoveryRequest list) \<Rightarrow> bool" where
  "queue_law T sent = (sent (tp_channel T) = [] \<and>
     (\<forall>q r q'. tp_request_send T q r = Some q' \<longrightarrow> sent q' = sent q @ [r]))"

section \<open>The client\<close>

record XdsClientConfig =
  xcc_endpoint :: string
  xcc_identity :: RouterIdentity
  xcc_listener_names :: "string list"
  xcc_reconnect_delay :: nat

record ('q, 'w) session =
  se_state :: AdsState
  se_requests :: 'q
  se_watch :: 'w

definition node :: "XdsClientConfig \<Rightarrow> Node" where
  "node cfg =
     (let metadata = identity_metadata (xcc_identity cfg);
          fields = bt_insert ''GENERATOR'' (StringValue (rmd_generator metadata)) [];
          fields = bt_insert ''CLUSTER_ID'' (StringValue (rmd_cluster_id metadata)) fields;
          fields = bt_insert ''NAMESPACE'' (StringValue (rmd_namespace metadata)) fields;
          fields = (case rmd_node_name metadata of
               Some node_name \<Rightarrow> bt_insert ''KUBE_NODE_NAME'' (StringValue node_name) fields
             | None \<Rightarrow> fields)
      in \<lparr>node_id_field = node_id (xcc_identity cfg),
          node_cluster = ri_cluster_id (xcc_identity cfg),
          node_metadata = Some fields\<rparr>)"

definition discovery_request :: "Node \<Rightarrow> string \<Rightarrow> string list \<Rightarrow> string \<Rightarrow> string \<Rightarrow> DiscoveryRequest" where
  "discovery_request n type_url resource_names version_info response_nonce =
     \<lparr>dq_version_info = version_info, dq_node = Some n, dq_resource_names = resource_names,
      dq_type_url = type_url, dq_response_nonce = response_nonce, dq_error_detail = None\<rparr>"

definition send_discovery_request ::
  "('q, 'w) transport \<Rightarrow> 'q \<Rightarrow> Node \<Rightarrow> string \<Rightarrow> string list \<Rightarrow> string \<Rightarrow> string \<Rightarrow>
   'q \<times> (unit, XdsError) result"
where
  "send_discovery_request T q n type_url resource_names version_info response_nonce =
     (case tp_request_send T q
             (discovery_request n type_url resource_names version_info response_nonce) of
        None \<Rightarrow> (q, Err RequestChannelClosed)
      | Some q' \<Rightarrow> (q', Ok ()))"

fun send_updates ::
  "('q, 'w) transport \<Rightarrow> Node \<Rightarrow> AdsState \<Rightarrow> 'q \<Rightarrow> (string \<times> string list) list \<Rightarrow>
   AdsState \<times> 'q \<times> (unit, XdsError) result"
where
  "send_updates T n s q [] = (s, q, Ok ())"
| "send_updates T n s q ((type_url, names) # rest) =
     (case set_subscription s type_url names of
        (changed, s') \<Rightarrow>
          if changed then
            (case send_discovery_request T q n type_url names [] [] of
               (q', Err e) \<Rightarrow> (s', q', Err e)
             | (q', Ok _) \<Rightarrow> send_updates T n s' q' rest)
          else send_updates T n s' q rest)"

definition publish :: "('q, 'w) transport \<Rightarrow> 'w \<Rightarrow> RuntimeConfig \<Rightarrow> 'w \<times> (unit, XdsError) result" where
  "publish T w cfg =
     (case validate cfg of
        Ok _ \<Rightarrow>
          if cfg \<noteq> tp_borrow T w then
            (case tp_config_send T w cfg of
               None \<Rightarrow> (w, Err RuntimeConfigClosed)
             | Some w' \<Rightarrow> (w', Ok ()))
          else (w, Ok ())
      | Err conflicts \<Rightarrow> (w, Ok ()))"

definition handle_response ::
  "('q, 'w) transport \<Rightarrow> decoders \<Rightarrow> Node \<Rightarrow> ('q, 'w) session \<Rightarrow> DiscoveryResponse \<Rightarrow>
   ('q, 'w) session \<times> (unit, XdsError) result"
where
  "handle_response T D n se resp =
     (case apply_response D (se_state se) resp of
        (s, Err e) \<Rightarrow> (se\<lparr>se_state := s\<rparr>, Err e)
      | (s, Ok updates) \<Rightarrow>
          (case send_discovery_request T (se_requests se) n (dr_type_url resp)
                  (subscription s (dr_type_url resp)) (dr_version_info resp) (dr_nonce resp) of
             (q, Err e) \<Rightarrow> (se\<lparr>se_state := s, se_requests := q\<rparr>, Err e)
           | (q, Ok _) \<Rightarrow>
               (case send_updates T n s q (updates_subscriptions updates) of
                  (s', q', Err e) \<Rightarrow> (se\<lparr>se_state := s', se_requests := q'\<rparr>, Err e)
                | (s', q', Ok _) \<Rightarrow>
                    (case publish T (se_watch se) (runtime_config s' (dr_version_info resp)) of
                       (w, r) \<Rightarrow> (\<lparr>se_state = s', se_requests = q', se_watch = w\<rparr>, r)))))"

fun stream_loop ::
  "('q, 'w) transport \<Rightarrow> decoders \<Rightarrow> Node \<Rightarrow> ('q, 'w) session \<Rightarrow> stream_item list \<Rightarrow>
   ('q, 'w) session \<times> (unit, XdsError) result"
where
  "stream_loop T D n se [] = (se, Ok ())"
| "stream_loop T D n se (StreamStatus status # rest) = (se, Err (StreamReceive status))"
| "stream_loop T D n se (Message resp # rest) =
     (case handle_response T D n se resp of
        (se', Err e) \<Rightarrow> (se', Err e)
      | (se', Ok _) \<Rightarrow> stream_loop T D n se' rest)"

definition connect_channel ::
  "('q, 'w) transport \<Rightarrow> XdsClientConfig \<Rightarrow> attempt \<Rightarrow> (unit, XdsError) result"
where
  "connect_channel T cfg at =
     and_then (map_err (InvalidEndpoint (xcc_endpoint cfg)) (tp_from_shared T (xcc_endpoint cfg)))
       (\<lambda>_. map_err (Connect (xcc_endpoint cfg)) (at_connect at))"

definition start_session ::
  "('q, 'w) transport \<Rightarrow> XdsClientConfig \<Rightarrow> 'w \<Rightarrow> ('q, 'w) session \<times> (unit, XdsError) result"
where
  "start_session T cfg w =
     (let listener_names = sorted_unique (xcc_listener_names cfg);
          s = snd (set_subscription ads_default LISTENER_TYPE listener_names);
          (q, r) = send_discovery_request T (tp_channel T) (node cfg) LISTENER_TYPE listener_names [] []
      in (\<lparr>se_state = s, se_requests = q, se_watch = w\<rparr>, r))"

definition run_once ::
  "('q, 'w) transport \<Rightarrow> decoders \<Rightarrow> XdsClientConfig \<Rightarrow> attempt \<Rightarrow> 'w \<Rightarrow> 'w \<times> (unit, XdsError) result"
where
  "run_once T D cfg at w =
     (case connect_channel T cfg at of
        Err e \<Rightarrow> (w, Err e)
      | Ok _ \<Rightarrow>
          (case start_session T cfg w of
             (se, Err e) \<Rightarrow> (se_watch se, Err e)
           | (se, Ok _) \<Rightarrow>
               (case map_err StreamOpen (at_open at) of
                  Err e \<Rightarrow> (se_watch se, Err e)
                | Ok items \<Rightarrow>
                    (case stream_loop T D (node cfg) se items of
                       (se', r) \<Rightarrow> (se_watch se', r)))))"

text \<open>
  \<open>run\<close> over the attempts made so far: \<open>Running w\<close> is the loop still going after the last of
  them, \<open>Returned e w\<close> the return with an error (it has no other return).
\<close>

datatype 'w run_result = Running 'w | Returned XdsError 'w

fun run ::
  "('q, 'w) transport \<Rightarrow> decoders \<Rightarrow> XdsClientConfig \<Rightarrow> attempt list \<Rightarrow> 'w \<Rightarrow> 'w run_result"
where
  "run T D cfg [] w = Running w"
| "run T D cfg (at # rest) w =
     (case run_once T D cfg at w of
        (w', Ok _) \<Rightarrow> run T D cfg rest w'
      | (w', Err (InvalidEndpoint endpoint source)) \<Rightarrow> Returned (InvalidEndpoint endpoint source) w'
      | (w', Err _) \<Rightarrow> run T D cfg rest w')"

section \<open>Publishing\<close>

text \<open>
  The history of a watch cell: \<open>published\<close> lists the values it has held, the last one is the one
  that \<open>borrow\<close> returns.
\<close>

lemma watch_law_borrow: "watch_law T published \<Longrightarrow> tp_borrow T w = last (published w)"
  and watch_law_nonempty: "watch_law T published \<Longrightarrow> published w \<noteq> []"
  and watch_law_send:
    "watch_law T published \<Longrightarrow> tp_config_send T w cfg = Some w' \<Longrightarrow> published w' = published w @ [cfg]"
  by (simp_all add: watch_law_def)

text \<open>\<open>grows_validly old new\<close>: \<open>new\<close> extends \<open>old\<close> by valid configurations, each different from the one before.\<close>

definition grows_validly :: "RuntimeConfig list \<Rightarrow> RuntimeConfig list \<Rightarrow> bool" where
  "grows_validly old new =
     (\<exists>added. new = old @ added \<and> list_all (\<lambda>cfg. is_ok (validate cfg)) added \<and>
              distinct_adj (last old # added))"

lemma grows_validly_refl [simp]: "grows_validly old old"
  by (simp add: grows_validly_def)

lemma grows_validly_trans:
  assumes "grows_validly a b" and "grows_validly b c"
  shows "grows_validly a c"
proof -
  obtain x where x: "b = a @ x" "list_all (\<lambda>cfg. is_ok (validate cfg)) x" "distinct_adj (last a # x)"
    using assms(1) by (auto simp: grows_validly_def)
  obtain y where y: "c = b @ y" "list_all (\<lambda>cfg. is_ok (validate cfg)) y" "distinct_adj (last b # y)"
    using assms(2) by (auto simp: grows_validly_def)
  have "distinct_adj (last a # x @ y)"
  proof (cases "x = []")
    case True
    with x(1) y(3) show ?thesis by simp
  next
    case False
    then have "last b = last (last a # x)" using x(1) by simp
    then have "y \<noteq> [] \<Longrightarrow> last (last a # x) \<noteq> hd y" and "distinct_adj y"
      using y(3) by (cases y; auto)+
    then show ?thesis
      using x(3) distinct_adj_append_iff [of "last a # x" y] by auto
  qed
  with x y show ?thesis
    unfolding grows_validly_def by (intro exI [of _ "x @ y"]) simp
qed

lemma publish_grows:
  assumes "watch_law T published"
  shows "grows_validly (published w) (published (fst (publish T w cfg)))"
proof -
  have "grows_validly (published w) (published w @ [cfg])"
    if "is_ok (validate cfg)" and "cfg \<noteq> tp_borrow T w"
    using that watch_law_borrow [OF assms, of w] by (auto simp: grows_validly_def)
  then show ?thesis
    by (auto simp: publish_def watch_law_send [OF assms] split: result.splits option.splits)
qed

lemma publish_Ok_borrow:
  assumes "watch_law T published" and "publish T w cfg = (w', Ok u)"
  shows "tp_borrow T w' = (if is_ok (validate cfg) then cfg else tp_borrow T w)"
  using assms(2)
  by (auto simp: publish_def watch_law_borrow [OF assms(1)] watch_law_send [OF assms(1)]
      split: result.splits option.splits if_splits)

lemma handle_response_grows:
  "watch_law T published \<Longrightarrow>
     grows_validly (published (se_watch se)) (published (se_watch (fst (handle_response T D n se resp))))"
  using publish_grows [of T published "se_watch se"]
  by (auto simp: handle_response_def split: prod.splits result.splits) (metis fst_conv)+

lemma stream_loop_grows:
  assumes "watch_law T published"
  shows "grows_validly (published (se_watch se)) (published (se_watch (fst (stream_loop T D n se items))))"
proof (induction items arbitrary: se)
  case (Cons item items)
  show ?case
  proof (cases item)
    case (Message resp)
    obtain se' r where h: "handle_response T D n se resp = (se', r)" by fastforce
    then have "grows_validly (published (se_watch se)) (published (se_watch se'))"
      using handle_response_grows [OF assms, of se D n resp] by simp
    with Cons.IH [of se'] Message h show ?thesis
      by (auto split: result.splits intro: grows_validly_trans)
  qed simp
qed simp

lemma run_once_grows:
  assumes "watch_law T published"
  shows "grows_validly (published w) (published (fst (run_once T D cfg at w)))"
proof -
  have "se_watch (fst (start_session T cfg w)) = w"
    by (simp add: start_session_def Let_def split: prod.splits)
  then show ?thesis
    using stream_loop_grows [OF assms, of "fst (start_session T cfg w)" D "node cfg"]
    by (auto simp: run_once_def split: result.splits prod.splits) (metis fst_conv)+
qed

fun watch_of :: "'w run_result \<Rightarrow> 'w" where
  "watch_of (Running w) = w"
| "watch_of (Returned e w) = w"

lemma run_grows:
  assumes "watch_law T published"
  shows "grows_validly (published w) (published (watch_of (run T D cfg attempts w)))"
proof (induction attempts arbitrary: w)
  case (Cons at rest)
  obtain w' r where o: "run_once T D cfg at w = (w', r)" by fastforce
  then have "grows_validly (published w) (published w')"
    using run_once_grows [OF assms, of w D cfg at] by simp
  with Cons.IH [of w'] o show ?case
    by (auto split: result.splits XdsError.splits intro: grows_validly_trans)
qed simp

section \<open>Requests\<close>

lemma queue_law_send:
  "queue_law T sent \<Longrightarrow> tp_request_send T q r = Some q' \<Longrightarrow> sent q' = sent q @ [r]"
  by (simp add: queue_law_def)

lemma send_discovery_request_sent:
  "queue_law T sent \<Longrightarrow> send_discovery_request T q n t names v nonce = (q', r) \<Longrightarrow>
     sent q' = sent q @ (if is_ok r then [discovery_request n t names v nonce] else [])"
  by (auto simp: send_discovery_request_def queue_law_send split: option.splits)

lemma apply_response_subscriptions [simp]:
  "as_subscriptions (fst (apply_response D s resp)) = as_subscriptions s"
proof -
  have "as_subscriptions (fst (try_for_each (insert_cluster D) s' rs)) = as_subscriptions s'" for s' rs
    by (rule try_for_each_inv [where P = "\<lambda>t. as_subscriptions t = as_subscriptions s'"])
      (auto simp: insert_cluster_def Let_def split: if_splits)
  then show ?thesis
    by (simp add: apply_response_def apply_listeners_def apply_routes_def apply_clusters_def
        apply_endpoints_def Let_def case_prod_beta)
qed

lemma names_of_state_sorted:
  "sorted_unique (route_names s) = route_names s"
  "sorted_unique (cluster_names s) = cluster_names s"
  "sorted_unique (eds_names s) = eds_names s"
  by (simp_all add: route_names_def cluster_names_def eds_names_def sorted_unique_id
      sorted_sorted_unique)

text \<open>A response leads to at most one follow-up subscription, for the next type in the chain.\<close>

lemma updates_subscriptions_cases:
  assumes "apply_response D s resp = (s', Ok updates)"
  obtains "updates_subscriptions updates = []"
  | t names where "updates_subscriptions updates = [(t, names)]" "sorted_unique names = names"
      "names \<noteq> []" "t \<in> {ROUTE_TYPE, CLUSTER_TYPE, ENDPOINT_TYPE}"
      "t = CLUSTER_TYPE \<longrightarrow> dr_type_url resp = ROUTE_TYPE"
proof -
  have "(\<exists>t names. updates_subscriptions updates = [(t, names)] \<and> sorted_unique names = names \<and>
       names \<noteq> [] \<and> t \<in> {ROUTE_TYPE, CLUSTER_TYPE, ENDPOINT_TYPE} \<and>
       (t = CLUSTER_TYPE \<longrightarrow> dr_type_url resp = ROUTE_TYPE)) \<or> updates_subscriptions updates = []"
    using assms
    by (auto simp: apply_response_def apply_listeners_def apply_routes_def apply_clusters_def
        apply_endpoints_def Let_def updates_subscriptions_def updates_default_def
        names_of_state_sorted split: if_splits prod.splits)
  then show thesis using that by blast
qed

section \<open>The session as a pure state machine\<close>

text \<open>
  What a response does to the state when nothing fails: it is applied and the follow-up
  subscriptions are recorded.  \<open>ads_configs\<close> lists the configuration after each response.
\<close>

definition ads_next :: "decoders \<Rightarrow> AdsState \<Rightarrow> DiscoveryResponse \<Rightarrow> AdsState" where
  "ads_next D s resp =
     (case apply_response D s resp of
        (s', Ok updates) \<Rightarrow>
          fold (\<lambda>(t, names) s. snd (set_subscription s t names)) (updates_subscriptions updates) s'
      | (s', Err e) \<Rightarrow> s')"

fun ads_configs :: "decoders \<Rightarrow> AdsState \<Rightarrow> DiscoveryResponse list \<Rightarrow> RuntimeConfig list" where
  "ads_configs D s [] = []"
| "ads_configs D s (resp # rest) =
     (let s' = ads_next D s resp in runtime_config s' (dr_version_info resp) # ads_configs D s' rest)"

lemma send_updates_state:
  "send_updates T n s q us = (s', q', Ok u) \<Longrightarrow>
     s' = fold (\<lambda>(t, names) s. snd (set_subscription s t names)) us s"
  by (induction T n s q us rule: send_updates.induct)
    (auto split: prod.splits if_splits result.splits)

lemma fold_set_subscription:
  "as_listeners (fold (\<lambda>(t, names) s. snd (set_subscription s t names)) us s) = as_listeners s"
  "as_routes (fold (\<lambda>(t, names) s. snd (set_subscription s t names)) us s) = as_routes s"
  "ads_inv s \<Longrightarrow> ads_inv (fold (\<lambda>(t, names) s. snd (set_subscription s t names)) us s)"
    apply (induction us arbitrary: s)
       apply (auto simp: set_subscription_inv)
   apply (simp_all add: set_subscription_def Let_def)
  done

lemma ads_next_listeners: "as_listeners (ads_next D s resp) = as_listeners (fst (apply_response D s resp))"
  and ads_next_routes: "as_routes (ads_next D s resp) = as_routes (fst (apply_response D s resp))"
  and ads_next_inv: "ads_inv s \<Longrightarrow> ads_inv (ads_next D s resp)"
  using apply_response_inv [of s D resp]
  by (auto simp: ads_next_def fold_set_subscription split: prod.splits result.splits)

lemma handle_response_Ok:
  assumes "handle_response T D n se resp = (se', Ok u)"
  obtains updates s q where
    "apply_response D (se_state se) resp = (s, Ok updates)"
    "send_discovery_request T (se_requests se) n (dr_type_url resp)
       (subscription s (dr_type_url resp)) (dr_version_info resp) (dr_nonce resp) = (q, Ok ())"
    "send_updates T n s q (updates_subscriptions updates) = (se_state se', se_requests se', Ok ())"
    "publish T (se_watch se) (runtime_config (se_state se') (dr_version_info resp)) = (se_watch se', Ok ())"
  using assms by (auto simp: handle_response_def split: prod.splits result.splits)

lemma handle_response_refines:
  assumes "watch_law T published" and "handle_response T D n se resp = (se', Ok u)"
  shows "se_state se' = ads_next D (se_state se) resp"
    and "tp_borrow T (se_watch se') =
      last (tp_borrow T (se_watch se) #
        filter (\<lambda>cfg. is_ok (validate cfg)) [runtime_config (se_state se') (dr_version_info resp)])"
proof -
  obtain updates s q where h: "apply_response D (se_state se) resp = (s, Ok updates)"
    "send_updates T n s q (updates_subscriptions updates) = (se_state se', se_requests se', Ok ())"
    "publish T (se_watch se) (runtime_config (se_state se') (dr_version_info resp)) = (se_watch se', Ok ())"
    using assms(2) by (rule handle_response_Ok)
  show "se_state se' = ads_next D (se_state se) resp"
    using send_updates_state [OF h(2)] h(1) by (simp add: ads_next_def)
  show "tp_borrow T (se_watch se') =
      last (tp_borrow T (se_watch se) #
        filter (\<lambda>cfg. is_ok (validate cfg)) [runtime_config (se_state se') (dr_version_info resp)])"
    using publish_Ok_borrow [OF assms(1) h(3)] by simp
qed

lemma stream_loop_pure:
  assumes "watch_law T published" and "stream_loop T D n se items = (se', Ok u)"
  shows "\<exists>resps. items = map Message resps \<and>
     se_state se' = foldl (ads_next D) (se_state se) resps \<and>
     tp_borrow T (se_watch se') =
       last (tp_borrow T (se_watch se) #
         filter (\<lambda>cfg. is_ok (validate cfg)) (ads_configs D (se_state se) resps))"
  using assms(2)
proof (induction items arbitrary: se)
  case Nil
  then show ?case by simp
next
  case (Cons item items)
  then obtain resp where item: "item = Message resp" by (cases item) auto
  with Cons.prems obtain se1 where h: "handle_response T D n se resp = (se1, Ok ())"
    and l: "stream_loop T D n se1 items = (se', Ok u)"
    by (auto split: prod.splits result.splits)
  from Cons.IH [OF l] obtain resps where r: "items = map Message resps"
    "se_state se' = foldl (ads_next D) (se_state se1) resps"
    "tp_borrow T (se_watch se') = last (tp_borrow T (se_watch se1) #
         filter (\<lambda>cfg. is_ok (validate cfg)) (ads_configs D (se_state se1) resps))"
    by blast
  note s1 = handle_response_refines [OF assms(1) h]
  show ?case
    using r s1 by (intro exI [of _ "resp # resps"]) (simp add: item Let_def)
qed

lemma handle_response_sent:
  assumes "queue_law T sent" and "handle_response T D n se resp = (se', Ok u)"
  shows "\<exists>updates. snd (apply_response D (se_state se) resp) = Ok updates \<and>
     sent (se_requests se') = sent (se_requests se) @
       discovery_request n (dr_type_url resp) (subscription (se_state se) (dr_type_url resp))
         (dr_version_info resp) (dr_nonce resp) #
       map (\<lambda>(t, names). discovery_request n t names [] [])
         (filter (\<lambda>(t, names). bt_get (as_subscriptions (se_state se)) t \<noteq> Some names)
            (updates_subscriptions updates))"
proof -
  obtain updates s q where h: "apply_response D (se_state se) resp = (s, Ok updates)"
    "send_discovery_request T (se_requests se) n (dr_type_url resp)
       (subscription s (dr_type_url resp)) (dr_version_info resp) (dr_nonce resp) = (q, Ok ())"
    "send_updates T n s q (updates_subscriptions updates) = (se_state se', se_requests se', Ok ())"
    using assms(2) by (rule handle_response_Ok)
  have subs: "as_subscriptions s = as_subscriptions (se_state se)"
    using apply_response_subscriptions [of D "se_state se" resp] h(1) by simp
  have ack: "sent q = sent (se_requests se) @
      [discovery_request n (dr_type_url resp) (subscription (se_state se) (dr_type_url resp))
         (dr_version_info resp) (dr_nonce resp)]"
    using send_discovery_request_sent [OF assms(1) h(2)] subs by (simp add: subscription_def)
  from h(1) show ?thesis
  proof (cases rule: updates_subscriptions_cases)
    case 1
    then show ?thesis using h ack by (intro exI [of _ updates]) auto
  next
    case (2 t names)
    then have "sent (se_requests se') = sent q @
        (if bt_get (as_subscriptions (se_state se)) t = Some names then []
         else [discovery_request n t names [] []])"
      using h(3)
      by (auto simp: set_subscription_def Let_def subs dest!: send_discovery_request_sent [OF assms(1)]
          split: prod.splits if_splits result.splits)
    then show ?thesis using 2 h(1) ack by (intro exI [of _ updates]) auto
  qed
qed

text \<open>The requests a response, or a whole stream, can lead to.\<close>

definition request_ok :: "Node \<Rightarrow> string set \<Rightarrow> DiscoveryRequest \<Rightarrow> bool" where
  "request_ok n types q =
     (dq_node q = Some n \<and> dq_error_detail q = None \<and>
      (dq_type_url q = CLUSTER_TYPE \<longrightarrow> types \<inter> {ROUTE_TYPE, CLUSTER_TYPE} \<noteq> {}))"

lemma request_ok_mono: "request_ok n A q \<Longrightarrow> A \<subseteq> B \<Longrightarrow> request_ok n B q"
  by (auto simp: request_ok_def)

lemma send_updates_sent:
  assumes "queue_law T sent"
  shows "send_updates T n s q us = (s', q', r) \<Longrightarrow>
     \<exists>new. sent q' = sent q @ new \<and>
       (\<forall>x\<in>set new. \<exists>(t, names)\<in>set us. x = discovery_request n t names [] [])"
proof (induction us arbitrary: s q)
  case (Cons u us)
  obtain t names where u: "u = (t, names)" by fastforce
  obtain changed s1 where c: "set_subscription s t names = (changed, s1)" by fastforce
  obtain q1 r1 where d: "send_discovery_request T q n t names [] [] = (q1, r1)" by fastforce
  note sent1 = send_discovery_request_sent [OF assms d]
  show ?case
  proof (cases "changed \<and> \<not> is_ok r1")
    case True
    then show ?thesis
      using Cons.prems sent1 by (auto simp: u c d split: result.splits)
  next
    case False
    then obtain q2 where "send_updates T n s1 q2 us = (s', q', r)"
      and q2: "sent q2 = sent q @ (if changed then [discovery_request n t names [] []] else [])"
      using Cons.prems sent1 by (cases r1) (auto simp: u c d split: if_splits)
    from Cons.IH [OF this(1)] obtain new where new: "sent q' = sent q2 @ new"
      "\<forall>x\<in>set new. \<exists>(t, names)\<in>set us. x = discovery_request n t names [] []"
      by blast
    show ?thesis
      using new q2 by (auto simp: u)
  qed
qed auto

lemma handle_response_requests:
  assumes "queue_law T sent" and "handle_response T D n se resp = (se', r)"
  shows "\<exists>new. sent (se_requests se') = sent (se_requests se) @ new \<and>
     list_all (request_ok n {dr_type_url resp}) new"
proof -
  obtain s ru where a: "apply_response D (se_state se) resp = (s, ru)" by fastforce
  obtain q rq where d: "send_discovery_request T (se_requests se) n (dr_type_url resp)
      (subscription s (dr_type_url resp)) (dr_version_info resp) (dr_nonce resp) = (q, rq)"
    by fastforce
  note ack = send_discovery_request_sent [OF assms(1) d]
  show ?thesis
  proof (cases "is_ok ru \<and> is_ok rq")
    case False
    then have "sent (se_requests se') \<in> {sent (se_requests se), sent q}"
      using assms(2) by (auto simp: handle_response_def a d split: result.splits)
    with ack show ?thesis
      by (auto simp: request_ok_def discovery_request_def)
  next
    case True
    then obtain updates where u: "ru = Ok updates" and o: "rq = Ok ()" by (cases ru; cases rq) auto
    obtain s' q' r' where up: "send_updates T n s q (updates_subscriptions updates) = (s', q', r')"
      by (metis prod_cases3)
    then have q': "se_requests se' = q'"
      using assms(2) by (auto simp: handle_response_def a d u o split: result.splits prod.splits)
    obtain new where new: "sent q' = sent q @ new"
      "\<forall>x\<in>set new. \<exists>(t, names)\<in>set (updates_subscriptions updates). x = discovery_request n t names [] []"
      using send_updates_sent [OF assms(1) up] by blast
    from a [unfolded u] have "list_all (request_ok n {dr_type_url resp}) new"
      by (cases rule: updates_subscriptions_cases)
        (use new(2) in \<open>auto simp: list_all_iff request_ok_def discovery_request_def\<close>)
    with ack q' new(1) o show ?thesis
      by (auto simp: request_ok_def discovery_request_def)
  qed
qed

lemma stream_loop_requests:
  assumes "queue_law T sent"
  shows "stream_loop T D n se items = (se', r) \<Longrightarrow>
     \<exists>new. sent (se_requests se') = sent (se_requests se) @ new \<and>
       list_all (request_ok n {dr_type_url resp |resp. Message resp \<in> set items}) new"
proof (induction items arbitrary: se)
  case (Cons item items)
  show ?case
  proof (cases item)
    case (StreamStatus e)
    with Cons.prems show ?thesis by auto
  next
    case (Message resp)
    obtain se1 r1 where h: "handle_response T D n se resp = (se1, r1)" by fastforce
    obtain new1 where new1: "sent (se_requests se1) = sent (se_requests se) @ new1"
      "list_all (request_ok n {dr_type_url resp}) new1"
      using handle_response_requests [OF assms h] by blast
    have "\<exists>new2. sent (se_requests se') = sent (se_requests se1) @ new2 \<and>
       list_all (request_ok n {dr_type_url resp |resp. Message resp \<in> set items}) new2"
      using Cons.prems Cons.IH [of se1] Message h by (cases r1) auto
    then obtain new2 where new2: "sent (se_requests se') = sent (se_requests se1) @ new2"
       "list_all (request_ok n {dr_type_url resp |resp. Message resp \<in> set items}) new2"
      by blast
    let ?all = "{dr_type_url resp |resp. Message resp \<in> set (item # items)}"
    have "list_all (request_ok n ?all) new1" "list_all (request_ok n ?all) new2"
      using new1(2) new2(2) Message request_ok_mono [of n "{dr_type_url resp}" _ ?all]
        request_ok_mono [of n "{dr_type_url resp |resp. Message resp \<in> set items}" _ ?all]
      unfolding list_all_iff by fastforce+
    with new1(1) new2(1) show ?thesis
      by (intro exI [of _ "new1 @ new2"]) simp
  qed
qed simp

section \<open>Errors\<close>

lemma apply_response_Err:
  assumes "snd (apply_response D s resp) = Err e"
  shows "\<exists>type_url source. e = Decode type_url source"
proof -
  have "listener_snapshot D l = Err e \<Longrightarrow> \<exists>type_url source. e = Decode type_url source" for l
    using listener_snapshot_Err by blast
  then show ?thesis
    using assms
    by (auto simp: apply_response_def apply_listeners_def apply_routes_def apply_clusters_def
        apply_endpoints_def Let_def case_prod_beta and_then_eq_Err insert_listener_def
        insert_route_def insert_cluster_def insert_assignment_def decode_resource_def
        map_err_eq_Err dest!: try_for_each_Err split: if_splits)
qed

lemma send_updates_Err: "send_updates T n s q us = (s', q', Err e) \<Longrightarrow> e = RequestChannelClosed"
  by (induction T n s q us rule: send_updates.induct)
    (auto simp: send_discovery_request_def split: prod.splits if_splits result.splits option.splits)

lemma handle_response_Err:
  "handle_response T D n se resp = (se', Err e) \<Longrightarrow>
     (\<exists>type_url source. e = Decode type_url source) \<or> e = RequestChannelClosed \<or> e = RuntimeConfigClosed"
  using apply_response_Err [of D "se_state se" resp e]
  by (auto simp: handle_response_def publish_def send_discovery_request_def
      dest: send_updates_Err split: prod.splits result.splits option.splits if_splits)

lemma stream_loop_Err: "stream_loop T D n se items \<noteq> (se', Err (InvalidEndpoint endpoint source))"
  by (induction T D n se items rule: stream_loop.induct)
    (auto split: prod.splits result.splits dest: handle_response_Err)

lemma run_once_invalid_endpoint:
  "run_once T D cfg at w = (w', Err (InvalidEndpoint endpoint source)) \<longleftrightarrow>
     w' = w \<and> endpoint = xcc_endpoint cfg \<and> tp_from_shared T (xcc_endpoint cfg) = Err source"
  by (auto simp: stream_loop_Err run_once_def connect_channel_def start_session_def send_discovery_request_def Let_def
      map_err_eq_Err and_then_eq_Err split: prod.splits result.splits option.splits)

section \<open>Which responses are accepted\<close>

text \<open>Whether a response is accepted depends on its resources only, not on the state.\<close>

definition resource_decodes :: "decoders \<Rightarrow> string \<Rightarrow> Any \<Rightarrow> bool" where
  "resource_decodes D type_url resource =
     (if type_url = LISTENER_TYPE then
        (case dec_listener D (any_value resource) of
           Ok listener \<Rightarrow> is_ok (listener_snapshot D listener) | Err _ \<Rightarrow> False)
      else if type_url = ROUTE_TYPE then is_ok (dec_route D (any_value resource))
      else if type_url = CLUSTER_TYPE then is_ok (dec_cluster D (any_value resource))
      else if type_url = ENDPOINT_TYPE then is_ok (dec_assignment D (any_value resource))
      else True)"

definition response_decodes :: "decoders \<Rightarrow> DiscoveryResponse \<Rightarrow> bool" where
  "response_decodes D resp = list_all (resource_decodes D (dr_type_url resp)) (dr_resources resp)"

lemma insert_is_ok:
  "is_ok (insert_listener D m x) \<longleftrightarrow> resource_decodes D LISTENER_TYPE x"
  "is_ok (insert_route D m' x) \<longleftrightarrow> resource_decodes D ROUTE_TYPE x"
  "is_ok (insert_cluster D s x) \<longleftrightarrow> resource_decodes D CLUSTER_TYPE x"
  "is_ok (insert_assignment D m'' x) \<longleftrightarrow> resource_decodes D ENDPOINT_TYPE x"
proof -
  show "is_ok (insert_listener D m x) \<longleftrightarrow> resource_decodes D LISTENER_TYPE x"
  proof (cases "dec_listener D (any_value x)")
    case (Ok listener)
    then show ?thesis
      by (cases "listener_snapshot D listener")
        (simp_all add: insert_listener_def resource_decodes_def decode_resource_def)
  qed (simp add: insert_listener_def resource_decodes_def decode_resource_def)
  show "is_ok (insert_route D m' x) \<longleftrightarrow> resource_decodes D ROUTE_TYPE x"
    by (cases "dec_route D (any_value x)")
      (simp_all add: insert_route_def resource_decodes_def decode_resource_def)
  show "is_ok (insert_cluster D s x) \<longleftrightarrow> resource_decodes D CLUSTER_TYPE x"
    by (cases "dec_cluster D (any_value x)")
      (simp_all add: insert_cluster_def resource_decodes_def decode_resource_def Let_def)
  show "is_ok (insert_assignment D m'' x) \<longleftrightarrow> resource_decodes D ENDPOINT_TYPE x"
    by (cases "dec_assignment D (any_value x)")
      (simp_all add: insert_assignment_def resource_decodes_def decode_resource_def)
qed

lemma is_ok_and_then_Ok: "is_ok (and_then r (\<lambda>x. Ok (f x))) = is_ok r"
  by (cases r) auto

lemma apply_response_is_ok: "is_ok (snd (apply_response D s resp)) \<longleftrightarrow> response_decodes D resp"
  by (simp add: apply_response_def apply_listeners_def apply_routes_def apply_clusters_def
      apply_endpoints_def Let_def case_prod_beta is_ok_and_then_Ok response_decodes_def
      try_for_each_is_ok insert_is_ok)
    (simp add: resource_decodes_def list_all_iff)

text \<open>
  Both channels have a receiver: tokio's sends fail only when it is gone.  The receiver of the
  requests lives as long as the stream, that of the cell as long as the configuration task.
\<close>

definition never_fails :: "('q, 'w) transport \<Rightarrow> bool" where
  "never_fails T = ((\<forall>q r. tp_request_send T q r \<noteq> None) \<and> (\<forall>w cfg. tp_config_send T w cfg \<noteq> None))"

lemma send_never_fails:
  "never_fails T \<Longrightarrow> \<exists>q'. send_discovery_request T q n t names v nonce = (q', Ok ())"
  by (simp add: never_fails_def send_discovery_request_def) (metis option.simps(5))

lemma publish_never_fails:
  assumes "never_fails T"
  shows "\<exists>w'. publish T w cfg = (w', Ok ())"
proof -
  obtain w' where "tp_config_send T w cfg = Some w'"
    using assms unfolding never_fails_def by blast
  then show ?thesis by (simp add: publish_def split: result.split)
qed

lemma send_updates_never_fails:
  assumes "never_fails T"
  shows "\<exists>s' q'. send_updates T n s q us = (s', q', Ok ())"
proof (induction us arbitrary: s q)
  case (Cons u us)
  obtain t names where u: "u = (t, names)" by fastforce
  obtain q' where "send_discovery_request T q n t names [] [] = (q', Ok ())"
    using send_never_fails [OF assms] by blast
  with Cons.IH u show ?case by (auto split: prod.splits)
qed simp

lemma handle_response_is_ok:
  assumes "never_fails T"
  shows "is_ok (snd (handle_response T D n se resp)) \<longleftrightarrow> response_decodes D resp"
proof -
  obtain s ru where a: "apply_response D (se_state se) resp = (s, ru)" by fastforce
  show ?thesis
  proof (cases ru)
    case (Ok updates)
    obtain q where q: "send_discovery_request T (se_requests se) n (dr_type_url resp)
        (subscription s (dr_type_url resp)) (dr_version_info resp) (dr_nonce resp) = (q, Ok ())"
      using send_never_fails [OF assms] by blast
    obtain s' q' where "send_updates T n s q (updates_subscriptions updates) = (s', q', Ok ())"
      using send_updates_never_fails [OF assms] by blast
    moreover obtain w' where
      "publish T (se_watch se) (runtime_config s' (dr_version_info resp)) = (w', Ok ())"
      using publish_never_fails [OF assms] by blast
    ultimately show ?thesis
      using apply_response_is_ok [of D "se_state se" resp] by (simp add: handle_response_def a Ok q)
  next
    case (Err e)
    then show ?thesis
      using apply_response_is_ok [of D "se_state se" resp] by (simp add: handle_response_def a)
  qed
qed

lemma stream_loop_is_ok:
  assumes "never_fails T"
  shows "is_ok (snd (stream_loop T D n se (map Message resps))) \<longleftrightarrow> list_all (response_decodes D) resps"
proof (induction resps arbitrary: se)
  case (Cons resp resps)
  obtain se1 r1 where h: "handle_response T D n se resp = (se1, r1)" by fastforce
  show ?case
    using handle_response_is_ok [OF assms, of D n se resp] Cons.IH [of se1] h by (cases r1) auto
qed simp

section \<open>A sample transport\<close>

text \<open>A queue that never closes and a cell with its history.\<close>

definition sample_transport :: "(DiscoveryRequest list, RuntimeConfig \<times> RuntimeConfig list) transport" where
  "sample_transport =
     \<lparr>tp_from_shared = \<lambda>endpoint. if endpoint = [] then Err ''empty'' else Ok (),
      tp_channel = [], tp_request_send = \<lambda>q r. Some (q @ [r]),
      tp_borrow = \<lambda>w. last (fst w # snd w),
      tp_config_send = \<lambda>w cfg. Some (fst w, snd w @ [cfg])\<rparr>"

lemma sample_transport_laws:
  "watch_law sample_transport (\<lambda>w. fst w # snd w)" "queue_law sample_transport (\<lambda>q. q)"
  "never_fails sample_transport"
  by (simp_all add: watch_law_def queue_law_def never_fails_def sample_transport_def)

lemma sample_response_decodes: "response_decodes sample_decoders (sample_response type_url)"
  using sample_decode_any [of "[]"]
  by (simp add: response_decodes_def sample_response_def resource_decodes_def decode_resource_def
      sample_conversions)

definition sample_client :: XdsClientConfig where
  "sample_client = \<lparr>xcc_endpoint = ''http://dubbod:15010'', xcc_identity =
     \<lparr>ri_pod_name = ''dxgate'', ri_namespace = ''app'', ri_pod_ip = ''10.0.0.10'', ri_node_name = None,
      ri_cluster_id = ''Kubernetes'', ri_dns_domain = ''svc.cluster.local''\<rparr>,
     xcc_listener_names = [''dxgate.app:80''], xcc_reconnect_delay = 2\<rparr>"

definition sample_session :: "(DiscoveryRequest list, RuntimeConfig \<times> RuntimeConfig list) session" where
  "sample_session = fst (start_session sample_transport sample_client (config_empty ''bootstrap'', []))"

lemma sample_session_started:
  "start_session sample_transport sample_client (config_empty ''bootstrap'', []) = (sample_session, Ok ())"
  by (simp add: sample_session_def start_session_def Let_def send_discovery_request_def
      sample_transport_def)

lemma handle_sample:
  "handle_response sample_transport sample_decoders n se (sample_response type_url) =
     (fst (handle_response sample_transport sample_decoders n se (sample_response type_url)), Ok ())"
proof -
  have "is_ok (snd (handle_response sample_transport sample_decoders n se (sample_response type_url)))"
    by (simp add: handle_response_is_ok sample_transport_laws sample_response_decodes)
  then show ?thesis
    by (cases "handle_response sample_transport sample_decoders n se (sample_response type_url)")
      (auto simp: is_ok_iff)
qed

definition sample_resps :: "DiscoveryResponse list" where
  "sample_resps = map sample_response [LISTENER_TYPE, ROUTE_TYPE, CLUSTER_TYPE, ENDPOINT_TYPE]"

lemma sample_loop:
  "stream_loop sample_transport sample_decoders n se (map Message sample_resps) =
     (fst (stream_loop sample_transport sample_decoders n se (map Message sample_resps)), Ok ())"
  unfolding sample_resps_def list.map stream_loop.simps
  by (subst (1 2) handle_sample, simp only: prod.case result.case)+ (simp del: handle_sample)

section \<open>Properties\<close>

text \<open>
  C7: whatever the control plane sends over any number of connections, and wherever the transport
  fails, the client only ever publishes valid configurations, and never the same one twice in a row.
\<close>

theorem run_publishes_only_valid:
  assumes "watch_law T published"
  shows "grows_validly (published w) (published (watch_of (run T D cfg attempts w)))"
  using assms by (rule run_grows)

text \<open>
  C13: a session that ends without error has processed exactly the messages received, as the pure
  state machine does, and the watch cell holds the configuration after the last response that
  made it complete (or what it held before, if none did).
\<close>

theorem stream_loop_refines:
  assumes "watch_law T published" and "stream_loop T D n se items = (se', Ok u)"
  shows "\<exists>resps. items = map Message resps \<and>
     se_state se' = foldl (ads_next D) (se_state se) resps \<and>
     tp_borrow T (se_watch se') =
       last (tp_borrow T (se_watch se) #
         filter (\<lambda>cfg. is_ok (validate cfg)) (ads_configs D (se_state se) resps))"
  by (rule stream_loop_pure [OF assms])

text \<open>
  C18: a response that is handled is answered by exactly one acknowledgement, with its own type,
  version and nonce and the names subscribed for the type, followed by one request for each
  follow-up subscription that changed.
\<close>

theorem handle_response_acknowledges:
  assumes "queue_law T sent" and "handle_response T D n se resp = (se', Ok u)"
  shows "\<exists>updates. snd (apply_response D (se_state se) resp) = Ok updates \<and>
     sent (se_requests se') = sent (se_requests se) @
       discovery_request n (dr_type_url resp) (subscription (se_state se) (dr_type_url resp))
         (dr_version_info resp) (dr_nonce resp) #
       map (\<lambda>(t, names). discovery_request n t names [] [])
         (filter (\<lambda>(t, names). bt_get (as_subscriptions (se_state se)) t \<noteq> Some names)
            (updates_subscriptions updates))"
  by (rule handle_response_sent [OF assms])

text \<open>
  C24: the client gives up only on an endpoint that is not a valid address: with any other
  failure, and at any number of failures, it keeps reconnecting; with an invalid endpoint it
  returns that error at the first attempt and has published nothing.
\<close>

theorem run_returns_iff_invalid_endpoint:
  "(case run T D cfg attempts w of
      Returned e w' \<Rightarrow> w' = w \<and> attempts \<noteq> [] \<and>
        (\<exists>source. tp_from_shared T (xcc_endpoint cfg) = Err source \<and>
                  e = InvalidEndpoint (xcc_endpoint cfg) source)
    | Running w' \<Rightarrow> attempts = [] \<or> is_ok (tp_from_shared T (xcc_endpoint cfg)))"
proof (cases "tp_from_shared T (xcc_endpoint cfg)")
  case (Ok u)
  then have "\<exists>w'. run T D cfg attempts w = Running w'"
  proof (induction attempts arbitrary: w)
    case (Cons at rest)
    then show ?case
      using run_once_invalid_endpoint [of T D cfg at w]
      by (auto split: prod.splits result.splits XdsError.splits)
  qed simp
  with Ok show ?thesis by auto
next
  case (Err source)
  then have "run_once T D cfg at w = (w, Err (InvalidEndpoint (xcc_endpoint cfg) source))" for at
    by (simp add: run_once_invalid_endpoint)
  with Err show ?thesis by (cases attempts) auto
qed

text \<open>
  C25: every request of a session carries the router's node and none carries an error detail, so
  no response is ever rejected explicitly: one that does not decode ends the session unanswered.
  Clusters are requested only after a route or cluster response.
\<close>

theorem session_requests:
  assumes "queue_law T sent" and "stream_loop T D n se items = (se', r)"
  shows "\<exists>new. sent (se_requests se') = sent (se_requests se) @ new \<and>
     (\<forall>q\<in>set new. dq_node q = Some n \<and> dq_error_detail q = None \<and>
        (dq_type_url q = CLUSTER_TYPE \<longrightarrow>
          (\<exists>resp. Message resp \<in> set items \<and> dr_type_url resp \<in> {ROUTE_TYPE, CLUSTER_TYPE})))"
  using stream_loop_requests [OF assms]
  by (fastforce simp: list_all_iff request_ok_def)


text \<open>
  C23: when the transport does not fail, a session processes every message it receives exactly
  when every resource in them decodes; the first one that does not ends the session.
\<close>

theorem stream_loop_total:
  assumes "never_fails T"
  shows "is_ok (snd (stream_loop T D n se (map Message resps))) \<longleftrightarrow> list_all (response_decodes D) resps"
  by (rule stream_loop_is_ok [OF assms])

theorem stream_loop_total_witness:
  "is_ok (snd (stream_loop sample_transport sample_decoders (node sample_client) sample_session
     (map Message (map sample_response [LISTENER_TYPE, ROUTE_TYPE, CLUSTER_TYPE, ENDPOINT_TYPE]))))"
  by (subst stream_loop_total) (simp_all add: sample_transport_laws sample_response_decodes)

theorem run_publishes_only_valid_witness:
  "grows_validly [config_empty ''bootstrap'']
     ((\<lambda>w. fst w # snd w) (watch_of (run sample_transport sample_decoders sample_client
        [\<lparr>at_connect = Ok (), at_open = Ok [Message (sample_response LISTENER_TYPE)]\<rparr>]
        (config_empty ''bootstrap'', []))))"
  using run_publishes_only_valid [OF sample_transport_laws(1), of "(config_empty ''bootstrap'', [])"
      sample_decoders sample_client
      "[\<lparr>at_connect = Ok (), at_open = Ok [Message (sample_response LISTENER_TYPE)]\<rparr>]"]
  by (simp only: fst_conv snd_conv)

theorem stream_loop_refines_witness:
  "\<exists>resps. map Message sample_resps = map Message resps \<and>
     se_state (fst (stream_loop sample_transport sample_decoders (node sample_client) sample_session
       (map Message sample_resps))) = foldl (ads_next sample_decoders) (se_state sample_session) resps \<and>
     tp_borrow sample_transport (se_watch (fst (stream_loop sample_transport sample_decoders
       (node sample_client) sample_session (map Message sample_resps)))) =
       last (tp_borrow sample_transport (se_watch sample_session) #
         filter (\<lambda>cfg. is_ok (validate cfg)) (ads_configs sample_decoders (se_state sample_session) resps))"
  by (rule stream_loop_refines [OF sample_transport_laws(1) sample_loop])

theorem handle_response_acknowledges_witness:
  "\<exists>updates. snd (apply_response sample_decoders (se_state sample_session) (sample_response LISTENER_TYPE)) =
       Ok updates \<and>
     se_requests (fst (handle_response sample_transport sample_decoders (node sample_client) sample_session
       (sample_response LISTENER_TYPE))) = se_requests sample_session @
       discovery_request (node sample_client) LISTENER_TYPE
         (subscription (se_state sample_session) LISTENER_TYPE) ''v1'' ''nonce'' #
       map (\<lambda>(t, names). discovery_request (node sample_client) t names [] [])
         (filter (\<lambda>(t, names). bt_get (as_subscriptions (se_state sample_session)) t \<noteq> Some names)
            (updates_subscriptions updates))"
  using handle_response_acknowledges [OF sample_transport_laws(2)
      handle_sample [of "node sample_client" sample_session LISTENER_TYPE]]
  by (simp add: sample_response_def)

theorem session_requests_witness:
  "\<exists>new. se_requests (fst (stream_loop sample_transport sample_decoders (node sample_client)
       sample_session (map Message sample_resps))) = se_requests sample_session @ new \<and>
     list_all (\<lambda>q. dq_node q = Some (node sample_client) \<and> dq_error_detail q = None) new"
proof -
  obtain new where "se_requests (fst (stream_loop sample_transport sample_decoders (node sample_client)
       sample_session (map Message sample_resps))) = se_requests sample_session @ new"
    "\<forall>q\<in>set new. dq_node q = Some (node sample_client) \<and> dq_error_detail q = None"
    using session_requests [OF sample_transport_laws(2) sample_loop] by meson
  then show ?thesis unfolding list_all_iff by blast
qed

text \<open>
  The first listener response of a session whose listeners have no inline routes gives a
  configuration without virtual hosts, which is valid and so published at once.
\<close>

lemma first_listeners_published:
  assumes "watch_law T published" and "start_session T cfg w = (se, Ok u)"
    and "handle_response T D (node cfg) se resp = (se', Ok v)" and "dr_type_url resp = LISTENER_TYPE"
    and "\<forall>snap\<in>set (bt_values (as_listeners (se_state se'))). ls_inline_virtual_hosts snap = []"
  shows "tp_borrow T (se_watch se') = runtime_config (se_state se') (dr_version_info resp)"
    and "l \<in> set (rc_listeners (runtime_config (se_state se') x)) \<Longrightarrow> l_virtual_hosts l = []"
proof -
  have se: "se_state se = snd (set_subscription ads_default LISTENER_TYPE
      (sorted_unique (xcc_listener_names cfg)))"
    using assms(2) by (auto simp: start_session_def Let_def split: prod.splits)
  note r = handle_response_refines [OF assms(1,3)]
  have "as_routes (fst (apply_response D (se_state se) resp)) = []"
    by (simp add: apply_response_def assms(4) apply_listeners_def Let_def case_prod_beta se
        set_subscription_def ads_default_def)
  then have routes: "as_routes (se_state se') = []"
    by (simp add: r(1) ads_next_routes)
  have inv: "ads_inv (se_state se')"
    by (simp add: r(1) ads_next_inv se ads_wf)
  have hosts: "l_virtual_hosts l = []" if "l \<in> set (rc_listeners (runtime_config (se_state se') x))" for l x
    using that assms(5) by (auto simp: runtime_config_def snapshot_listener_def routes bt.get_empty)
  then have "referenced_clusters (se_state se') = {}"
    by (simp add: referenced_clusters_def vhost_clusters_def)
  then have "is_ok (validate (runtime_config (se_state se') x))" for x
    using violated_kinds_runtime_config [OF inv]
    by (simp add: is_ok_validate config_ok_iff_violated_kinds)
  with r(2) show "tp_borrow T (se_watch se') = runtime_config (se_state se') (dr_version_info resp)" by simp
  show "l \<in> set (rc_listeners (runtime_config (se_state se') x)) \<Longrightarrow> l_virtual_hosts l = []" by (rule hosts)
qed

text \<open>
  C26: a new session starts from an empty state, and its first listener response, when none of
  its listeners has inline virtual hosts, is published at once: the configuration it replaces is
  gone, and the published one has no routes, so whatever was served before, every request on
  every port is answered with route-not-found.
\<close>

theorem reconnect_drops_routes:
  assumes "watch_law T published"
    and "start_session T cfg w = (se, Ok u)"
    and "handle_response T D (node cfg) se resp = (se', Ok v)"
    and "dr_type_url resp = LISTENER_TYPE"
    and "\<forall>snap\<in>set (bt_values (as_listeners (se_state se'))). ls_inline_virtual_hosts snap = []"
  shows "tp_borrow T (se_watch se') = runtime_config (se_state se') (dr_version_info resp) \<and>
    route_for (tp_borrow T (se_watch se')) port input = Err (RouteNotFound (in_host input) (in_path input))"
proof -
  note p = first_listeners_published [OF assms]
  have "\<not> (\<exists>rt. route_for (runtime_config (se_state se') (dr_version_info resp)) port input = Ok rt)"
    using p(2) by (auto simp: config_routes_def dest!: route_for_Ok_in_routes)
  with p(1) show ?thesis
    using route_for_error_value
    by (cases "route_for (runtime_config (se_state se') (dr_version_info resp)) port input") auto
qed

lemma sample_first_listeners:
  fixes se' :: "(DiscoveryRequest list, RuntimeConfig \<times> RuntimeConfig list) session"
  defines "se' \<equiv> fst (handle_response sample_transport sample_decoders (node sample_client) sample_session
      (sample_response LISTENER_TYPE))"
  shows "\<forall>snap\<in>set (bt_values (as_listeners (se_state se'))). ls_inline_virtual_hosts snap = []"
proof -
  have s: "se_state sample_session = ads_default\<lparr>as_subscriptions := [(LISTENER_TYPE, [''dxgate.app:80''])]\<rparr>"
    by (simp add: sample_session_def start_session_def Let_def set_subscription_def ads_default_def
        bt.get_empty sample_client_def sorted_unique_def bset_insert_def split: prod.splits)
  have "as_listeners (fst (apply_response sample_decoders (se_state sample_session)
      (sample_response LISTENER_TYPE))) = [(''dxgate.app:80'', sample_snapshot)]"
    by (simp add: s apply_response_def sample_response_def apply_listeners_def Let_def
        insert_listener_def sample_decode_any sample_conversions ads_default_def subscription_def
        bt_get_def prune_requested_def sample_snapshot_def bt_remove_def)
  then have "as_listeners (se_state se') = [(''dxgate.app:80'', sample_snapshot)]"
    using handle_response_refines(1) [OF sample_transport_laws(1)
        handle_sample [of "node sample_client" sample_session LISTENER_TYPE]]
    by (simp add: ads_next_listeners se'_def)
  then show ?thesis by (simp add: bt_values_def sample_snapshot_def)
qed

theorem reconnect_drops_routes_witness:
  "route_for (tp_borrow sample_transport (se_watch (fst (handle_response sample_transport sample_decoders
      (node sample_client) sample_session (sample_response LISTENER_TYPE))))) 80 sample_input =
    Err (RouteNotFound (in_host sample_input) (in_path sample_input))"
proof -
  have "dr_type_url (sample_response LISTENER_TYPE) = LISTENER_TYPE"
    by (simp add: sample_response_def)
  from reconnect_drops_routes [OF sample_transport_laws(1) sample_session_started handle_sample this
      sample_first_listeners]
  show ?thesis by blast
qed

end
