(* ===== verification/Proxy_State.thy ===== *)
theory Proxy_State
  imports Core_Config
begin

text \<open>
  \<open>crates/proxy/src/state.rs\<close>: the state the proxy, the admin server and the configuration
  task share, with the operations as atomic steps (their interleavings are the subject of
  \<open>Proxy_Concurrency\<close>).  The pickers work on machine integers: the counter is a \<open>u64\<close>,
  the weights are \<open>u32\<close> and their sum wraps or panics depending on the build, which is the
  parameter \<open>chk\<close> (overflow checks on).  \<open>usize\<close> is 64 bits wide.

  Results: the weighted picker is total on non-empty lists even when the weights overflow, and
  over one cycle picks every destination exactly as often as its weight says; the endpoint
  picker returns healthy endpoints only and is a round robin; applying configurations keeps the
  last valid one (\<open>ps\<close> interprets \<open>config_store\<close>).
\<close>

section \<open>State and operations\<close>

record ProxyState =
  ps_config :: RuntimeConfig
  ps_conflicts :: "ConfigConflict list"
  ps_ready :: bool
  ps_picker_counter :: u64

record Readiness =
  rd_ready :: bool
  rd_version :: string
  rd_conflicts :: "ConfigConflict list"

definition proxy_state_new :: "RuntimeConfig \<Rightarrow> ProxyState" where
  "proxy_state_new initial =
     \<lparr>ps_config = initial, ps_conflicts = [], ps_ready = False, ps_picker_counter = 0\<rparr>"

definition apply_config ::
  "ProxyState \<Rightarrow> RuntimeConfig \<Rightarrow> ProxyState \<times> (unit, ConfigConflict list) result"
where
  "apply_config s cfg =
     (case validate cfg of
        Ok _ \<Rightarrow> (s\<lparr>ps_config := cfg, ps_conflicts := [], ps_ready := True\<rparr>, Ok ())
      | Err conflicts \<Rightarrow> (s\<lparr>ps_conflicts := conflicts, ps_ready := False\<rparr>, Err conflicts))"

definition readiness :: "ProxyState \<Rightarrow> Readiness" where
  "readiness s =
     \<lparr>rd_ready = ps_ready s, rd_version = rc_version (ps_config s), rd_conflicts = ps_conflicts s\<rparr>"

text \<open>\<open>fetch_add(1)\<close> on the atomic counter: the old value, and the state with the wrapped successor.\<close>

definition fetch_add_counter :: "ProxyState \<Rightarrow> u64 \<times> ProxyState" where
  "fetch_add_counter s =
     (ps_picker_counter s, s\<lparr>ps_picker_counter := ps_picker_counter s + 1\<rparr>)"

fun find_cursor ::
  "bool \<Rightarrow> u32 \<Rightarrow> u32 \<Rightarrow> WeightedCluster list \<Rightarrow> WeightedCluster option outcome"
where
  "find_cursor chk next cursor [] = Done None"
| "find_cursor chk next cursor (c # cs) =
     (case add_u32 chk cursor (wc_weight c) of
        Panic \<Rightarrow> Panic
      | Done cursor' \<Rightarrow>
          if next < cursor' then Done (Some c) else find_cursor chk next cursor' cs)"

definition pick_cluster ::
  "bool \<Rightarrow> ProxyState \<Rightarrow> WeightedCluster list \<Rightarrow> (WeightedCluster option \<times> ProxyState) outcome"
where
  "pick_cluster chk s clusters =
     (case sum_u32 chk 0 (map wc_weight clusters) of
        Panic \<Rightarrow> Panic
      | Done tot \<Rightarrow>
          if tot = 0 then Done (case clusters of [] \<Rightarrow> None | c # _ \<Rightarrow> Some c, s)
          else
            (let (n, s') = fetch_add_counter s; next = (ucast n :: u32) mod tot
             in case find_cursor chk next 0 clusters of
                  Panic \<Rightarrow> Panic
                | Done r \<Rightarrow> Done (r, s')))"

definition pick_endpoint ::
  "ProxyState \<Rightarrow> string \<Rightarrow> Endpoint list \<Rightarrow> (Endpoint, DxgateError) result \<times> ProxyState"
where
  "pick_endpoint s cluster_name endpoints =
     (let healthy = filter ep_healthy endpoints
      in if healthy = [] then (Err (NoHealthyEndpoints cluster_name), s)
         else (let (n, s') = fetch_add_counter s; idx = unat n mod length healthy
               in (Ok (healthy ! idx), s')))"

text \<open>The picks a sequence of calls makes, and the state after them.\<close>

fun pick_clusters ::
  "bool \<Rightarrow> ProxyState \<Rightarrow> WeightedCluster list \<Rightarrow> nat \<Rightarrow> WeightedCluster option list"
where
  "pick_clusters chk s cs 0 = []"
| "pick_clusters chk s cs (Suc n) =
     (case pick_cluster chk s cs of
        Panic \<Rightarrow> []
      | Done (r, s') \<Rightarrow> r # pick_clusters chk s' cs n)"

fun pick_endpoints :: "ProxyState \<Rightarrow> string \<Rightarrow> Endpoint list \<Rightarrow> nat \<Rightarrow> (Endpoint, DxgateError) result list"
where
  "pick_endpoints s c es 0 = []"
| "pick_endpoints s c es (Suc n) =
     (let (r, s') = pick_endpoint s c es in r # pick_endpoints s' c es n)"

section \<open>Applying configurations\<close>

lemma apply_config_valid:
  "config_ok cfg \<Longrightarrow>
     apply_config s cfg = (s\<lparr>ps_config := cfg, ps_conflicts := [], ps_ready := True\<rparr>, Ok ())"
  using validate_Ok_iff [of cfg] by (simp add: apply_config_def)

lemma apply_config_invalid:
  "\<not> config_ok cfg \<Longrightarrow>
     apply_config s cfg =
       (s\<lparr>ps_conflicts := config_conflicts cfg, ps_ready := False\<rparr>, Err (config_conflicts cfg))"
  using validate_Err_iff [of cfg "config_conflicts cfg"] by (simp add: apply_config_def)

lemmas apply_config_cases = apply_config_valid apply_config_invalid

interpretation ps: config_store "\<lambda>s c. fst (apply_config s c)" ps_config ps_ready config_ok
  by unfold_locales (simp_all add: apply_config_cases)

lemma apply_config_counter [simp]:
  "ps_picker_counter (fst (apply_config s cfg)) = ps_picker_counter s"
  by (cases "config_ok cfg") (simp_all add: apply_config_cases)

section \<open>The weighted picker\<close>

text \<open>What the weights mean: each destination repeated as often as its weight.\<close>

definition weighted_slots :: "WeightedCluster list \<Rightarrow> WeightedCluster list" where
  "weighted_slots cs = concat (map (\<lambda>c. replicate (unat (wc_weight c)) c) cs)"

definition total_weight :: "WeightedCluster list \<Rightarrow> nat" where
  "total_weight cs = (\<Sum>c\<leftarrow>cs. unat (wc_weight c))"

lemma length_weighted_slots: "length (weighted_slots cs) = total_weight cs"
  by (simp add: weighted_slots_def total_weight_def length_concat comp_def)

lemma total_weight_Cons: "total_weight (c # cs) = unat (wc_weight c) + total_weight cs"
  by (simp add: total_weight_def)

lemma weighted_slots_Cons:
  "weighted_slots (c # cs) = replicate (unat (wc_weight c)) c @ weighted_slots cs"
  by (simp add: weighted_slots_def)

text \<open>Without overflow the cursor search indexes the slots.\<close>

lemma find_cursor_slots:
  assumes "unat cursor + total_weight cs < 2 ^ 32" and "cursor \<le> next"
    and "unat next < unat cursor + total_weight cs"
  shows "find_cursor chk next cursor cs = Done (Some (weighted_slots cs ! (unat next - unat cursor)))"
  using assms
proof (induction cs arbitrary: cursor)
  case Nil
  then show ?case by (simp add: total_weight_def word_le_nat_alt)
next
  case (Cons c cs)
  let ?w = "unat (wc_weight c)"
  have sum: "unat (cursor + wc_weight c) = unat cursor + ?w"
    using Cons.prems(1) by (simp add: total_weight_Cons unat_add_no_overflow)
  have add: "add_u32 chk cursor (wc_weight c) = Done (cursor + wc_weight c)"
    using Cons.prems(1) by (simp add: add_u32_def total_weight_Cons)
  show ?case
  proof (cases "next < cursor + wc_weight c")
    case True
    then show ?thesis
      using Cons.prems(2) sum add
      by (simp add: weighted_slots_Cons nth_append word_less_nat_alt word_le_nat_alt)
  next
    case False
    then have le: "unat cursor + ?w \<le> unat next"
      using sum by (simp add: word_less_nat_alt)
    then have "find_cursor chk next (cursor + wc_weight c) cs =
        Done (Some (weighted_slots cs ! (unat next - (unat cursor + ?w))))"
      using Cons.prems sum by (intro Cons.IH [of "cursor + wc_weight c", unfolded sum])
        (simp_all add: total_weight_Cons word_le_nat_alt)
    then show ?thesis
      using False add le by (simp add: weighted_slots_Cons nth_append)
  qed
qed

text \<open>Even when the sums wrap, the last cursor is the total, so the search always ends in a hit.\<close>

lemma find_cursor_release:
  assumes "cs \<noteq> []" and "next < cursor + sum_list (map wc_weight cs)"
  shows "\<exists>c \<in> set cs. find_cursor False next cursor cs = Done (Some c)"
  using assms
proof (induction cs arbitrary: cursor)
  case (Cons c cs)
  show ?case
  proof (cases "next < cursor + wc_weight c")
    case True
    then show ?thesis by (simp add: add_u32_def)
  next
    case False
    then have "cs \<noteq> []" using Cons.prems by auto
    then show ?thesis
      using Cons.IH [of "cursor + wc_weight c"] Cons.prems False
      by (auto simp: add_u32_def add.assoc)
  qed
qed simp

lemma pick_cluster_release:
  "pick_cluster False s cs =
     (let tot = sum_list (map wc_weight cs) in
      if tot = 0 then Done (case cs of [] \<Rightarrow> None | c # _ \<Rightarrow> Some c, s)
      else case find_cursor False (ucast (ps_picker_counter s) mod tot) 0 cs of
             Panic \<Rightarrow> Panic
           | Done r \<Rightarrow> Done (r, s\<lparr>ps_picker_counter := ps_picker_counter s + 1\<rparr>))"
  by (simp add: pick_cluster_def sum_u32_release fetch_add_counter_def Let_def)

lemma word_mod_less: "(w :: u32) \<noteq> 0 \<Longrightarrow> v mod w < w"
  by (simp add: word_less_nat_alt unat_mod_distrib word_unat_eq_iff)

lemma pick_cluster_slot:
  assumes "total_weight cs < 2 ^ 32" and "0 < total_weight cs"
  shows "pick_cluster chk s cs =
     Done (Some (weighted_slots cs ! (unat (ucast (ps_picker_counter s) :: u32) mod total_weight cs)),
           s\<lparr>ps_picker_counter := ps_picker_counter s + 1\<rparr>)"
proof -
  let ?tot = "sum_list (map wc_weight cs)"
  let ?next = "(ucast (ps_picker_counter s) :: u32) mod ?tot"
  have tot: "unat ?tot = total_weight cs"
    using unat_sum_list_no_overflow [of "map wc_weight cs"] assms(1)
    by (simp add: total_weight_def comp_def)
  have sum: "sum_u32 chk 0 (map wc_weight cs) = Done ?tot"
    using assms(1)
    by (cases chk) (simp_all add: sum_u32_release sum_u32_debug total_weight_def comp_def)
  have nz: "?tot \<noteq> 0"
    using tot assms(2) by auto
  have nxt: "unat ?next = unat (ucast (ps_picker_counter s) :: u32) mod total_weight cs"
    by (simp add: unat_mod_distrib tot)
  have "find_cursor chk ?next 0 cs = Done (Some (weighted_slots cs ! (unat ?next - unat (0 :: u32))))"
    by (rule find_cursor_slots) (use assms nxt in simp_all)
  then show ?thesis
    using sum nz by (simp add: pick_cluster_def fetch_add_counter_def nxt)
qed

lemma unat_ucast_u32: "unat (ucast (c :: u64) :: u32) = unat c mod 2 ^ 32"
  by (simp add: unsigned_ucast_eq take_bit_eq_mod)

lemma unat_counter_Suc: "unat ((c :: u64) + 1) = (unat c + 1) mod 2 ^ 64"
  by (simp add: unat_word_ariths)

lemma unat_ucast_counter_Suc:
  assumes "unat (ucast c :: u32) + 1 < 2 ^ 32"
  shows "unat (ucast ((c :: u64) + 1) :: u32) = unat (ucast c :: u32) + 1"
proof -
  have "unat (ucast (c + 1) :: u32) = (unat c + 1) mod 2 ^ 64 mod 2 ^ 32"
    by (simp only: unat_ucast_u32 unat_counter_Suc)
  also have "\<dots> = (unat c + 1) mod 2 ^ 32"
    by (rule mod_mod_cancel) (simp add: le_imp_power_dvd)
  also have "\<dots> = (unat c mod 2 ^ 32 + 1) mod 2 ^ 32"
    by (simp only: mod_add_left_eq)
  finally show ?thesis
    using assms by (simp only: unat_ucast_u32 mod_less)
qed

lemma pick_clusters_slots:
  assumes "total_weight cs < 2 ^ 32" and "0 < total_weight cs"
    and "unat (ucast (ps_picker_counter s) :: u32) + n \<le> 2 ^ 32"
  shows "pick_clusters chk s cs n =
     map (\<lambda>k. Some (weighted_slots cs !
       ((unat (ucast (ps_picker_counter s) :: u32) + k) mod total_weight cs))) [0..<n]"
  using assms(3)
proof (induction n arbitrary: s)
  case 0
  show ?case by simp
next
  case (Suc n)
  let ?c = "ps_picker_counter s"
  let ?s = "s\<lparr>ps_picker_counter := ?c + 1\<rparr>"
  let ?slot = "\<lambda>b k. Some (weighted_slots cs ! ((b + k) mod total_weight cs))"
  have "pick_clusters chk ?s cs n = map (?slot (unat (ucast ?c :: u32) + 1)) [0..<n]"
  proof (cases n)
    case (Suc m)
    then have "unat (ucast (?c + 1) :: u32) = unat (ucast ?c :: u32) + 1"
      using Suc.prems by (intro unat_ucast_counter_Suc) simp
    then show ?thesis
      using Suc.IH [of ?s] Suc.prems by simp
  qed simp
  then show ?case
    by (simp add: pick_cluster_slot [OF assms(1,2)] map_upt_Suc del: upt_Suc)
qed

lemma map_nth_rotate:
  "map (\<lambda>k. f (xs ! ((b + k) mod length xs))) [0..<length xs] = map f (rotate b xs)"
  by (rule nth_equalityI) (simp_all add: nth_rotate)

lemma mset_rotate_eq: "mset (rotate n xs) = mset xs"
proof -
  have "mset (rotate n xs) = mset (take (n mod length xs) xs @ drop (n mod length xs) xs)"
    unfolding rotate_drop_take mset_append by (rule add.commute)
  then show ?thesis by (simp only: append_take_drop_id)
qed

section \<open>The endpoint picker\<close>

lemma pick_endpoint_None:
  "filter ep_healthy es = [] \<Longrightarrow> pick_endpoint s c es = (Err (NoHealthyEndpoints c), s)"
  by (simp add: pick_endpoint_def)

lemma pick_endpoint_Some:
  "filter ep_healthy es \<noteq> [] \<Longrightarrow>
     pick_endpoint s c es =
       (Ok (filter ep_healthy es !
              (unat (ps_picker_counter s) mod length (filter ep_healthy es))),
        s\<lparr>ps_picker_counter := ps_picker_counter s + 1\<rparr>)"
  by (simp add: pick_endpoint_def fetch_add_counter_def Let_def)

lemmas pick_endpoint_cases = pick_endpoint_None pick_endpoint_Some

lemma pick_endpoints_nth:
  assumes "filter ep_healthy es \<noteq> []" and "unat (ps_picker_counter s) + n \<le> 2 ^ 64"
  shows "pick_endpoints s c es n =
     map (\<lambda>k. Ok (filter ep_healthy es !
       ((unat (ps_picker_counter s) + k) mod length (filter ep_healthy es)))) [0..<n]"
  using assms(2)
proof (induction n arbitrary: s)
  case 0
  show ?case by simp
next
  case (Suc n)
  let ?c = "ps_picker_counter s"
  let ?s = "s\<lparr>ps_picker_counter := ?c + 1\<rparr>"
  let ?e = "\<lambda>b k. Ok (filter ep_healthy es ! ((b + k) mod length (filter ep_healthy es)))"
  have "pick_endpoints ?s c es n = map (?e (unat ?c + 1)) [0..<n]"
  proof (cases n)
    case (Suc m)
    then have "unat (?c + 1) = unat ?c + 1"
      using Suc.prems by (simp only: unat_counter_Suc mod_less)
    then show ?thesis
      using Suc.IH [of ?s] Suc.prems by simp
  qed simp
  then show ?case
    by (simp add: pick_endpoint_Some [OF assms(1)] map_upt_Suc del: upt_Suc)
qed

text \<open>
  In a release build the weighted picker returns one of the destinations of every non-empty list,
  whatever the weights: also when their sum wraps around \<open>2^32\<close>.
\<close>

lemma pick_cluster_in:
  assumes "cs \<noteq> []"
  shows "\<exists>c\<in>set cs. \<exists>s'. pick_cluster False s cs = Done (Some c, s')"
proof (cases "sum_list (map wc_weight cs) = 0")
  case True
  then show ?thesis
    using assms by (cases cs) (simp_all add: pick_cluster_release)
next
  case False
  let ?next = "ucast (ps_picker_counter s) mod sum_list (map wc_weight cs)"
  have "?next < 0 + sum_list (map wc_weight cs)"
    using word_mod_less [OF False] by simp
  then obtain c where "c \<in> set cs" "find_cursor False ?next 0 cs = Done (Some c)"
    using find_cursor_release [OF assms] by blast
  then show ?thesis
    using False by (auto simp: pick_cluster_release Let_def)
qed

text \<open>A build with overflow checks picks what a release build picks, or panics.\<close>

lemma pick_cluster_checked:
  "pick_cluster True s cs =
     (if total_weight cs < 2 ^ 32 then pick_cluster False s cs else Panic)"
proof (cases "total_weight cs < 2 ^ 32")
  case True
  show ?thesis
  proof (cases "total_weight cs = 0")
    case zero: True
    then have "sum_u32 chk 0 (map wc_weight cs) = Done 0" for chk
      using unat_sum_list_no_overflow [of "map wc_weight cs"] True
      by (cases chk)
        (simp_all add: sum_u32_release sum_u32_debug total_weight_def comp_def word_unat_eq_iff)
    then show ?thesis using True by (simp add: pick_cluster_def)
  next
    case False
    then show ?thesis using True by (simp add: pick_cluster_slot)
  qed
next
  case False
  then show ?thesis
    by (simp add: pick_cluster_def sum_u32_debug total_weight_def comp_def)
qed

lemma pick_cluster_total:
  "(case pick_cluster chk s cs of
      Panic \<Rightarrow> chk \<and> 2 ^ 32 \<le> total_weight cs
    | Done p \<Rightarrow> \<not> (chk \<and> 2 ^ 32 \<le> total_weight cs) \<and> Done p = pick_cluster False s cs \<and>
        (case p of (None, s') \<Rightarrow> cs = [] \<and> s' = s | (Some w, s') \<Rightarrow> w \<in> set cs))"
proof -
  obtain p where p: "pick_cluster False s cs = Done p"
    "case p of (None, s') \<Rightarrow> cs = [] \<and> s' = s | (Some w, s') \<Rightarrow> w \<in> set cs"
  proof (cases "cs = []")
    case True
    with that [of "(None, s)"] show thesis by (simp add: pick_cluster_release)
  next
    case False
    with that pick_cluster_in [OF False, of s] show thesis by fastforce
  qed
  then show ?thesis by (cases chk) (simp_all add: pick_cluster_checked linorder_not_le)
qed

lemma pick_endpoint_result:
  "(case pick_endpoint s c es of
      (Ok e, s') \<Rightarrow> e \<in> set es \<and> ep_healthy e
    | (Err err, s') \<Rightarrow> err = NoHealthyEndpoints c \<and> s' = s \<and> \<not> list_ex ep_healthy es)"
proof (cases "filter ep_healthy es = []")
  case True
  then show ?thesis
    by (simp add: pick_endpoint_None filter_empty_conv list_ex_iff)
next
  case False
  then have "filter ep_healthy es ! (unat (ps_picker_counter s) mod length (filter ep_healthy es))
      \<in> set (filter ep_healthy es)"
    by (intro nth_mem) simp
  then show ?thesis
    using False by (auto simp: pick_endpoint_Some)
qed

section \<open>Properties\<close>

text \<open>
  C17: over one full cycle (as many picks as the total weight, with no overflow of the weights
  and no wrap of the counter's low 32 bits on the way) the weighted picker returns every
  destination exactly as often as its weight, wherever in the cycle the counter stands.
\<close>

theorem pick_cluster_cycle_is_fair:
  assumes "total_weight cs < 2 ^ 32" and "0 < total_weight cs"
    and "unat (ucast (ps_picker_counter s) :: u32) + total_weight cs \<le> 2 ^ 32"
  shows "mset (pick_clusters chk s cs (total_weight cs)) =
         mset (concat (map (\<lambda>c. replicate (unat (wc_weight c)) (Some c)) cs))"
proof -
  have "pick_clusters chk s cs (total_weight cs) =
      map Some (rotate (unat (ucast (ps_picker_counter s) :: u32)) (weighted_slots cs))"
    using map_nth_rotate [of Some "weighted_slots cs" "unat (ucast (ps_picker_counter s) :: u32)"]
    by (simp add: pick_clusters_slots [OF assms] length_weighted_slots)
  then have "mset (pick_clusters chk s cs (total_weight cs)) = mset (map Some (weighted_slots cs))"
    by (simp add: mset_rotate_eq)
  then show ?thesis
    by (simp add: weighted_slots_def map_concat comp_def)
qed

text \<open>
  C35: picking a cluster panics exactly in a build with overflow checks whose weights add up to
  \<open>2^32\<close> or more; in every other case it picks what the release build picks, which is no
  destination exactly for an empty list (the state unchanged) and otherwise one of the list.
\<close>

theorem pick_cluster_overflow_checks:
  "(case pick_cluster chk s cs of
      Panic \<Rightarrow> chk \<and> 2 ^ 32 \<le> total_weight cs
    | Done p \<Rightarrow> \<not> (chk \<and> 2 ^ 32 \<le> total_weight cs) \<and> Done p = pick_cluster False s cs \<and>
        (case p of (None, s') \<Rightarrow> cs = [] \<and> s' = s | (Some w, s') \<Rightarrow> w \<in> set cs))"
  by (rule pick_cluster_total)

text \<open>
  C29: the endpoint picker is a round robin over the healthy endpoints: a cycle of calls visits
  each of them once, in order, starting where the counter stands.
\<close>

theorem pick_endpoint_round_robin:
  assumes "filter ep_healthy es \<noteq> []"
    and "unat (ps_picker_counter s) + length (filter ep_healthy es) \<le> 2 ^ 64"
  shows "pick_endpoints s c es (length (filter ep_healthy es)) =
         map Ok (rotate (unat (ps_picker_counter s)) (filter ep_healthy es))"
  using map_nth_rotate [of Ok "filter ep_healthy es" "unat (ps_picker_counter s)"]
  by (simp add: pick_endpoints_nth [OF assms])

text \<open>
  The endpoint picker never returns an unhealthy endpoint, and fails exactly when no
  endpoint is healthy, naming the cluster and leaving the state as it was.
\<close>

lemma pick_endpoint_healthy:
  "(case pick_endpoint s c es of
      (Ok e, s') \<Rightarrow> e \<in> set es \<and> ep_healthy e
    | (Err err, s') \<Rightarrow> err = NoHealthyEndpoints c \<and> s' = s \<and> \<not> list_ex ep_healthy es)"
  by (rule pick_endpoint_result)

text \<open>
  After any sequence of configurations the proxy serves the last valid one (or the initial
  one) and, if there was at least one, is ready exactly when the last one was valid.
\<close>

lemma apply_config_run:
  "ps_config (foldl (\<lambda>s c. fst (apply_config s c)) s cfgs) =
     last (ps_config s # filter (\<lambda>c. is_ok (validate c)) cfgs) \<and>
   ps_ready (foldl (\<lambda>s c. fst (apply_config s c)) s cfgs) =
     (if cfgs = [] then ps_ready s else is_ok (validate (last cfgs)))"
  using ps.current_after_run [of s cfgs] ps.ready_after_run [of cfgs s]
  by (simp add: is_ok_validate)

text \<open>
  What \<open>apply_config\<close> reports and what readiness shows agree: an accepted configuration is
  served with its version, no conflicts and ready; a refused one leaves the served version,
  shows the returned conflicts, and is not ready.
\<close>

lemma apply_config_readiness:
  "(case apply_config s cfg of
      (s', Ok u) \<Rightarrow> ps_config s' = cfg \<and>
         readiness s' = \<lparr>rd_ready = True, rd_version = rc_version cfg, rd_conflicts = []\<rparr>
    | (s', Err conflicts) \<Rightarrow> ps_config s' = ps_config s \<and> conflicts \<noteq> [] \<and>
         readiness s' = \<lparr>rd_ready = False, rd_version = rc_version (ps_config s),
                         rd_conflicts = conflicts\<rparr>)"
  using validate_Err_iff [of cfg "config_conflicts cfg"]
  by (cases "config_ok cfg")
    (auto simp: apply_config_cases readiness_def validate_def Let_def split: if_splits)

section \<open>Witnesses\<close>

text \<open>The weights of the unit test \<open>weighted_cluster_picker_is_deterministic\<close>.\<close>

definition sample_weights :: "WeightedCluster list" where
  "sample_weights = [\<lparr>wc_name = ''a'', wc_weight = 2\<rparr>, \<lparr>wc_name = ''b'', wc_weight = 1\<rparr>]"

definition sample_state :: ProxyState where
  "sample_state = proxy_state_new (config_empty ''test'')"

definition sample_endpoints :: "Endpoint list" where
  "sample_endpoints =
     [\<lparr>ep_address = ''10.0.0.1'', ep_port = 8080, ep_healthy = False, ep_node_name = None\<rparr>,
      \<lparr>ep_address = ''10.0.0.2'', ep_port = 8080, ep_healthy = True, ep_node_name = None\<rparr>]"

lemma replicate_two: "replicate 2 x = [x, x]"
  by (simp add: numeral_2_eq_2)

theorem pick_cluster_cycle_is_fair_witness:
  "mset (pick_clusters True sample_state sample_weights 3) =
     {#Some \<lparr>wc_name = ''a'', wc_weight = 2\<rparr>, Some \<lparr>wc_name = ''a'', wc_weight = 2\<rparr>,
       Some \<lparr>wc_name = ''b'', wc_weight = 1\<rparr>#}"
proof -
  have tot: "total_weight sample_weights = 3"
    by (simp add: total_weight_def sample_weights_def)
  have ctr: "ps_picker_counter sample_state = 0"
    by (simp add: sample_state_def proxy_state_new_def)
  show ?thesis
    using pick_cluster_cycle_is_fair [of sample_weights sample_state True]
    by (simp add: tot ctr) (simp add: sample_weights_def replicate_two add_mset_commute)
qed

theorem pick_endpoint_round_robin_witness:
  "pick_endpoints sample_state ''backend'' sample_endpoints 1 = [Ok (sample_endpoints ! 1)]"
proof -
  have h: "filter ep_healthy sample_endpoints = [sample_endpoints ! 1]"
    by (simp add: sample_endpoints_def)
  have ctr: "ps_picker_counter sample_state = 0"
    by (simp add: sample_state_def proxy_state_new_def)
  show ?thesis
    using pick_endpoint_round_robin [of sample_endpoints sample_state "''backend''"]
    by (simp add: h ctr)
qed

end
