(* ===== verification/Config_Source.thy ===== *)
theory Config_Source
  imports Core_Config
begin

text \<open>
  \<open>crates/xds/src/source.rs\<close>: loading a static configuration and the bootstrap file.  The file
  system and the \<open>serde\<close> parsers are parameters.  The format is chosen by the extension of the
  path: exactly \<open>json\<close> is JSON, everything else is YAML.
\<close>

section \<open>Operations\<close>

record BootstrapConfig =
  bc_xds_address :: "string option"
  bc_http_addr :: "SocketAddr option"
  bc_admin_addr :: "SocketAddr option"
  bc_listener_names :: "string list"
  bc_pod_name :: "string option"
  bc_namespace :: "string option"
  bc_pod_ip :: "string option"
  bc_node_name :: "string option"
  bc_cluster_id :: "string option"
  bc_dns_domain :: "string option"

record source_lib =
  sl_read :: "string \<Rightarrow> (string, string) result"
  sl_json_config :: "string \<Rightarrow> (RuntimeConfig, string) result"
  sl_yaml_config :: "string \<Rightarrow> (RuntimeConfig, string) result"
  sl_json_bootstrap :: "string \<Rightarrow> (BootstrapConfig, string) result"
  sl_yaml_bootstrap :: "string \<Rightarrow> (BootstrapConfig, string) result"

record StaticConfigFile =
  sf_path :: string

definition static_load :: "source_lib \<Rightarrow> StaticConfigFile \<Rightarrow> (RuntimeConfig option, DxgateError) result" where
  "static_load S f =
     and_then (map_err Io (sl_read S (sf_path f))) (\<lambda>raw.
     and_then (map_err InvalidConfig
                 (if path_extension (sf_path f) = Some ''json'' then sl_json_config S raw
                  else sl_yaml_config S raw))
       (\<lambda>cfg. Ok (Some cfg)))"

definition bootstrap_load :: "source_lib \<Rightarrow> string \<Rightarrow> (BootstrapConfig, DxgateError) result" where
  "bootstrap_load S path =
     and_then (map_err Io (sl_read S path)) (\<lambda>raw.
       map_err InvalidConfig
         (if path_extension path = Some ''json'' then sl_json_bootstrap S raw
          else sl_yaml_bootstrap S raw))"

section \<open>The format of a path\<close>

lemma path_file_name_dir:
  assumes "CHR ''/'' \<notin> set name" and "name \<notin> {[], ''.'', ''..''}"
  shows "path_file_name (dir @ ''/'' @ name) = Some name"
proof -
  have "str_split (CHR ''/'') (dir @ CHR ''/'' # name) = str_split (CHR ''/'') dir @ [name]"
  proof (induction dir)
    case Nil
    show ?case using str_split_append [of "CHR ''/''" "[]" name] str_split_no_sep [OF assms(1)] by simp
  next
    case (Cons c dir)
    then show ?case by (cases "str_split (CHR ''/'') dir") auto
  qed
  then show ?thesis
    using assms(2) by (simp add: path_file_name_def Let_def)
qed

lemma path_extension_dir:
  assumes "CHR ''/'' \<notin> set stem" and "CHR ''/'' \<notin> set ext" and "CHR ''.'' \<notin> set ext" and "ext \<noteq> []"
    and "stem \<noteq> []"
  shows "path_extension (dir @ ''/'' @ stem @ ''.'' @ ext) = Some ext"
proof -
  have "path_file_name (dir @ ''/'' @ (stem @ ''.'' @ ext)) = Some (stem @ ''.'' @ ext)"
    by (rule path_file_name_dir) (use assms in \<open>auto simp: append_eq_Cons_conv\<close>)
  moreover have "rsplit_once (CHR ''.'') (stem @ ''.'' @ ext) = Some (stem, ext)"
    using assms(3) by (simp add: rsplit_once_Some)
  ultimately show ?thesis
    using assms(5) by (simp add: path_extension_def)
qed

section \<open>Properties\<close>

text \<open>
  The format of a configuration file is decided by its last extension alone: a file with the
  extension \<open>json\<close> is parsed as JSON and any other as YAML, for the static configuration and
  the bootstrap alike; a failed read is an I/O error, a failed parse an invalid configuration.
\<close>

lemma load_format_by_extension:
  assumes "CHR ''/'' \<notin> set stem" and "CHR ''/'' \<notin> set ext" and "CHR ''.'' \<notin> set ext" and "ext \<noteq> []"
    and "stem \<noteq> []" and "path = dir @ ''/'' @ stem @ ''.'' @ ext"
  shows "static_load S \<lparr>sf_path = path\<rparr> =
      (case sl_read S path of
         Err e \<Rightarrow> Err (Io e)
       | Ok raw \<Rightarrow>
           (case (if ext = ''json'' then sl_json_config S raw else sl_yaml_config S raw) of
              Err e \<Rightarrow> Err (InvalidConfig e) | Ok cfg \<Rightarrow> Ok (Some cfg))) \<and>
    bootstrap_load S path =
      (case sl_read S path of
         Err e \<Rightarrow> Err (Io e)
       | Ok raw \<Rightarrow> map_err InvalidConfig
           (if ext = ''json'' then sl_json_bootstrap S raw else sl_yaml_bootstrap S raw))"
proof -
  have "path_extension path = Some ext"
    unfolding assms(6) by (rule path_extension_dir [OF assms(1-5)])
  then show ?thesis
    by (auto simp: static_load_def bootstrap_load_def split: result.split)
qed

lemma load_format_by_extension_example:
  "bootstrap_load
     \<lparr>sl_read = \<lambda>path. Ok ''{}'', sl_json_config = \<lambda>raw. Err ''json'', sl_yaml_config = \<lambda>raw. Err ''yaml'',
      sl_json_bootstrap = \<lambda>raw. Err ''json'', sl_yaml_bootstrap = \<lambda>raw. Err ''yaml''\<rparr>
     ''/etc/bootstrap.json-1-2'' = Err (InvalidConfig ''yaml'')"
  using load_format_by_extension [of "''bootstrap''" "''json-1-2''" "''/etc/bootstrap.json-1-2''" "''/etc''"
      "\<lparr>sl_read = \<lambda>path. Ok ''{}'', sl_json_config = \<lambda>raw. Err ''json'', sl_yaml_config = \<lambda>raw. Err ''yaml'',
        sl_json_bootstrap = \<lambda>raw. Err ''json'', sl_yaml_bootstrap = \<lambda>raw. Err ''yaml''\<rparr>"]
  by simp

end
