(* ===== verification/App.thy ===== *)
theory App
  imports Xds_Client Proxy_State Config_Source
begin

text \<open>
  \<open>crates/app/src/main.rs\<close>: the settings, how the bootstrap overrides them, the state the tasks
  start from, the task that applies published configurations, and the result of \<open>main\<close>.  clap is
  the parameter \<open>clap_lib\<close>; the async runtime and serving are not modelled; a task is the function
  it computes.

  The static configuration is applied by \<open>main\<close> before it is sent to the watch cell, and the xDS
  client is started after that, so the configuration task is the only writer from then on.
\<close>

section \<open>Settings\<close>

record Args =
  ar_xds_address :: string
  ar_http_addr :: SocketAddr
  ar_admin_addr :: SocketAddr
  ar_static_config :: "string option"
  ar_bootstrap :: "string option"
  ar_listener_names :: "string list"
  ar_pod_name :: string
  ar_namespace :: string
  ar_pod_ip :: string
  ar_node_name :: "string option"
  ar_cluster_id :: string
  ar_dns_domain :: string

text \<open>
  \<open>Args::parse\<close>: clap finds the raw value of an argument on the command line or else in the
  environment (\<open>cl_value\<close>, or \<open>cl_values\<close> for one that can be repeated); the defaults, the types and
  the delimiter are those of the struct's attributes.
\<close>

record clap_lib =
  cl_value :: "string \<Rightarrow> string \<Rightarrow> string option"
  cl_values :: "string \<Rightarrow> string \<Rightarrow> string list"
  cl_socket_addr :: "string \<Rightarrow> (SocketAddr, string) result"

definition args_parse :: "clap_lib \<Rightarrow> (Args, string) result" where
  "args_parse L =
     and_then (cl_socket_addr L (unwrap_or (cl_value L ''http-addr'' ''DXGATE_HTTP_ADDR'') ''0.0.0.0:80'')) (\<lambda>http_addr.
     and_then (cl_socket_addr L (unwrap_or (cl_value L ''admin-addr'' ''DXGATE_ADMIN_ADDR'') ''0.0.0.0:15021'')) (\<lambda>admin_addr.
       Ok \<lparr>ar_xds_address = unwrap_or (cl_value L ''xds-address'' ''DXGATE_XDS_ADDRESS'')
             ''http://dubbod.dubbo-system.svc:15012'',
           ar_http_addr = http_addr,
           ar_admin_addr = admin_addr,
           ar_static_config = cl_value L ''static-config'' ''DXGATE_STATIC_CONFIG'',
           ar_bootstrap = cl_value L ''bootstrap'' ''DXGATE_BOOTSTRAP'',
           ar_listener_names =
             concat (map (str_split (CHR '','')) (cl_values L ''listener-names'' ''DXGATE_LISTENER_NAMES'')),
           ar_pod_name = unwrap_or (cl_value L ''pod-name'' ''POD_NAME'') ''dxgate'',
           ar_namespace = unwrap_or (cl_value L ''namespace'' ''POD_NAMESPACE'') ''dubbo-system'',
           ar_pod_ip = unwrap_or (cl_value L ''pod-ip'' ''INSTANCE_IP'') ''127.0.0.1'',
           ar_node_name = cl_value L ''node-name'' ''KUBE_NODE_NAME'',
           ar_cluster_id = unwrap_or (cl_value L ''cluster-id'' ''DUBBO_META_CLUSTER_ID'') DEFAULT_CLUSTER_ID,
           ar_dns_domain = unwrap_or (cl_value L ''dns-domain'' ''DOMAIN_SUFFIX'') DEFAULT_DNS_DOMAIN\<rparr>))"

definition apply_bootstrap :: "Args \<Rightarrow> BootstrapConfig \<Rightarrow> Args" where
  "apply_bootstrap args b =
     \<lparr>ar_xds_address = unwrap_or (bc_xds_address b) (ar_xds_address args),
      ar_http_addr = unwrap_or (bc_http_addr b) (ar_http_addr args),
      ar_admin_addr = unwrap_or (bc_admin_addr b) (ar_admin_addr args),
      ar_static_config = ar_static_config args,
      ar_bootstrap = ar_bootstrap args,
      ar_listener_names =
        (if bc_listener_names b \<noteq> [] then bc_listener_names b else ar_listener_names args),
      ar_pod_name = unwrap_or (bc_pod_name b) (ar_pod_name args),
      ar_namespace = unwrap_or (bc_namespace b) (ar_namespace args),
      ar_pod_ip = unwrap_or (bc_pod_ip b) (ar_pod_ip args),
      ar_node_name = (case bc_node_name b of Some v \<Rightarrow> Some v | None \<Rightarrow> ar_node_name args),
      ar_cluster_id = unwrap_or (bc_cluster_id b) (ar_cluster_id args),
      ar_dns_domain = unwrap_or (bc_dns_domain b) (ar_dns_domain args)\<rparr>"

definition args_identity :: "Args \<Rightarrow> RouterIdentity" where
  "args_identity args =
     \<lparr>ri_pod_name = ar_pod_name args, ri_namespace = ar_namespace args, ri_pod_ip = ar_pod_ip args,
      ri_node_name = ar_node_name args, ri_cluster_id = ar_cluster_id args,
      ri_dns_domain = ar_dns_domain args\<rparr>"

definition args_client_config :: "Args \<Rightarrow> XdsClientConfig" where
  "args_client_config args =
     \<lparr>xcc_endpoint = ar_xds_address args, xcc_identity = args_identity args,
      xcc_listener_names = ar_listener_names args, xcc_reconnect_delay = 10\<rparr>"

section \<open>Start-up\<close>

text \<open>What the tasks start from; the delay is in seconds.\<close>

record 'w started =
  st_state :: ProxyState
  st_watch :: 'w
  st_client :: XdsClientConfig
  st_http_addr :: SocketAddr
  st_admin_addr :: SocketAddr

definition initial_config :: RuntimeConfig where
  "initial_config = config_empty ''bootstrap''"

definition effective_args :: "source_lib \<Rightarrow> Args \<Rightarrow> (Args, string) result" where
  "effective_args S args =
     (case ar_bootstrap args of
        Some path \<Rightarrow>
          and_then (map_err show_DxgateError (bootstrap_load S path)) (\<lambda>b. Ok (apply_bootstrap args b))
      | None \<Rightarrow> Ok args)"

definition start_static ::
  "('q, 'w) transport \<Rightarrow> source_lib \<Rightarrow> string option \<Rightarrow> ProxyState \<Rightarrow> 'w \<Rightarrow> ProxyState \<times> 'w"
where
  "start_static T S static_config s w =
     (case static_config of
        None \<Rightarrow> (s, w)
      | Some path \<Rightarrow>
          (case static_load S \<lparr>sf_path = path\<rparr> of
             Ok (Some cfg) \<Rightarrow>
               (case apply_config s cfg of
                  (s', Err conflicts) \<Rightarrow> (s', w)
                | (s', Ok _) \<Rightarrow> (s', (case tp_config_send T w cfg of Some w' \<Rightarrow> w' | None \<Rightarrow> w)))
           | Ok None \<Rightarrow> (s, w)
           | Err err \<Rightarrow> (s, w)))"

definition startup ::
  "('q, 'w) transport \<Rightarrow> (RuntimeConfig \<Rightarrow> 'w) \<Rightarrow> source_lib \<Rightarrow> Args \<Rightarrow> ('w started, string) result"
where
  "startup T watch_channel S args0 =
     and_then (effective_args S args0) (\<lambda>args.
       (let (s, w) = start_static T S (ar_static_config args) (proxy_state_new initial_config)
              (watch_channel initial_config)
        in Ok \<lparr>st_state = s, st_watch = w, st_client = args_client_config args,
               st_http_addr = ar_http_addr args, st_admin_addr = ar_admin_addr args\<rparr>))"

text \<open>The configuration task, on the values it observes in the watch cell.\<close>

definition apply_loop :: "ProxyState \<Rightarrow> RuntimeConfig list \<Rightarrow> ProxyState" where
  "apply_loop s observed = foldl (\<lambda>s cfg. fst (apply_config s cfg)) s observed"

text \<open>
  The end of \<open>main\<close>: it waits for the first of the two server tasks or the shutdown signal.  A
  task that was joined gives its own result, one that panicked the join error; the xDS client
  and the configuration task are not waited for.
\<close>

datatype first_event =
    ProxyFinished "((unit, string) result, string) result"
  | AdminFinished "((unit, string) result, string) result"
  | CtrlC

definition joined :: "((unit, string) result, string) result \<Rightarrow> (unit, string) result" where
  "joined r = (case r of Ok outcome \<Rightarrow> outcome | Err join_error \<Rightarrow> Err join_error)"

fun select_result :: "first_event \<Rightarrow> (unit, string) result" where
  "select_result (ProxyFinished r) = and_then (joined r) (\<lambda>_. Ok ())"
| "select_result (AdminFinished r) = and_then (joined r) (\<lambda>_. Ok ())"
| "select_result CtrlC = Ok ()"

definition main_result ::
  "('q, 'w) transport \<Rightarrow> (RuntimeConfig \<Rightarrow> 'w) \<Rightarrow> source_lib \<Rightarrow> Args \<Rightarrow> first_event \<Rightarrow> (unit, string) result"
where
  "main_result T watch_channel S args event =
     and_then (startup T watch_channel S args) (\<lambda>_. select_result event)"

section \<open>Lemmas\<close>

definition static_outcome :: "source_lib \<Rightarrow> string option \<Rightarrow> RuntimeConfig option" where
  "static_outcome S static_config =
     (case static_config of
        None \<Rightarrow> None
      | Some path \<Rightarrow> (case static_load S \<lparr>sf_path = path\<rparr> of Ok r \<Rightarrow> r | Err e \<Rightarrow> None))"

lemma start_static_state:
  "fst (start_static T S sc s w) =
     (case static_outcome S sc of None \<Rightarrow> s | Some cfg \<Rightarrow> fst (apply_config s cfg))"
  by (auto simp: start_static_def static_outcome_def split: option.split result.split prod.split)

lemma start_static_watch:
  "snd (start_static T S sc s w) =
     (case static_outcome S sc of
        None \<Rightarrow> w
      | Some cfg \<Rightarrow> if config_ok cfg then (case tp_config_send T w cfg of Some w' \<Rightarrow> w' | None \<Rightarrow> w) else w)"
proof (cases "static_outcome S sc")
  case (Some cfg)
  then show ?thesis
    by (cases "config_ok cfg")
      (auto simp: start_static_def static_outcome_def apply_config_cases
        split: option.splits result.splits)
qed (auto simp: start_static_def static_outcome_def split: option.splits result.splits)

text \<open>
  The receiver of the watch cell exists when the static configuration is sent: \<open>main\<close> has moved it
  into the configuration task before.
\<close>

definition receiver_listening :: "('q, 'w) transport \<Rightarrow> 'w \<Rightarrow> bool" where
  "receiver_listening T w = (\<forall>cfg. tp_config_send T w cfg \<noteq> None)"

lemma initial_config_ok: "config_ok initial_config"
  by (simp add: initial_config_def config_ok_empty)

section \<open>Properties\<close>

text \<open>
  C31: start-up fails only for a bootstrap file that does not load, with that error; otherwise
  the proxy starts with the static configuration when there is a valid one, ready, and in every
  other case (none given, unreadable, refused) with the empty configuration, not ready.
\<close>

theorem startup_state:
  "(case startup T watch_channel S args of
      Err e \<Rightarrow> (\<exists>path err. ar_bootstrap args = Some path \<and> bootstrap_load S path = Err err \<and>
                        e = show_DxgateError err)
    | Ok st \<Rightarrow>
        (case static_outcome S (ar_static_config args) of
           Some cfg \<Rightarrow>
             if is_ok (validate cfg) then ps_config (st_state st) = cfg \<and> ps_ready (st_state st)
             else ps_config (st_state st) = initial_config \<and> \<not> ps_ready (st_state st)
         | None \<Rightarrow> st_state st = proxy_state_new initial_config))"
proof (cases "effective_args S args")
  case (Err e)
  then show ?thesis
    by (auto simp: startup_def effective_args_def and_then_eq_Err map_err_eq_Err split: option.splits)
next
  case (Ok args')
  then have "ar_static_config args' = ar_static_config args"
    by (auto simp: effective_args_def apply_bootstrap_def split: option.splits)
  then have "startup T watch_channel S args = Ok st \<Longrightarrow>
      st_state st = fst (start_static T S (ar_static_config args) (proxy_state_new initial_config)
        (watch_channel initial_config))" for st
    by (auto simp: startup_def Ok split: prod.splits)
  moreover obtain st where "startup T watch_channel S args = Ok st"
    by (simp add: startup_def Ok case_prod_beta)
  ultimately show ?thesis
    by (auto simp: start_static_state apply_config_cases is_ok_validate proxy_state_new_def
        split: option.split)
qed

text \<open>
  The settings read from the environment or the command line go through the bootstrap as
  documented: a bootstrap field that is set wins, an unset one leaves the argument, and an
  unset argument has its default; listener names joined by commas are read back as they were,
  unless the bootstrap brings its own.
\<close>

lemma settings_precedence:
  assumes "args_parse L = Ok args" and "ar_bootstrap args = Some path" and "bootstrap_load S path = Ok b"
    and "cl_values L ''listener-names'' ''DXGATE_LISTENER_NAMES'' = [str_join '','' names]"
    and "names \<noteq> []" and "\<forall>n\<in>set names. CHR '','' \<notin> set n"
  shows "\<exists>args'. effective_args S args = Ok args' \<and>
    ar_listener_names args' = (if bc_listener_names b \<noteq> [] then bc_listener_names b else names) \<and>
    ar_xds_address args' = (case bc_xds_address b of Some v \<Rightarrow> v | None \<Rightarrow>
       (case cl_value L ''xds-address'' ''DXGATE_XDS_ADDRESS'' of
          Some v \<Rightarrow> v | None \<Rightarrow> ''http://dubbod.dubbo-system.svc:15012'')) \<and>
    args_identity args' =
      \<lparr>ri_pod_name = unwrap_or (bc_pod_name b) (ar_pod_name args),
       ri_namespace = unwrap_or (bc_namespace b) (ar_namespace args),
       ri_pod_ip = unwrap_or (bc_pod_ip b) (ar_pod_ip args),
       ri_node_name = (if bc_node_name b = None then ar_node_name args else bc_node_name b),
       ri_cluster_id = unwrap_or (bc_cluster_id b) (ar_cluster_id args),
       ri_dns_domain = unwrap_or (bc_dns_domain b) (ar_dns_domain args)\<rparr> \<and>
    ar_static_config args' = ar_static_config args"
proof -
  have "str_split (CHR '','') (str_join '','' names) = names"
    by (rule str_split_join) (use assms(5,6) in auto)
  then have "ar_listener_names args = names"
    and "ar_xds_address args = unwrap_or (cl_value L ''xds-address'' ''DXGATE_XDS_ADDRESS'')
             ''http://dubbod.dubbo-system.svc:15012''"
    using assms(1,4) by (auto simp: args_parse_def)
  then show ?thesis
    using assms(2,3)
    by (auto simp: effective_args_def apply_bootstrap_def args_identity_def unwrap_or_def split: option.split)
qed

text \<open>
  \<open>main\<close> fails exactly when the bootstrap file does not load, or the server that ends first
  failed or panicked; a shutdown signal, and a server that ends well, make it succeed.
\<close>

lemma main_fails_iff:
  "\<not> is_ok (main_result T watch_channel S args event) \<longleftrightarrow>
     (\<exists>path. ar_bootstrap args = Some path \<and> \<not> is_ok (bootstrap_load S path)) \<or>
     (\<exists>r. event \<in> {ProxyFinished r, AdminFinished r} \<and> r \<noteq> Ok (Ok ()))"
proof -
  have "is_ok (startup T watch_channel S args) \<longleftrightarrow>
      (\<forall>path. ar_bootstrap args = Some path \<longrightarrow> is_ok (bootstrap_load S path))"
    by (cases "ar_bootstrap args")
      (auto simp: startup_def effective_args_def is_ok_iff case_prod_beta)
  moreover have "is_ok (select_result event) \<longleftrightarrow>
      (\<forall>r. event \<in> {ProxyFinished r, AdminFinished r} \<longrightarrow> r = Ok (Ok ()))"
    by (cases event) (auto simp: joined_def is_ok_iff split: result.split)
  moreover have "is_ok (main_result T watch_channel S args event) \<longleftrightarrow>
      is_ok (startup T watch_channel S args) \<and> is_ok (select_result event)"
    by (auto simp: main_result_def is_ok_iff)
  ultimately show ?thesis by blast
qed

end
