(* ===== verification/Proxy_Concurrency.thy ===== *)
theory Proxy_Concurrency
  imports Proxy_State
begin

text \<open>
  The interleavings behind \<open>Proxy_State\<close>.  \<open>apply_config\<close> and \<open>readiness\<close> are \<open>async\<close>: between two lock
  acquisitions or atomic accesses other tasks run.  Here each access is one step of a state
  machine with the shared state, the configuration task (there is one, started in
  \<open>crates/app/src/main.rs\<close>), a reader of the readiness, and requests that advance the counter.
  Other readers do not change the state, so one stands for all.

  Results: the steps of the configuration task refine the atomic operation, so the results on
  \<open>apply_config\<close> carry over to the running system; the stored configuration is valid in every
  reachable state; what a reader reports can be torn when invalid configurations
  are applied (\<open>Gateway\<close> shows that the running gateway applies none).
\<close>

section \<open>Steps\<close>

text \<open>
  Where the configuration task stands: about to clear the conflicts, about to set ready, about
  to clear ready.  It keeps the configuration it is applying.
\<close>

datatype writer = Idle | ClearConflicts RuntimeConfig | SetReady RuntimeConfig | ClearReady RuntimeConfig

datatype reader = NotReading | ReadReady bool | ReadVersion bool string | ReadDone Readiness

record proxy_system =
  sy_shared :: ProxyState
  sy_writer :: writer
  sy_reader :: reader
  sy_applied :: "RuntimeConfig list"

definition system_init :: "RuntimeConfig \<Rightarrow> proxy_system" where
  "system_init cfg = \<lparr>sy_shared = proxy_state_new cfg, sy_writer = Idle, sy_reader = NotReading,
     sy_applied = []\<rparr>"

inductive proxy_step :: "proxy_system \<Rightarrow> proxy_system \<Rightarrow> bool" where
  write_config:
    "sy_writer y = Idle \<Longrightarrow> validate cfg = Ok () \<Longrightarrow>
     proxy_step y (y\<lparr>sy_shared := (sy_shared y)\<lparr>ps_config := cfg\<rparr>, sy_writer := ClearConflicts cfg\<rparr>)"
| clear_conflicts:
    "sy_writer y = ClearConflicts cfg \<Longrightarrow>
     proxy_step y (y\<lparr>sy_shared := (sy_shared y)\<lparr>ps_conflicts := []\<rparr>, sy_writer := SetReady cfg\<rparr>)"
| set_ready:
    "sy_writer y = SetReady cfg \<Longrightarrow>
     proxy_step y (y\<lparr>sy_shared := (sy_shared y)\<lparr>ps_ready := True\<rparr>, sy_writer := Idle,
                     sy_applied := sy_applied y @ [cfg]\<rparr>)"
| write_conflicts:
    "sy_writer y = Idle \<Longrightarrow> validate cfg = Err conflicts \<Longrightarrow>
     proxy_step y (y\<lparr>sy_shared := (sy_shared y)\<lparr>ps_conflicts := conflicts\<rparr>,
                     sy_writer := ClearReady cfg\<rparr>)"
| clear_ready:
    "sy_writer y = ClearReady cfg \<Longrightarrow>
     proxy_step y (y\<lparr>sy_shared := (sy_shared y)\<lparr>ps_ready := False\<rparr>, sy_writer := Idle,
                     sy_applied := sy_applied y @ [cfg]\<rparr>)"
| read_ready:
    "proxy_step y (y\<lparr>sy_reader := ReadReady (ps_ready (sy_shared y))\<rparr>)"
| read_version:
    "sy_reader y = ReadReady r \<Longrightarrow>
     proxy_step y (y\<lparr>sy_reader := ReadVersion r (rc_version (ps_config (sy_shared y)))\<rparr>)"
| read_conflicts:
    "sy_reader y = ReadVersion r v \<Longrightarrow>
     proxy_step y (y\<lparr>sy_reader := ReadDone \<lparr>rd_ready = r, rd_version = v,
                                           rd_conflicts = ps_conflicts (sy_shared y)\<rparr>\<rparr>)"
| count:
    "proxy_step y (y\<lparr>sy_shared := snd (fetch_add_counter (sy_shared y))\<rparr>)"

section \<open>The invariant\<close>

text \<open>The state that the configurations applied so far give atomically.\<close>

definition atomic_state :: "RuntimeConfig \<Rightarrow> RuntimeConfig list \<Rightarrow> ProxyState" where
  "atomic_state cfg applied = foldl (\<lambda>s c. fst (apply_config s c)) (proxy_state_new cfg) applied"

text \<open>The shared state is that state with the part of the current application done.\<close>

definition in_progress :: "writer \<Rightarrow> ProxyState \<Rightarrow> ProxyState" where
  "in_progress w s =
     (case w of
        Idle \<Rightarrow> s
      | ClearConflicts cfg \<Rightarrow> s\<lparr>ps_config := cfg\<rparr>
      | SetReady cfg \<Rightarrow> s\<lparr>ps_config := cfg, ps_conflicts := []\<rparr>
      | ClearReady cfg \<Rightarrow> s\<lparr>ps_conflicts := config_conflicts cfg\<rparr>)"

definition writer_ok :: "writer \<Rightarrow> bool" where
  "writer_ok w =
     (case w of
        Idle \<Rightarrow> True
      | ClearConflicts cfg \<Rightarrow> config_ok cfg
      | SetReady cfg \<Rightarrow> config_ok cfg
      | ClearReady cfg \<Rightarrow> \<not> config_ok cfg)"

text \<open>Equal up to the counter of the pickers.\<close>

definition agrees :: "ProxyState \<Rightarrow> ProxyState \<Rightarrow> bool" where
  "agrees s t = (ps_config s = ps_config t \<and> ps_conflicts s = ps_conflicts t \<and> ps_ready s = ps_ready t)"

definition system_inv :: "RuntimeConfig \<Rightarrow> proxy_system \<Rightarrow> bool" where
  "system_inv cfg y =
     (writer_ok (sy_writer y) \<and>
      agrees (sy_shared y) (in_progress (sy_writer y) (atomic_state cfg (sy_applied y))))"

lemma atomic_state_snoc: "atomic_state cfg (cs @ [c]) = fst (apply_config (atomic_state cfg cs) c)"
  by (simp add: atomic_state_def)

lemma system_inv_init: "system_inv cfg (system_init cfg)"
  by (auto simp: system_inv_def system_init_def writer_ok_def in_progress_def atomic_state_def
      proxy_state_new_def agrees_def)

lemma system_inv_step:
  assumes "system_inv cfg y" and "proxy_step y y'"
  shows "system_inv cfg y'"
proof -
  have w: "writer_ok (sy_writer y)" and
    s: "agrees (sy_shared y) (in_progress (sy_writer y) (atomic_state cfg (sy_applied y)))"
    using assms(1) by (simp_all add: system_inv_def)
  note defs = system_inv_def writer_ok_def in_progress_def agrees_def
  from assms(2) show ?thesis
  proof cases
    case (write_config c)
    then show ?thesis using s by (auto simp: defs validate_Ok_iff)
  next
    case (clear_conflicts c)
    then show ?thesis using w s by (auto simp: defs)
  next
    case (set_ready c)
    then show ?thesis
      using w s by (auto simp: defs atomic_state_snoc apply_config_valid)
  next
    case (write_conflicts c conflicts)
    then show ?thesis using s by (auto simp: defs validate_Err_iff)
  next
    case (clear_ready c)
    then show ?thesis
      using w s by (auto simp: defs atomic_state_snoc apply_config_invalid)
  next
    case count
    then show ?thesis using w s by (simp add: defs fetch_add_counter_def split: writer.splits)
  qed (use assms(1) in \<open>simp_all add: system_inv_def\<close>)
qed

interpretation cc: step_system "(=) (system_init cfg)" proxy_step "system_inv cfg" for cfg
  by unfold_locales (auto simp: system_inv_init intro: system_inv_step)

lemma atomic_state_valid: "config_ok cfg \<Longrightarrow> config_ok (ps_config (atomic_state cfg cs))"
proof (induction cs rule: rev_induct)
  case (snoc c cs)
  then show ?case
    by (cases "config_ok c") (simp_all add: atomic_state_snoc apply_config_cases)
qed (simp add: atomic_state_def proxy_state_new_def)

lemma system_config_valid:
  assumes "config_ok cfg" and "system_inv cfg y"
  shows "config_ok (ps_config (sy_shared y))"
  using assms(2) atomic_state_valid [OF assms(1), of "sy_applied y"]
  by (auto simp: system_inv_def in_progress_def writer_ok_def agrees_def split: writer.splits)

section \<open>Properties\<close>

text \<open>What the configurations handled so far come to, one after the other.\<close>

lemma atomic_state_summary:
  "ps_config (atomic_state cfg applied) = last (cfg # filter (\<lambda>c. is_ok (validate c)) applied)"
  "ps_ready (atomic_state cfg applied) \<longleftrightarrow> applied \<noteq> [] \<and> is_ok (validate (last applied))"
  "ps_conflicts (atomic_state cfg applied) =
     (if applied = [] then [] else (case validate (last applied) of Ok _ \<Rightarrow> [] | Err conflicts \<Rightarrow> conflicts))"
proof -
  show "ps_config (atomic_state cfg applied) = last (cfg # filter (\<lambda>c. is_ok (validate c)) applied)"
    using ps.current_after_run [of "proxy_state_new cfg" applied]
    by (simp add: atomic_state_def is_ok_validate proxy_state_new_def)
  show "ps_ready (atomic_state cfg applied) \<longleftrightarrow> applied \<noteq> [] \<and> is_ok (validate (last applied))"
    using ps.ready_after_run [of applied "proxy_state_new cfg"]
    by (cases "applied = []") (simp_all add: atomic_state_def is_ok_validate proxy_state_new_def)
  show "ps_conflicts (atomic_state cfg applied) =
     (if applied = [] then [] else (case validate (last applied) of Ok _ \<Rightarrow> [] | Err conflicts \<Rightarrow> conflicts))"
    by (cases applied rule: rev_cases)
      (auto simp: atomic_state_snoc apply_config_def atomic_state_def proxy_state_new_def split: result.split)
qed

text \<open>
  C15: however the configuration task, readers and requests are interleaved, the stored
  configuration is valid at every moment, when the initial one is; and whenever the task is
  between two configurations, the shared state is a summary of those handled so far: the last
  valid one is stored (the initial one before that), the router is ready exactly when the last
  one handled was valid, and the conflicts are those of the last one handled.
\<close>

theorem apply_config_refined_by_steps:
  assumes "is_ok (validate cfg)" and "proxy_step\<^sup>*\<^sup>* (system_init cfg) y"
  shows "is_ok (validate (ps_config (sy_shared y))) \<and>
    (sy_writer y = Idle \<longrightarrow>
       ps_config (sy_shared y) = last (cfg # filter (\<lambda>c. is_ok (validate c)) (sy_applied y)) \<and>
       (ps_ready (sy_shared y) \<longleftrightarrow> sy_applied y \<noteq> [] \<and> is_ok (validate (last (sy_applied y)))) \<and>
       ps_conflicts (sy_shared y) = (if sy_applied y = [] then [] else
         (case validate (last (sy_applied y)) of Ok _ \<Rightarrow> [] | Err conflicts \<Rightarrow> conflicts)))"
proof -
  have inv: "system_inv cfg y" using assms(2) by (rule cc.inv_reachable [OF refl])
  then have "sy_writer y = Idle \<Longrightarrow> agrees (sy_shared y) (atomic_state cfg (sy_applied y))"
    by (simp add: system_inv_def in_progress_def)
  then show ?thesis
    using system_config_valid [OF _ inv] assms(1) atomic_state_summary [of cfg "sy_applied y"]
    by (simp add: is_ok_validate agrees_def)
qed

text \<open>
  The readiness report is not a snapshot: a reader can be told that the router is ready
  together with the conflicts of a refused configuration, a combination that no sequence of
  applied configurations ever stores.
\<close>

lemma readiness_can_be_torn:
  assumes "validate good = Ok ()" and "validate bad = Err conflicts"
  shows "\<exists>y. proxy_step\<^sup>*\<^sup>* (system_init good) y \<and>
    sy_reader y = ReadDone \<lparr>rd_ready = True, rd_version = rc_version good, rd_conflicts = conflicts\<rparr> \<and>
    conflicts \<noteq> []"
proof -
  let ?y0 = "system_init good"
  let ?y1 = "?y0\<lparr>sy_shared := (sy_shared ?y0)\<lparr>ps_config := good\<rparr>, sy_writer := ClearConflicts good\<rparr>"
  let ?y2 = "?y1\<lparr>sy_shared := (sy_shared ?y1)\<lparr>ps_conflicts := []\<rparr>, sy_writer := SetReady good\<rparr>"
  let ?y3 = "?y2\<lparr>sy_shared := (sy_shared ?y2)\<lparr>ps_ready := True\<rparr>, sy_writer := Idle,
     sy_applied := sy_applied ?y2 @ [good]\<rparr>"
  let ?y4 = "?y3\<lparr>sy_reader := ReadReady (ps_ready (sy_shared ?y3))\<rparr>"
  let ?y5 = "?y4\<lparr>sy_shared := (sy_shared ?y4)\<lparr>ps_conflicts := conflicts\<rparr>, sy_writer := ClearReady bad\<rparr>"
  let ?y6 = "?y5\<lparr>sy_reader := ReadVersion True (rc_version (ps_config (sy_shared ?y5)))\<rparr>"
  let ?y7 = "?y6\<lparr>sy_reader := ReadDone \<lparr>rd_ready = True, rd_version = rc_version (ps_config (sy_shared ?y5)),
     rd_conflicts = ps_conflicts (sy_shared ?y6)\<rparr>\<rparr>"
  have "proxy_step ?y0 ?y1" by (rule write_config) (simp_all add: system_init_def assms)
  moreover have "proxy_step ?y1 ?y2" by (rule clear_conflicts) simp
  moreover have "proxy_step ?y2 ?y3" by (rule set_ready) simp
  moreover have "proxy_step ?y3 ?y4" by (rule read_ready)
  moreover have "proxy_step ?y4 ?y5" by (rule write_conflicts) (simp_all add: assms)
  moreover have "proxy_step ?y5 ?y6" by (rule read_version) simp
  moreover have "proxy_step ?y6 ?y7" by (rule read_conflicts) simp
  ultimately have "proxy_step\<^sup>*\<^sup>* ?y0 ?y7"
    by (meson rtranclp.rtrancl_into_rtrancl rtranclp.rtrancl_refl)
  moreover have "conflicts \<noteq> []"
    using assms(2) by (auto simp: validate_def Let_def split: if_splits)
  ultimately show ?thesis
    by (intro exI [of _ ?y7]) (simp add: system_init_def proxy_state_new_def)
qed

section \<open>Witnesses\<close>

lemma sample_bad_config: "validate (sample_config\<lparr>rc_clusters := []\<rparr>) =
    Err (config_conflicts (sample_config\<lparr>rc_clusters := []\<rparr>))"
proof -
  have "\<not> config_ok (sample_config\<lparr>rc_clusters := []\<rparr>)"
    by (simp add: config_ok_def references_defined_def config_routes_def sample_config_def) blast
  then show ?thesis by (simp add: validate_Err_iff)
qed

lemma readiness_can_be_torn_example:
  "\<exists>y. proxy_step\<^sup>*\<^sup>* (system_init sample_config) y \<and>
    sy_reader y = ReadDone \<lparr>rd_ready = True, rd_version = rc_version sample_config,
      rd_conflicts = config_conflicts (sample_config\<lparr>rc_clusters := []\<rparr>)\<rparr> \<and>
    config_conflicts (sample_config\<lparr>rc_clusters := []\<rparr>) \<noteq> []"
  by (rule readiness_can_be_torn [OF sample_config_valid sample_bad_config])

text \<open>One valid configuration applied step by step, then an invalid one.\<close>

lemma apply_steps:
  assumes "sy_writer y = Idle" and "validate c = Ok ()"
  shows "\<exists>y'. proxy_step\<^sup>*\<^sup>* y y' \<and> sy_writer y' = Idle \<and> sy_applied y' = sy_applied y @ [c]"
proof -
  let ?y1 = "y\<lparr>sy_shared := (sy_shared y)\<lparr>ps_config := c\<rparr>, sy_writer := ClearConflicts c\<rparr>"
  let ?y2 = "?y1\<lparr>sy_shared := (sy_shared ?y1)\<lparr>ps_conflicts := []\<rparr>, sy_writer := SetReady c\<rparr>"
  let ?y3 = "?y2\<lparr>sy_shared := (sy_shared ?y2)\<lparr>ps_ready := True\<rparr>, sy_writer := Idle, sy_applied := sy_applied ?y2 @ [c]\<rparr>"
  have "proxy_step y ?y1" by (rule write_config [OF assms])
  moreover have "proxy_step ?y1 ?y2" by (rule clear_conflicts) simp
  moreover have "proxy_step ?y2 ?y3" by (rule set_ready) simp
  ultimately have "proxy_step\<^sup>*\<^sup>* y ?y3" by (meson rtranclp.rtrancl_into_rtrancl rtranclp.rtrancl_refl)
  then show ?thesis by (intro exI [of _ ?y3]) simp
qed

lemma refuse_steps:
  assumes "sy_writer y = Idle" and "validate c = Err conflicts"
  shows "\<exists>y'. proxy_step\<^sup>*\<^sup>* y y' \<and> sy_writer y' = Idle \<and> sy_applied y' = sy_applied y @ [c]"
proof -
  let ?y1 = "y\<lparr>sy_shared := (sy_shared y)\<lparr>ps_conflicts := conflicts\<rparr>, sy_writer := ClearReady c\<rparr>"
  let ?y2 = "?y1\<lparr>sy_shared := (sy_shared ?y1)\<lparr>ps_ready := False\<rparr>, sy_writer := Idle, sy_applied := sy_applied ?y1 @ [c]\<rparr>"
  have "proxy_step y ?y1" by (rule write_conflicts [OF assms])
  moreover have "proxy_step ?y1 ?y2" by (rule clear_ready) simp
  ultimately have "proxy_step\<^sup>*\<^sup>* y ?y2" by (meson rtranclp.rtrancl_into_rtrancl rtranclp.rtrancl_refl)
  then show ?thesis by (intro exI [of _ ?y2]) simp
qed

theorem apply_config_refined_by_steps_witness:
  "\<exists>y. proxy_step\<^sup>*\<^sup>* (system_init (config_empty ''bootstrap'')) y \<and>
     sy_applied y = [sample_config, sample_config\<lparr>rc_clusters := []\<rparr>] \<and>
     ps_config (sy_shared y) = sample_config \<and> \<not> ps_ready (sy_shared y) \<and>
     ps_conflicts (sy_shared y) = config_conflicts (sample_config\<lparr>rc_clusters := []\<rparr>)"
proof -
  let ?y0 = "system_init (config_empty ''bootstrap'')"
  obtain y1 where y1: "proxy_step\<^sup>*\<^sup>* ?y0 y1" "sy_writer y1 = Idle" "sy_applied y1 = [sample_config]"
    using apply_steps [OF _ sample_config_valid, of ?y0] by (auto simp: system_init_def)
  obtain y2 where y2: "proxy_step\<^sup>*\<^sup>* y1 y2" "sy_writer y2 = Idle"
    "sy_applied y2 = [sample_config, sample_config\<lparr>rc_clusters := []\<rparr>]"
    using refuse_steps [OF y1(2) sample_bad_config] y1(3) by auto
  have run: "proxy_step\<^sup>*\<^sup>* ?y0 y2" using y1(1) y2(1) by (rule rtranclp_trans)
  have "is_ok (validate (config_empty ''bootstrap''))" by (simp add: is_ok_validate config_ok_empty)
  from apply_config_refined_by_steps [OF this run] y2 run show ?thesis
    by (intro exI [of _ y2]) (simp add: sample_config_valid sample_bad_config)
qed

end
