(* ===== verification/Gateway.thy ===== *)
theory Gateway
  imports App Proxy_Concurrency
begin

text \<open>
  The running gateway: the xDS client task, the watch cell, the configuration task and the
  shared state, interleaved.  It composes the step relations of the parts: the client connects,
  receives and loses its stream (\<open>Xds_Client\<close>); the configuration task is notified of a change,
  clones the value a moment later, and applies it access by access (\<open>Proxy_Concurrency\<close>) while readers
  and requests go on.  It starts from what \<open>main\<close> sets up (\<open>App\<close>), with or without a static
  configuration.  A failed connection attempt changes nothing and is no step; a stream can end at
  any moment.

  Results: the stored configuration is valid at every moment; no reader is ever told that the
  router is ready together with conflicts; the configuration task is never stuck, and whenever
  it has caught up with the cell, the proxy serves exactly the value in the cell.
\<close>

section \<open>The composed step relation\<close>

datatype ('q, 'w) client_task = Disconnected 'w | Connected "('q, 'w) session"

fun cell_of :: "('q, 'w) client_task \<Rightarrow> 'w" where
  "cell_of (Disconnected w) = w"
| "cell_of (Connected se) = se_watch se"

text \<open>
  Where the configuration task stands before it applies: it awaits a change, it was notified of
  one, it has cloned the value in the cell.  \<open>gw_seen\<close> is how many values the cell had held at the
  notification; the value cloned a moment later can be a newer one.
\<close>

datatype config_task = AwaitChange | Notified | Cloned RuntimeConfig

record ('q, 'w) gateway =
  gw_client :: "('q, 'w) client_task"
  gw_task :: config_task
  gw_seen :: nat
  gw_proxy :: proxy_system

fun applying :: "writer \<Rightarrow> RuntimeConfig option" where
  "applying Idle = None"
| "applying (ClearConflicts cfg) = Some cfg"
| "applying (SetReady cfg) = Some cfg"
| "applying (ClearReady cfg) = Some cfg"

inductive gateway_step ::
  "('q, 'w) transport \<Rightarrow> decoders \<Rightarrow> XdsClientConfig \<Rightarrow> ('w \<Rightarrow> RuntimeConfig list) \<Rightarrow>
   ('q, 'w) gateway \<Rightarrow> ('q, 'w) gateway \<Rightarrow> bool"
  for T D cfg published
where
  connect:
    "gw_client g = Disconnected w \<Longrightarrow> start_session T cfg w = (se, Ok u) \<Longrightarrow>
     gateway_step T D cfg published g (g\<lparr>gw_client := Connected se\<rparr>)"
| receive:
    "gw_client g = Connected se \<Longrightarrow> handle_response T D (node cfg) se resp = (se', Ok u) \<Longrightarrow>
     gateway_step T D cfg published g (g\<lparr>gw_client := Connected se'\<rparr>)"
| session_fails:
    "gw_client g = Connected se \<Longrightarrow> handle_response T D (node cfg) se resp = (se', Err e) \<Longrightarrow>
     gateway_step T D cfg published g (g\<lparr>gw_client := Disconnected (se_watch se')\<rparr>)"
| stream_ends:
    "gw_client g = Connected se \<Longrightarrow>
     gateway_step T D cfg published g (g\<lparr>gw_client := Disconnected (se_watch se)\<rparr>)"
| changed:
    "gw_task g = AwaitChange \<Longrightarrow> sy_writer (gw_proxy g) = Idle \<Longrightarrow>
     gw_seen g < length (published (cell_of (gw_client g))) \<Longrightarrow>
     gateway_step T D cfg published g
       (g\<lparr>gw_task := Notified, gw_seen := length (published (cell_of (gw_client g)))\<rparr>)"
| borrow:
    "gw_task g = Notified \<Longrightarrow>
     gateway_step T D cfg published g (g\<lparr>gw_task := Cloned (tp_borrow T (cell_of (gw_client g)))\<rparr>)"
| begin_apply:
    "gw_task g = Cloned c \<Longrightarrow> proxy_step (gw_proxy g) y \<Longrightarrow>
     sy_writer (gw_proxy g) = Idle \<Longrightarrow> applying (sy_writer y) = Some c \<Longrightarrow>
     gateway_step T D cfg published g (g\<lparr>gw_task := AwaitChange, gw_proxy := y\<rparr>)"
| proxy:
    "proxy_step (gw_proxy g) y \<Longrightarrow>
     sy_writer (gw_proxy g) \<noteq> Idle \<or> sy_writer y = Idle \<Longrightarrow>
     gateway_step T D cfg published g (g\<lparr>gw_proxy := y\<rparr>)"

section \<open>The start\<close>

text \<open>
  What \<open>main\<close> hands over: the static configuration, if it loads, has been applied and, if it was
  accepted, sent to the cell; the configuration task has seen the initial value only.
\<close>

definition gateway_init ::
  "('q, 'w) transport \<Rightarrow> source_lib \<Rightarrow> string option \<Rightarrow> 'w \<Rightarrow> ('q, 'w) gateway"
where
  "gateway_init T S static_config w =
     (let (s, w') = start_static T S static_config (proxy_state_new initial_config) w
      in \<lparr>gw_client = Disconnected w', gw_task = AwaitChange, gw_seen = 1,
          gw_proxy = \<lparr>sy_shared = s, sy_writer = Idle, sy_reader = NotReading,
            sy_applied = (case static_outcome S static_config of None \<Rightarrow> [] | Some c \<Rightarrow> [c])\<rparr>\<rparr>)"

section \<open>The invariant\<close>

text \<open>What the shared state and the readers look like when only valid configurations are applied.\<close>

definition reader_ok :: "reader \<Rightarrow> ProxyState \<Rightarrow> bool" where
  "reader_ok r s =
     (case r of
        NotReading \<Rightarrow> True
      | ReadReady ready \<Rightarrow> ready \<longrightarrow> ps_conflicts s = []
      | ReadVersion ready version \<Rightarrow> ready \<longrightarrow> ps_conflicts s = []
      | ReadDone report \<Rightarrow> rd_ready report \<longrightarrow> rd_conflicts report = [])"

definition quiet_inv :: "proxy_system \<Rightarrow> bool" where
  "quiet_inv y =
     ((\<forall>c. sy_writer y \<noteq> ClearReady c) \<and> (\<forall>c. applying (sy_writer y) = Some c \<longrightarrow> config_ok c) \<and>
      (ps_ready (sy_shared y) \<longrightarrow> ps_conflicts (sy_shared y) = []) \<and>
      (\<forall>c. sy_writer y = SetReady c \<longrightarrow> ps_conflicts (sy_shared y) = []) \<and>
      (\<forall>c. applying (sy_writer y) = Some c \<longrightarrow> ps_config (sy_shared y) = c) \<and>
      config_ok (ps_config (sy_shared y)) \<and> reader_ok (sy_reader y) (sy_shared y))"

lemma quiet_inv_step:
  assumes "quiet_inv y" and "proxy_step y y'"
    and "\<And>c. sy_writer y = Idle \<Longrightarrow> applying (sy_writer y') = Some c \<Longrightarrow> config_ok c"
  shows "quiet_inv y'"
  using assms(2)
proof cases
  case (write_conflicts c conflicts)
  then have "config_ok c" using assms(3) by simp
  with write_conflicts show ?thesis by (simp add: validate_Err_iff)
qed (use assms in \<open>auto simp: quiet_inv_def reader_ok_def fetch_add_counter_def split: reader.splits\<close>)

text \<open>The values the cell has held from the last notification on.\<close>

definition unseen :: "('w \<Rightarrow> RuntimeConfig list) \<Rightarrow> ('q, 'w) gateway \<Rightarrow> RuntimeConfig list" where
  "unseen published g = drop (gw_seen g - 1) (published (cell_of (gw_client g)))"

definition cell_inv :: "('w \<Rightarrow> RuntimeConfig list) \<Rightarrow> ('q, 'w) gateway \<Rightarrow> bool" where
  "cell_inv published g =
     (list_all config_ok (published (cell_of (gw_client g))) \<and>
      0 < gw_seen g \<and> gw_seen g \<le> length (published (cell_of (gw_client g))))"

text \<open>The task carries one of these values from the moment it clones it until it is served.\<close>

definition task_inv :: "('w \<Rightarrow> RuntimeConfig list) \<Rightarrow> ('q, 'w) gateway \<Rightarrow> bool" where
  "task_inv published g =
     (case gw_task g of
        Notified \<Rightarrow> sy_writer (gw_proxy g) = Idle
      | Cloned c \<Rightarrow> sy_writer (gw_proxy g) = Idle \<and> c \<in> set (unseen published g)
      | AwaitChange \<Rightarrow>
          (case applying (sy_writer (gw_proxy g)) of
             Some c \<Rightarrow> c \<in> set (unseen published g)
           | None \<Rightarrow> 1 < gw_seen g \<longrightarrow>
               ps_config (sy_shared (gw_proxy g)) \<in> set (unseen published g) \<and>
               ps_ready (sy_shared (gw_proxy g))))"

definition gateway_inv :: "('w \<Rightarrow> RuntimeConfig list) \<Rightarrow> ('q, 'w) gateway \<Rightarrow> bool" where
  "gateway_inv published g = (quiet_inv (gw_proxy g) \<and> cell_inv published g \<and> task_inv published g)"

subsection \<open>Steps of the client\<close>

lemma task_inv_grows:
  assumes "task_inv published g" and "set (unseen published g) \<subseteq> set (unseen published (g\<lparr>gw_client := k\<rparr>))"
  shows "task_inv published (g\<lparr>gw_client := k\<rparr>)"
  using assms by (auto simp: task_inv_def split: config_task.splits option.splits)

lemma gateway_inv_grows:
  assumes "gateway_inv published g"
    and "grows_validly (published (cell_of (gw_client g))) (published (cell_of k))"
  shows "gateway_inv published (g\<lparr>gw_client := k\<rparr>)"
proof -
  obtain added where added: "published (cell_of k) = published (cell_of (gw_client g)) @ added"
    "list_all config_ok added"
    using assms(2) by (auto simp: grows_validly_def is_ok_validate)
  then have "set (unseen published g) \<subseteq> set (unseen published (g\<lparr>gw_client := k\<rparr>))"
    by (simp add: unseen_def)
  with assms(1) added show ?thesis
    by (simp add: gateway_inv_def cell_inv_def task_inv_grows)
qed

lemma start_session_watch: "se_watch (fst (start_session T cfg w)) = w"
  by (simp add: start_session_def Let_def split: prod.splits)

subsection \<open>Steps of the configuration task and the proxy\<close>

lemma drop_to_last: "n = length xs \<Longrightarrow> 0 < n \<Longrightarrow> drop (n - 1) xs = [last xs]"
  by (cases xs rule: rev_cases) auto

lemma last_in_drop:
  assumes "n \<le> length xs" and "0 < n"
  shows "last xs \<in> set (drop (n - 1) xs)"
proof -
  have "last xs = last (drop (n - 1) xs)" "drop (n - 1) xs \<noteq> []" using assms by auto
  then show ?thesis by (metis last_in_set)
qed

lemma unseen_last:
  "cell_inv published g \<Longrightarrow> gw_seen g = length (published (cell_of (gw_client g))) \<Longrightarrow>
     unseen published g = [last (published (cell_of (gw_client g)))]"
  unfolding unseen_def cell_inv_def by (intro drop_to_last) auto

lemma last_unseen:
  "cell_inv published g \<Longrightarrow> last (published (cell_of (gw_client g))) \<in> set (unseen published g)"
  unfolding unseen_def cell_inv_def by (intro last_in_drop) auto

lemma unseen_valid: "cell_inv published g \<Longrightarrow> c \<in> set (unseen published g) \<Longrightarrow> config_ok c"
  by (auto simp: unseen_def cell_inv_def list_all_iff dest: in_set_dropD)

lemma unseen_same [simp]:
  "unseen published (g\<lparr>gw_task := t\<rparr>) = unseen published g"
  "unseen published (g\<lparr>gw_proxy := y\<rparr>) = unseen published g"
  by (simp_all add: unseen_def)

lemma cell_inv_same [simp]:
  "cell_inv published (g\<lparr>gw_task := t\<rparr>) = cell_inv published g"
  "cell_inv published (g\<lparr>gw_proxy := y\<rparr>) = cell_inv published g"
  by (simp_all add: cell_inv_def)

lemma begin_apply_inv:
  assumes "gateway_inv published g" and "gw_task g = Cloned c" and "proxy_step (gw_proxy g) y"
    and "sy_writer (gw_proxy g) = Idle" and "applying (sy_writer y) = Some c"
  shows "gateway_inv published (g\<lparr>gw_task := AwaitChange, gw_proxy := y\<rparr>)"
proof -
  have c: "c \<in> set (unseen published g)" "cell_inv published g"
    using assms(1,2) by (simp_all add: gateway_inv_def task_inv_def)
  then have "quiet_inv y"
    using quiet_inv_step [OF _ assms(3)] assms(1,5) unseen_valid by (auto simp: gateway_inv_def)
  with c assms(5) show ?thesis by (simp add: gateway_inv_def task_inv_def)
qed

text \<open>A step that is not the begin of an application keeps or finishes the current one.\<close>

lemma proxy_step_cases:
  assumes "proxy_step y y'" and "quiet_inv y" and "sy_writer y \<noteq> Idle \<or> sy_writer y' = Idle"
  obtains "applying (sy_writer y') = applying (sy_writer y)"
      "ps_config (sy_shared y') = ps_config (sy_shared y)" "ps_ready (sy_shared y') = ps_ready (sy_shared y)"
  | c where "sy_writer y = SetReady c" "sy_writer y' = Idle" "ps_config (sy_shared y') = c"
      "ps_ready (sy_shared y')"
  using assms
  by (cases rule: proxy_step.cases) (auto simp: quiet_inv_def fetch_add_counter_def)

lemma proxy_inv:
  assumes "gateway_inv published g" and "proxy_step (gw_proxy g) y"
    and "sy_writer (gw_proxy g) \<noteq> Idle \<or> sy_writer y = Idle"
  shows "gateway_inv published (g\<lparr>gw_proxy := y\<rparr>)"
proof -
  have inv: "quiet_inv (gw_proxy g)" "task_inv published g" using assms(1) by (simp_all add: gateway_inv_def)
  have "quiet_inv y" by (rule quiet_inv_step [OF inv(1) assms(2)]) (use assms(3) in auto)
  moreover have "task_inv published (g\<lparr>gw_proxy := y\<rparr>)"
    using assms(2) inv(1) assms(3)
  proof (cases rule: proxy_step_cases)
    case 1
    then show ?thesis using inv(2)
      by (cases "sy_writer y"; cases "sy_writer (gw_proxy g)")
        (auto simp: task_inv_def split: config_task.splits)
  next
    case (2 c)
    then show ?thesis using inv(2) by (auto simp: task_inv_def split: config_task.splits)
  qed
  ultimately show ?thesis using assms(1) by (simp add: gateway_inv_def)
qed

lemma gateway_inv_step:
  assumes "watch_law T published" and "gateway_inv published g" and "gateway_step T D cfg published g g'"
  shows "gateway_inv published g'"
  using assms(3)
proof cases
  case (connect w se u)
  then show ?thesis
    using gateway_inv_grows [OF assms(2), of "Connected se"] start_session_watch [of T cfg w] by simp
next
  case (receive se resp se' u)
  then show ?thesis
    using gateway_inv_grows [OF assms(2), of "Connected se'"]
      handle_response_grows [OF assms(1), of se D "node cfg" resp] by simp
next
  case (session_fails se resp se' e)
  then show ?thesis
    using gateway_inv_grows [OF assms(2), of "Disconnected (se_watch se')"]
      handle_response_grows [OF assms(1), of se D "node cfg" resp] by simp
next
  case (stream_ends se)
  then show ?thesis using gateway_inv_grows [OF assms(2), of "Disconnected (se_watch se)"] by simp
next
  case changed
  then show ?thesis using assms(2) by (auto simp: gateway_inv_def task_inv_def cell_inv_def)
next
  case borrow
  then show ?thesis
    using assms(2) watch_law_borrow [OF assms(1)]
    by (auto simp: gateway_inv_def task_inv_def last_unseen)
next
  case (begin_apply c y)
  then show ?thesis using begin_apply_inv [OF assms(2)] by simp
next
  case (proxy y)
  then show ?thesis using proxy_inv [OF assms(2)] by simp
qed

lemma gateway_inv_init:
  assumes "watch_law T published" and "published w = [initial_config]"
  shows "gateway_inv published (gateway_init T S sc w)"
proof -
  have "config_ok initial_config" by (rule initial_config_ok)
  then show ?thesis
    using assms
    by (auto simp: gateway_inv_def gateway_init_def case_prod_beta start_static_state start_static_watch
        quiet_inv_def reader_ok_def cell_inv_def task_inv_def proxy_state_new_def apply_config_cases
        watch_law_send split: option.splits)
qed

interpretation gw: step_system
  "(\<lambda>g. watch_law T published \<and> (\<exists>w S sc. published w = [initial_config] \<and> g = gateway_init T S sc w))"
  "(\<lambda>g g'. watch_law T published \<and> gateway_step T D cfg published g g')" "gateway_inv published"
  for T D cfg published
  by unfold_locales (auto simp: gateway_inv_init intro: gateway_inv_step)

lemma gateway_reachable_inv:
  assumes "watch_law T published" and "published w = [initial_config]"
    and "(gateway_step T D cfg published)\<^sup>*\<^sup>* (gateway_init T S sc w) g"
  shows "gateway_inv published g"
  using assms by (auto intro!: gw.inv_reachable [where D = D and cfg = cfg])

section \<open>Progress\<close>

text \<open>The task has handled everything it can see, and every application it began is finished.\<close>

definition caught_up :: "('w \<Rightarrow> RuntimeConfig list) \<Rightarrow> ('q, 'w) gateway \<Rightarrow> bool" where
  "caught_up published g =
     (gw_task g = AwaitChange \<and> sy_writer (gw_proxy g) = Idle \<and>
      gw_seen g = length (published (cell_of (gw_client g))))"

lemma caught_up_serves:
  assumes "gateway_inv published g" and "caught_up published g" and "watch_law T published"
    and "1 < length (published (cell_of (gw_client g)))"
  shows "ps_config (sy_shared (gw_proxy g)) = tp_borrow T (cell_of (gw_client g)) \<and>
    ps_ready (sy_shared (gw_proxy g)) \<and> ps_conflicts (sy_shared (gw_proxy g)) = []"
  using assms unseen_last [of published g]
  by (auto simp: gateway_inv_def caught_up_def task_inv_def quiet_inv_def watch_law_borrow [OF assms(3)])

text \<open>What is left of an application can be done.\<close>

lemma finish_apply:
  assumes "quiet_inv (gw_proxy g)" and "gw_task g = AwaitChange"
  shows "\<exists>y. (gateway_step T D cfg published)\<^sup>*\<^sup>* g (g\<lparr>gw_proxy := y\<rparr>) \<and> sy_writer y = Idle"
proof -
  have set_ready: "\<exists>y. (gateway_step T D cfg published)\<^sup>*\<^sup>* h (h\<lparr>gw_proxy := y\<rparr>) \<and> sy_writer y = Idle"
    if "sy_writer (gw_proxy h) = SetReady c" for c and h :: "('a, 'b) gateway"
    using proxy_step.set_ready [OF that] that
    by (intro exI conjI, intro r_into_rtranclp gateway_step.proxy) auto
  show ?thesis
  proof (cases "sy_writer (gw_proxy g)")
    case Idle
    then show ?thesis by (intro exI [of _ "gw_proxy g"]) simp
  next
    case (ClearConflicts c)
    obtain z where z: "proxy_step (gw_proxy g) z" "sy_writer z = SetReady c"
      using proxy_step.clear_conflicts [OF ClearConflicts] by fastforce
    then have "gateway_step T D cfg published g (g\<lparr>gw_proxy := z\<rparr>)"
      using ClearConflicts by (intro gateway_step.proxy) auto
    then show ?thesis
      using set_ready [of "g\<lparr>gw_proxy := z\<rparr>" c] z(2)
      by (auto intro: converse_rtranclp_into_rtranclp)
  next
    case (SetReady c)
    then show ?thesis by (rule set_ready)
  next
    case (ClearReady c)
    then show ?thesis using assms(1) by (simp add: quiet_inv_def)
  qed
qed

lemma finish_cloned:
  assumes "gateway_inv published g" and "gw_task g = Cloned c"
  shows "\<exists>y. (gateway_step T D cfg published)\<^sup>*\<^sup>* g (g\<lparr>gw_task := AwaitChange, gw_proxy := y\<rparr>) \<and>
    sy_writer y = Idle"
proof -
  have c: "sy_writer (gw_proxy g) = Idle" "validate c = Ok ()"
    using assms unseen_valid by (auto simp: gateway_inv_def task_inv_def validate_Ok_iff)
  obtain z where z: "proxy_step (gw_proxy g) z" "sy_writer z = ClearConflicts c"
    using proxy_step.write_config [OF c] by fastforce
  then have step: "gateway_step T D cfg published g (g\<lparr>gw_task := AwaitChange, gw_proxy := z\<rparr>)"
    using assms(2) c(1) by (intro gateway_step.begin_apply) auto
  have "quiet_inv z"
    using begin_apply_inv [OF assms z(1) c(1)] z(2) by (simp add: gateway_inv_def)
  then show ?thesis
    using finish_apply [of "g\<lparr>gw_task := AwaitChange, gw_proxy := z\<rparr>" T D cfg published] step
    by (auto intro: converse_rtranclp_into_rtranclp)
qed

lemma finish_notified:
  assumes "watch_law T published" and "gateway_inv published g" and "gw_task g = Notified"
    and "gw_seen g = length (published (cell_of (gw_client g)))"
  shows "\<exists>g'. (gateway_step T D cfg published)\<^sup>*\<^sup>* g g' \<and> gw_client g' = gw_client g \<and> caught_up published g'"
proof -
  let ?g = "g\<lparr>gw_task := Cloned (tp_borrow T (cell_of (gw_client g)))\<rparr>"
  have step: "gateway_step T D cfg published g ?g" by (rule gateway_step.borrow [OF assms(3)])
  obtain y where "(gateway_step T D cfg published)\<^sup>*\<^sup>* ?g (?g\<lparr>gw_task := AwaitChange, gw_proxy := y\<rparr>)"
    "sy_writer y = Idle"
    using finish_cloned [OF gateway_inv_step [OF assms(1,2) step]] by fastforce
  with step assms(4) show ?thesis
    by (intro exI [of _ "?g\<lparr>gw_task := AwaitChange, gw_proxy := y\<rparr>"])
      (auto simp: caught_up_def intro: converse_rtranclp_into_rtranclp)
qed

text \<open>From a state with the task idle: a change is noticed, or there is none.\<close>

lemma catch_up_idle:
  assumes "watch_law T published" and "gateway_inv published g"
    and "gw_task g = AwaitChange" and "sy_writer (gw_proxy g) = Idle"
  shows "\<exists>g'. (gateway_step T D cfg published)\<^sup>*\<^sup>* g g' \<and> gw_client g' = gw_client g \<and> caught_up published g'"
proof (cases "gw_seen g < length (published (cell_of (gw_client g)))")
  case True
  let ?g = "g\<lparr>gw_task := Notified, gw_seen := length (published (cell_of (gw_client g)))\<rparr>"
  have step: "gateway_step T D cfg published g ?g" using gateway_step.changed [where published = published, OF assms(3,4) True] .
  then have "gateway_inv published ?g" by (rule gateway_inv_step [OF assms(1,2)])
  from finish_notified [OF assms(1) this, of D cfg] step show ?thesis
    by (auto intro: converse_rtranclp_into_rtranclp)
next
  case False
  then show ?thesis using assms
    by (intro exI [of _ g]) (auto simp: caught_up_def gateway_inv_def cell_inv_def)
qed

lemma steps_inv:
  "watch_law T published \<Longrightarrow> gateway_inv published g \<Longrightarrow> (gateway_step T D cfg published)\<^sup>*\<^sup>* g g' \<Longrightarrow>
     gateway_inv published g'"
  by (rotate_tac 2, induction rule: rtranclp_induct) (auto intro: gateway_inv_step)

lemma can_catch_up:
  assumes "watch_law T published" and "gateway_inv published g"
  shows "\<exists>g'. (gateway_step T D cfg published)\<^sup>*\<^sup>* g g' \<and> gw_client g' = gw_client g \<and> caught_up published g'"
proof -
  have "\<exists>h. (gateway_step T D cfg published)\<^sup>*\<^sup>* g h \<and> gw_client h = gw_client g \<and>
      gw_task h = AwaitChange \<and> sy_writer (gw_proxy h) = Idle"
  proof (cases "gw_task g")
    case AwaitChange
    then show ?thesis
      using finish_apply [OF _ AwaitChange, of T D cfg published] assms(2)
      by (fastforce simp: gateway_inv_def)
  next
    case Notified
    let ?g = "g\<lparr>gw_task := Cloned (tp_borrow T (cell_of (gw_client g)))\<rparr>"
    have step: "gateway_step T D cfg published g ?g" by (rule gateway_step.borrow [OF Notified])
    have "gw_task ?g = Cloned (tp_borrow T (cell_of (gw_client g)))" by simp
    from finish_cloned [OF gateway_inv_step [OF assms step] this, of T D cfg] obtain y where
      "(gateway_step T D cfg published)\<^sup>*\<^sup>* ?g (?g\<lparr>gw_task := AwaitChange, gw_proxy := y\<rparr>)" "sy_writer y = Idle"
      by blast
    with step show ?thesis
      by (intro exI [of _ "?g\<lparr>gw_task := AwaitChange, gw_proxy := y\<rparr>"])
        (auto intro: converse_rtranclp_into_rtranclp)
  next
    case (Cloned c)
    then show ?thesis using finish_cloned [OF assms(2) Cloned, of T D cfg] by fastforce
  qed
  then obtain h where h: "(gateway_step T D cfg published)\<^sup>*\<^sup>* g h" "gw_client h = gw_client g"
    "gw_task h = AwaitChange" "sy_writer (gw_proxy h) = Idle" by blast
  from catch_up_idle [OF assms(1) steps_inv [OF assms h(1)] h(3,4), of D cfg] h(1,2) show ?thesis
    by (auto intro: rtranclp_trans)
qed

section \<open>Properties\<close>

text \<open>
  C5: in the running gateway, however the client, the configuration task, readers and requests are
  interleaved and whatever the control plane and the static file contain, the stored
  configuration is valid at every moment and no readiness report says ready together with
  conflicts.
\<close>

theorem gateway_always_valid:
  assumes "watch_law T published" and "published w = [initial_config]"
    and "(gateway_step T D cfg published)\<^sup>*\<^sup>* (gateway_init T S static_config w) g"
  shows "is_ok (validate (ps_config (sy_shared (gw_proxy g)))) \<and>
    (ps_ready (sy_shared (gw_proxy g)) \<longrightarrow> ps_conflicts (sy_shared (gw_proxy g)) = []) \<and>
    (\<forall>report. sy_reader (gw_proxy g) = ReadDone report \<longrightarrow> rd_ready report \<longrightarrow> rd_conflicts report = [])"
  using gateway_reachable_inv [OF assms]
  by (auto simp: gateway_inv_def quiet_inv_def reader_ok_def is_ok_validate)

text \<open>
  C4: from every reachable state of the gateway the configuration task can go on, without a step
  of the client, until it has handled every value of the watch cell; and in every such state,
  once the cell has held more than the initial value, the proxy serves exactly the value in the
  cell, is ready and reports no conflicts.
\<close>

theorem gateway_catches_up:
  assumes "watch_law T published" and "published w = [initial_config]"
    and "(gateway_step T D cfg published)\<^sup>*\<^sup>* (gateway_init T S static_config w) g"
  shows "(\<exists>g'. (gateway_step T D cfg published)\<^sup>*\<^sup>* g g' \<and> gw_client g' = gw_client g \<and> caught_up published g') \<and>
    (caught_up published g \<and> 1 < length (published (cell_of (gw_client g))) \<longrightarrow>
       ps_config (sy_shared (gw_proxy g)) = tp_borrow T (cell_of (gw_client g)) \<and>
       ps_ready (sy_shared (gw_proxy g)) \<and> ps_conflicts (sy_shared (gw_proxy g)) = [])"
  using can_catch_up [OF assms(1) gateway_reachable_inv [OF assms]]
    caught_up_serves [OF gateway_reachable_inv [OF assms] _ assms(1)] by blast

section \<open>Witnesses\<close>

text \<open>A file system with one static configuration.\<close>

definition sample_source :: source_lib where
  "sample_source =
     \<lparr>sl_read = \<lambda>path. Ok ''sample'', sl_json_config = \<lambda>raw. Ok sample_config,
      sl_yaml_config = \<lambda>raw. Ok sample_config, sl_json_bootstrap = \<lambda>raw. Err [],
      sl_yaml_bootstrap = \<lambda>raw. Err []\<rparr>"

definition sample_gateway :: "(DiscoveryRequest list, RuntimeConfig \<times> RuntimeConfig list) gateway" where
  "sample_gateway = gateway_init sample_transport sample_source (Some ''/etc/static.yaml'') (initial_config, [])"

lemma sample_config_ok: "config_ok sample_config"
  using sample_config_valid validate_Ok_iff by blast

lemma sample_gateway_start:
  "gw_client sample_gateway = Disconnected (initial_config, [sample_config])"
  "sy_shared (gw_proxy sample_gateway) =
     \<lparr>ps_config = sample_config, ps_conflicts = [], ps_ready = True, ps_picker_counter = 0\<rparr>"
proof -
  have "static_outcome sample_source (Some ''/etc/static.yaml'') = Some sample_config"
    by (simp add: static_outcome_def static_load_def sample_source_def)
  then show "gw_client sample_gateway = Disconnected (initial_config, [sample_config])"
    "sy_shared (gw_proxy sample_gateway) =
     \<lparr>ps_config = sample_config, ps_conflicts = [], ps_ready = True, ps_picker_counter = 0\<rparr>"
    by (simp_all add: sample_gateway_def gateway_init_def case_prod_beta start_static_state start_static_watch
        sample_config_ok apply_config_cases sample_transport_def proxy_state_new_def)
qed

text \<open>A reader that runs to its end in a state where nothing else happens.\<close>

lemma read_steps:
  "\<exists>y. (gateway_step T D cfg published)\<^sup>*\<^sup>* g (g\<lparr>gw_proxy := y\<rparr>) \<and>
     sy_shared y = sy_shared (gw_proxy g) \<and> sy_reader y = ReadDone (readiness (sy_shared (gw_proxy g)))"
proof -
  let ?y = "gw_proxy g"
  let ?y1 = "?y\<lparr>sy_reader := ReadReady (ps_ready (sy_shared ?y))\<rparr>"
  let ?y2 = "?y1\<lparr>sy_reader := ReadVersion (ps_ready (sy_shared ?y)) (rc_version (ps_config (sy_shared ?y1)))\<rparr>"
  let ?y3 = "?y2\<lparr>sy_reader := ReadDone (readiness (sy_shared ?y))\<rparr>"
  have step: "gateway_step T D cfg published (g\<lparr>gw_proxy := a\<rparr>) (g\<lparr>gw_proxy := b\<rparr>)"
    if "proxy_step a b" "sy_writer b = sy_writer a" for a b
    using gateway_step.proxy [of "g\<lparr>gw_proxy := a\<rparr>" b] that by auto
  have "gateway_step T D cfg published (g\<lparr>gw_proxy := ?y\<rparr>) (g\<lparr>gw_proxy := ?y1\<rparr>)"
    by (rule step [OF proxy_step.read_ready]) simp
  moreover have "gateway_step T D cfg published (g\<lparr>gw_proxy := ?y1\<rparr>) (g\<lparr>gw_proxy := ?y2\<rparr>)"
    by (rule step [OF proxy_step.read_version]) simp_all
  moreover have "gateway_step T D cfg published (g\<lparr>gw_proxy := ?y2\<rparr>) (g\<lparr>gw_proxy := ?y3\<rparr>)"
    using proxy_step.read_conflicts [of ?y2] by (intro step) (simp_all add: readiness_def)
  ultimately have "(gateway_step T D cfg published)\<^sup>*\<^sup>* (g\<lparr>gw_proxy := ?y\<rparr>) (g\<lparr>gw_proxy := ?y3\<rparr>)"
    by (meson converse_rtranclp_into_rtranclp rtranclp.rtrancl_refl)
  then show ?thesis by (intro exI [of _ ?y3]) simp
qed

theorem gateway_always_valid_witness:
  "\<exists>g report. (gateway_step sample_transport sample_decoders sample_client (\<lambda>w. fst w # snd w))\<^sup>*\<^sup>*
       sample_gateway g \<and> sy_reader (gw_proxy g) = ReadDone report \<and> rd_ready report \<and>
     rd_conflicts report = [] \<and> is_ok (validate (ps_config (sy_shared (gw_proxy g))))"
proof -
  let ?step = "gateway_step sample_transport sample_decoders sample_client (\<lambda>w. fst w # snd w)"
  obtain y where y: "?step\<^sup>*\<^sup>* sample_gateway (sample_gateway\<lparr>gw_proxy := y\<rparr>)"
    "sy_reader y = ReadDone (readiness (sy_shared (gw_proxy sample_gateway)))"
    using read_steps by blast
  moreover have "rd_ready (readiness (sy_shared (gw_proxy sample_gateway)))"
    by (simp add: readiness_def sample_gateway_start)
  ultimately show ?thesis
    using gateway_always_valid [OF sample_transport_laws(1), of "(initial_config, [])", OF _
        y(1) [unfolded sample_gateway_def]]
    by (intro exI [of _ "sample_gateway\<lparr>gw_proxy := y\<rparr>"]) (auto simp: sample_gateway_def)
qed

theorem gateway_catches_up_witness:
  "\<exists>g. (gateway_step sample_transport sample_decoders sample_client (\<lambda>w. fst w # snd w))\<^sup>*\<^sup>* sample_gateway g \<and>
     caught_up (\<lambda>w. fst w # snd w) g \<and> gw_seen g = 2 \<and>
     ps_config (sy_shared (gw_proxy g)) = sample_config \<and> ps_ready (sy_shared (gw_proxy g))"
proof -
  let ?step = "gateway_step sample_transport sample_decoders sample_client (\<lambda>w. fst w # snd w)"
  note up = gateway_catches_up [OF sample_transport_laws(1), of "(initial_config, [])",
      where S = sample_source and static_config = "Some ''/etc/static.yaml''" and D = sample_decoders
        and cfg = sample_client, folded sample_gateway_def]
  obtain g where g: "?step\<^sup>*\<^sup>* sample_gateway g" "gw_client g = gw_client sample_gateway"
    "caught_up (\<lambda>w. fst w # snd w) g"
    using up [of sample_gateway] by auto
  then show ?thesis
    using up [OF _ g(1)] by (intro exI [of _ g]) (auto simp: sample_gateway_start caught_up_def sample_transport_def)
qed

end
