(* ===== verification/Config_Register.thy ===== *)
theory Config_Register
  imports Gateway
begin

text \<open>
  What the gateway promises to the outside, without its tasks: a register that holds the history
  of accepted configurations and the position of the one that is served.  Valid configurations
  are appended, and the position only moves forward (it may skip).  The gateway refines it, so
  it never goes back to a configuration older than one it has served.
\<close>

section \<open>The register\<close>

inductive register_step :: "RuntimeConfig list \<times> nat \<Rightarrow> RuntimeConfig list \<times> nat \<Rightarrow> bool" where
  accept: "is_ok (validate c) \<Longrightarrow> register_step (h, i) (h @ [c], i)"
| serve: "i \<le> j \<Longrightarrow> j < length h \<Longrightarrow> register_step (h, i) (h, j)"

inductive_cases register_stepE [elim!]: "register_step (h, i) r"

lemma register_forward:
  "register_step\<^sup>*\<^sup>* (h, i) (h', i') \<Longrightarrow> i \<le> i' \<and> (\<exists>added. h' = h @ added \<and> list_all (\<lambda>c. is_ok (validate c)) added)"
proof (induction "(h', i')" arbitrary: h' i' rule: rtranclp_induct)
  case (step r)
  obtain h1 i1 where "r = (h1, i1)" by fastforce
  with step show ?case by fastforce
qed simp

lemma register_accept_all:
  "list_all (\<lambda>c. is_ok (validate c)) added \<Longrightarrow> register_step\<^sup>*\<^sup>* (h, i) (h @ added, i)"
proof (induction added arbitrary: h)
  case (Cons c added)
  then have "register_step (h, i) (h @ [c], i)" by (simp add: accept)
  with Cons.IH [of "h @ [c]"] Cons.prems show ?case by (auto intro: converse_rtranclp_into_rtranclp)
qed simp

section \<open>The gateway refines it\<close>

text \<open>The value the configuration task carries is at or after the position served.\<close>

definition register_of :: "('w \<Rightarrow> RuntimeConfig list) \<Rightarrow> ('q, 'w) gateway \<Rightarrow> RuntimeConfig list \<times> nat \<Rightarrow> bool" where
  "register_of published g r =
     (case r of (h, i) \<Rightarrow>
        gateway_inv published g \<and> h = published (cell_of (gw_client g)) \<and> i < length h \<and>
        ps_config (sy_shared (gw_proxy g)) = h ! i \<and>
        (\<forall>c. gw_task g = Cloned c \<longrightarrow> (\<exists>k. i \<le> k \<and> k < length h \<and> h ! k = c)))"

lemma register_of_grows:
  assumes "register_of published g (h, i)" and "gateway_inv published (g\<lparr>gw_client := k\<rparr>)"
    and "grows_validly (published (cell_of (gw_client g))) (published (cell_of k))"
  shows "\<exists>r. register_step\<^sup>*\<^sup>* (h, i) r \<and> register_of published (g\<lparr>gw_client := k\<rparr>) r"
proof -
  obtain added where added: "published (cell_of k) = published (cell_of (gw_client g)) @ added"
    "list_all (\<lambda>cfg. is_ok (validate cfg)) added"
    using assms(3) by (auto simp: grows_validly_def)
  have h: "h = published (cell_of (gw_client g))" using assms(1) by (simp add: register_of_def)
  have "\<exists>k. i \<le> k \<and> k < length (h @ added) \<and> (h @ added) ! k = c" if "gw_task g = Cloned c" for c
    using assms(1) that by (fastforce simp: register_of_def nth_append)
  then have "register_of published (g\<lparr>gw_client := k\<rparr>) (h @ added, i)"
    using assms(1,2) h added(1) by (simp add: register_of_def nth_append)
  then show ?thesis using register_accept_all [OF added(2)] by blast
qed

text \<open>A client's step, whichever it is, only adds to the cell.\<close>

lemma client_step_grows:
  assumes "watch_law T published" and "gateway_step T D cfg published g g'"
  shows "(gw_task g' = gw_task g \<and> gw_proxy g' = gw_proxy g \<and> g' = g\<lparr>gw_client := gw_client g'\<rparr> \<and>
      grows_validly (published (cell_of (gw_client g))) (published (cell_of (gw_client g')))) \<or>
    gw_client g' = gw_client g"
  using assms(2)
proof cases
  case (connect w se u)
  then show ?thesis using start_session_watch [of T cfg w] by simp
next
  case (receive se resp se' u)
  then show ?thesis using handle_response_grows [OF assms(1), of se D "node cfg" resp] by simp
next
  case (session_fails se resp se' e)
  then show ?thesis using handle_response_grows [OF assms(1), of se D "node cfg" resp] by simp
qed simp_all

text \<open>Within the proxy the configuration is replaced only by the value the task carries.\<close>

lemma proxy_step_config:
  assumes "proxy_step y y'" and "sy_writer y = Idle" and "applying (sy_writer y') = Some c" and "config_ok c"
  shows "ps_config (sy_shared y') = c"
  using assms by (cases rule: proxy_step.cases) (auto simp: validate_Err_iff)

lemma proxy_step_same_config:
  "proxy_step y y' \<Longrightarrow> sy_writer y \<noteq> Idle \<or> sy_writer y' = Idle \<Longrightarrow>
     ps_config (sy_shared y') = ps_config (sy_shared y)"
  by (cases rule: proxy_step.cases) (auto simp: fetch_add_counter_def)

lemma gateway_matched:
  assumes "watch_law T published" and "register_of published g (h, i)" and "gateway_step T D cfg published g g'"
  shows "\<exists>r. register_step\<^sup>*\<^sup>* (h, i) r \<and> register_of published g' r"
proof -
  have inv: "gateway_inv published g" using assms(2) by (simp add: register_of_def)
  have inv': "gateway_inv published g'" by (rule gateway_inv_step [OF assms(1) inv assms(3)])
  have h: "h = published (cell_of (gw_client g))" "i < length h" using assms(2) by (auto simp: register_of_def)
  show ?thesis
  proof (cases "gw_client g' = gw_client g")
    case False
    with client_step_grows [OF assms(1,3)] have eq: "g' = g\<lparr>gw_client := gw_client g'\<rparr>"
      and grows: "grows_validly (published (cell_of (gw_client g))) (published (cell_of (gw_client g')))" by auto
    with register_of_grows [OF assms(2) _ grows] inv' show ?thesis by metis
  next
    case client: True
    from assms(3) show ?thesis
    proof cases
      case borrow
      have "h ! (length h - 1) = tp_borrow T (cell_of (gw_client g))"
        using h watch_law_borrow [OF assms(1)] last_conv_nth [OF watch_law_nonempty [OF assms(1)]] by simp
      then have "register_of published g' (h, i)"
        using assms(2) inv' h borrow by (auto simp: register_of_def intro!: exI [of _ "length h - 1"])
      then show ?thesis by blast
    next
      case (begin_apply c y)
      obtain k where k: "i \<le> k" "k < length h" "h ! k = c"
        using assms(2) begin_apply(2) by (auto simp: register_of_def)
      have "config_ok c"
        using inv begin_apply(2) unseen_valid by (auto simp: gateway_inv_def task_inv_def)
      then have "ps_config (sy_shared y) = c" by (rule proxy_step_config [OF begin_apply(3-5)])
      then have "register_of published g' (h, k)"
        unfolding register_of_def prod.case using inv' h(1) k by (simp add: begin_apply(1))
      then show ?thesis using r_into_rtranclp [of register_step, OF serve [OF k(1,2)]] by blast
    next
      case (proxy y)
      then have "register_of published g' (h, i)"
        using proxy_step_same_config [OF proxy(2,3)] assms(2) inv' by (auto simp: register_of_def)
      then show ?thesis by blast
    next
      case changed
      then have "register_of published g' (h, i)" using assms(2) inv' by (auto simp: register_of_def)
      then show ?thesis by blast
    qed (use assms(2) inv' client in \<open>auto simp: register_of_def intro!: exI [of _ "(h, i)"]\<close>)
  qed
qed

interpretation reg: simulation
  "(\<lambda>g g'. watch_law T published \<and> gateway_step T D cfg published g g')" register_step "register_of published"
  for T D cfg published
proof unfold_locales
  fix g r g'
  assume "register_of published g r" and "watch_law T published \<and> gateway_step T D cfg published g g'"
  then show "\<exists>r'. register_step\<^sup>*\<^sup>* r r' \<and> register_of published g' r'"
    using gateway_matched by (cases r) blast
qed

lemma register_of_init:
  assumes "watch_law T published" and "receiver_listening T w" and "published w = [initial_config]"
  shows "\<exists>r. register_step\<^sup>*\<^sup>* ([initial_config], 0) r \<and> register_of published (gateway_init T S sc w) r"
proof (cases "\<exists>c. static_outcome S sc = Some c \<and> config_ok c")
  case False
  then have "register_of published (gateway_init T S sc w) ([initial_config], 0)"
    using gateway_inv_init [OF assms(1,3)] assms(3)
    by (auto simp: register_of_def gateway_init_def case_prod_beta start_static_state start_static_watch
        proxy_state_new_def apply_config_cases split: option.splits)
  then show ?thesis by blast
next
  case True
  then obtain c where c: "static_outcome S sc = Some c" "config_ok c" by blast
  obtain w' where w': "tp_config_send T w c = Some w'" using assms(2) unfolding receiver_listening_def by fastforce
  then have pub: "published w' = [initial_config, c]" using watch_law_send [OF assms(1)] assms(3) by simp
  then have "register_of published (gateway_init T S sc w) ([initial_config, c], 1)"
    using gateway_inv_init [OF assms(1,3), of S sc] c w'
    by (simp add: register_of_def gateway_init_def case_prod_beta start_static_state start_static_watch
        proxy_state_new_def apply_config_cases)
  moreover have "register_step\<^sup>*\<^sup>* ([initial_config], 0) ([initial_config, c], 1)"
    using register_accept_all [of "[c]" "[initial_config]" 0] serve [of 0 1 "[initial_config, c]"] c(2)
    by (simp add: is_ok_validate)
  ultimately show ?thesis by blast
qed

text \<open>Two moments of a run, the earlier one first.\<close>

lemma gateway_register_run:
  assumes "watch_law T published" and "receiver_listening T w" and "published w = [initial_config]"
    and "(gateway_step T D cfg published)\<^sup>*\<^sup>* (gateway_init T S sc w) g"
    and "(gateway_step T D cfg published)\<^sup>*\<^sup>* g g'"
  shows "\<exists>r r'. register_step\<^sup>*\<^sup>* ([initial_config], 0) r \<and> register_of published g r \<and>
    register_step\<^sup>*\<^sup>* r r' \<and> register_of published g' r'"
proof -
  have run: "(gateway_step T D cfg published)\<^sup>*\<^sup>* a b \<Longrightarrow> register_of published a r \<Longrightarrow>
      \<exists>r'. register_step\<^sup>*\<^sup>* r r' \<and> register_of published b r'" for a b r
    using reg.matched_run [of T published D cfg a b r] assms(1) by simp
  obtain r0 where r0: "register_step\<^sup>*\<^sup>* ([initial_config], 0) r0" "register_of published (gateway_init T S sc w) r0"
    using register_of_init [OF assms(1-3)] by blast
  obtain r where r: "register_step\<^sup>*\<^sup>* r0 r" "register_of published g r" using run [OF assms(4) r0(2)] by blast
  obtain r' where "register_step\<^sup>*\<^sup>* r r'" "register_of published g' r'" using run [OF assms(5) r(2)] by blast
  with r0(1) r show ?thesis by (meson rtranclp_trans)
qed

end
