(* ===== verification/Upstream_Tls.thy ===== *)
theory Upstream_Tls
  imports Core_Config
begin

text \<open>
  The upstream side of \<open>crates/proxy/src/server.rs\<close> (lines 169 to 467): the mTLS client pool with
  its cache, the certificate providers of the gRPC bootstrap, loading of PEM files and the
  server certificate verifier.  The file system, \<open>serde_json\<close>, \<open>rustls\<close>, \<open>rustls_pemfile\<close> and
  \<open>hyper\<close> are the parameter record \<open>tls_lib\<close>; since files change over time, each call takes the
  library as it is at that moment.

  Results: the cache key separates the settings a client is built from unless a field contains
  the separator, so that a cached client is the one that would be built; a cached client is
  never rebuilt, whatever happens to the files; the ALPN list of a cluster has no effect; the
  verifier accepts a trusted certificate under every server name.
\<close>

section \<open>The libraries\<close>

record FileWatcherConfig =
  fw_certificate_file :: "string option"
  fw_private_key_file :: "string option"
  fw_ca_certificate_file :: "string option"

record CertificateProvider =
  cp_config :: FileWatcherConfig

record GrpcBootstrap =
  gb_certificate_providers :: "string \<rightharpoonup> CertificateProvider"

record ('roots, 'config, 'client) tls_lib =
  tl_open :: "string \<Rightarrow> (bytes, string) result"
  tl_parse_bootstrap :: "bytes \<Rightarrow> (GrpcBootstrap, string) result"
  tl_pem_certs :: "bytes \<Rightarrow> (bytes list, string) result"
  tl_pem_pkcs8 :: "bytes \<Rightarrow> (bytes list, string) result"
  tl_pem_rsa :: "bytes \<Rightarrow> (bytes list, string) result"
  tl_roots_empty :: 'roots
  tl_roots_add :: "'roots \<Rightarrow> bytes \<Rightarrow> ('roots, string) result"
  tl_client_config :: "'roots \<Rightarrow> bytes list \<Rightarrow> bytes \<Rightarrow> ('config, string) result"
  tl_https_client :: "'config \<Rightarrow> string option \<Rightarrow> 'client"

section \<open>Certificate providers\<close>

definition provider :: "GrpcBootstrap \<Rightarrow> string \<Rightarrow> (FileWatcherConfig, string) result" where
  "provider b name =
     ok_or (map_option cp_config (gb_certificate_providers b name))
       (''certificate_providers['' @ debug_str name @ ''] not found'')"

definition required_path :: "FileWatcherConfig \<Rightarrow> string \<Rightarrow> string \<Rightarrow> (string, string) result" where
  "required_path f field prov =
     (let required = (\<lambda>path. ok_or path
            (''certificate_providers['' @ debug_str prov @ ''].config.'' @ field @ '' is required''))
      in if field = ''certificate_file'' then required (fw_certificate_file f)
         else if field = ''private_key_file'' then required (fw_private_key_file f)
         else if field = ''ca_certificate_file'' then required (fw_ca_certificate_file f)
         else Err (''unknown file watcher field '' @ field))"

section \<open>Loading PEM files\<close>

definition load_certs ::
  "('roots, 'config, 'client) tls_lib \<Rightarrow> string \<Rightarrow> string \<Rightarrow> (bytes list, string) result"
where
  "load_certs L path label =
     and_then (map_err (\<lambda>e. ''open '' @ label @ '' '' @ path @ '': '' @ e) (tl_open L path)) (\<lambda>file.
     and_then (map_err (\<lambda>e. ''parse '' @ label @ '' '' @ path @ '': '' @ e) (tl_pem_certs L file)) (\<lambda>certs.
       if certs = [] then Err (''parse '' @ label @ '' '' @ path @ '': no certificates found'')
       else Ok certs))"

fun add_roots ::
  "('roots, 'config, 'client) tls_lib \<Rightarrow> string \<Rightarrow> 'roots \<Rightarrow> bytes list \<Rightarrow> ('roots, string) result"
where
  "add_roots L path roots [] = Ok roots"
| "add_roots L path roots (cert # certs) =
     and_then (map_err (\<lambda>e. ''add data-plane CA certificate '' @ path @ '': '' @ e)
                 (tl_roots_add L roots cert))
       (\<lambda>roots'. add_roots L path roots' certs)"

definition load_roots :: "('roots, 'config, 'client) tls_lib \<Rightarrow> string \<Rightarrow> ('roots, string) result" where
  "load_roots L path =
     and_then (load_certs L path ''data-plane CA certificate'') (add_roots L path (tl_roots_empty L))"

datatype KeyFormat = Pkcs8 | Rsa

definition load_private_keys ::
  "('roots, 'config, 'client) tls_lib \<Rightarrow> string \<Rightarrow> KeyFormat \<Rightarrow> (bytes list, string) result"
where
  "load_private_keys L path fmt =
     and_then (map_err (\<lambda>e. ''open data-plane client private key '' @ path @ '': '' @ e) (tl_open L path))
       (\<lambda>file. map_err (\<lambda>e. ''parse data-plane client private key '' @ path @ '': '' @ e)
          (case fmt of Pkcs8 \<Rightarrow> tl_pem_pkcs8 L file | Rsa \<Rightarrow> tl_pem_rsa L file))"

definition load_private_key :: "('roots, 'config, 'client) tls_lib \<Rightarrow> string \<Rightarrow> (bytes, string) result" where
  "load_private_key L path =
     and_then (load_private_keys L path Pkcs8) (\<lambda>keys.
       case keys of
         key # _ \<Rightarrow> Ok key
       | [] \<Rightarrow>
           and_then (load_private_keys L path Rsa) (\<lambda>keys'.
             case keys' of
               key # _ \<Rightarrow> Ok key
             | [] \<Rightarrow> Err (''parse data-plane client private key '' @ path @
                          '': no PKCS8 or RSA keys found'')))"

section \<open>The client pool\<close>

record 'client MtlsClientPool =
  mp_bootstrap :: GrpcBootstrap
  mp_clients :: "string \<rightharpoonup> 'client"
  mp_poisoned :: bool

definition mtls_cache_key :: "UpstreamTls \<Rightarrow> string" where
  "mtls_cache_key tls =
     unwrap_or (tls_sni tls) [] @ ''|'' @
     unwrap_or (tls_certificate_provider tls) ''default'' @ ''|'' @
     unwrap_or (tls_validation_provider tls) ''default'' @ ''|'' @
     str_join '','' (tls_alpn_protocols tls)"

definition from_bootstrap ::
  "('roots, 'config, 'client) tls_lib \<Rightarrow> string \<Rightarrow> ('client MtlsClientPool, string) result"
where
  "from_bootstrap L path =
     and_then (map_err (\<lambda>e. ''open gRPC xDS bootstrap '' @ path @ '': '' @ e) (tl_open L path)) (\<lambda>file.
     and_then (map_err (\<lambda>e. ''parse gRPC xDS bootstrap '' @ path @ '': '' @ e)
                 (tl_parse_bootstrap L file)) (\<lambda>bootstrap.
       Ok \<lparr>mp_bootstrap = bootstrap, mp_clients = Map.empty, mp_poisoned = False\<rparr>))"

definition tls_config ::
  "('roots, 'config, 'client) tls_lib \<Rightarrow> GrpcBootstrap \<Rightarrow> UpstreamTls \<Rightarrow> ('config, string) result"
where
  "tls_config L b tls =
     (let cert_provider = unwrap_or (tls_certificate_provider tls) ''default'';
          root_provider = unwrap_or (tls_validation_provider tls) ''default''
      in and_then (provider b cert_provider) (\<lambda>cert_config.
         and_then (provider b root_provider) (\<lambda>root_config.
         and_then (required_path cert_config ''certificate_file'' cert_provider) (\<lambda>cert_file.
         and_then (required_path cert_config ''private_key_file'' cert_provider) (\<lambda>key_file.
         and_then (required_path root_config ''ca_certificate_file'' root_provider) (\<lambda>ca_file.
         and_then (load_certs L cert_file ''data-plane client certificate'') (\<lambda>certs.
         and_then (load_private_key L key_file) (\<lambda>key.
         and_then (load_roots L ca_file) (\<lambda>roots.
           map_err (\<lambda>e. ''build data-plane mTLS client config: '' @ e)
             (tl_client_config L roots certs key))))))))))"

definition server_name_override :: "UpstreamTls \<Rightarrow> string option" where
  "server_name_override tls =
     (case tls_sni tls of Some sni \<Rightarrow> if sni \<noteq> [] then Some sni else None | None \<Rightarrow> None)"

definition build_client ::
  "('roots, 'config, 'client) tls_lib \<Rightarrow> GrpcBootstrap \<Rightarrow> UpstreamTls \<Rightarrow> ('client, string) result"
where
  "build_client L b tls =
     and_then (tls_config L b tls) (\<lambda>config. Ok (tl_https_client L config (server_name_override tls)))"

definition client_for ::
  "('roots, 'config, 'client) tls_lib \<Rightarrow> 'client MtlsClientPool \<Rightarrow> UpstreamTls \<Rightarrow>
   ('client, string) result \<times> 'client MtlsClientPool"
where
  "client_for L pool tls =
     (let key = mtls_cache_key tls
      in if mp_poisoned pool then (Err ''mTLS client cache lock poisoned'', pool)
         else
           (case mp_clients pool key of
              Some client \<Rightarrow> (Ok client, pool)
            | None \<Rightarrow>
                (case build_client L (mp_bootstrap pool) tls of
                   Err e \<Rightarrow> (Err e, pool)
                 | Ok client \<Rightarrow>
                     (Ok client, pool\<lparr>mp_clients := (mp_clients pool)(key \<mapsto> client)\<rparr>))))"

section \<open>Upstream clients\<close>

datatype 'client MtlsSupport = Disabled | Available "'client MtlsClientPool" | Error string

record 'client UpstreamClients =
  uc_mtls :: "'client MtlsSupport"

definition clients_from_env ::
  "('roots, 'config, 'client) tls_lib \<Rightarrow> string option \<Rightarrow> 'client UpstreamClients"
where
  "clients_from_env L var =
     \<lparr>uc_mtls =
        (case var of
           Some path \<Rightarrow>
             if path \<noteq> [] then
               (case from_bootstrap L path of Ok pool \<Rightarrow> Available pool | Err err \<Rightarrow> Error err)
             else Disabled
         | None \<Rightarrow> Disabled)\<rparr>"

section \<open>The server certificate verifier\<close>

datatype CertificateError = NotValidForName | OtherCertificateError string

datatype TlsError = InvalidCertificate CertificateError | OtherTlsError string

text \<open>\<open>args\<close> stands for the certificates, server name, SCTs, OCSP response and time.\<close>

definition verify_server_cert ::
  "('args \<Rightarrow> (unit, TlsError) result) \<Rightarrow> 'args \<Rightarrow> (unit, TlsError) result"
where
  "verify_server_cert inner args =
     (case inner args of
        Ok verified \<Rightarrow> Ok verified
      | Err (InvalidCertificate NotValidForName) \<Rightarrow> Ok ()
      | Err err \<Rightarrow> Err err)"

section \<open>What a client is built from\<close>

text \<open>The settings that reach the built client: server name and the two provider names.\<close>

definition client_settings :: "UpstreamTls \<Rightarrow> string \<times> string \<times> string" where
  "client_settings tls =
     (unwrap_or (tls_sni tls) [], unwrap_or (tls_certificate_provider tls) ''default'',
      unwrap_or (tls_validation_provider tls) ''default'')"

definition key_separable :: "UpstreamTls \<Rightarrow> bool" where
  "key_separable tls =
     (CHR ''|'' \<notin> set (unwrap_or (tls_sni tls) []) \<and>
      CHR ''|'' \<notin> set (unwrap_or (tls_certificate_provider tls) ''default'') \<and>
      CHR ''|'' \<notin> set (unwrap_or (tls_validation_provider tls) ''default''))"

lemma build_client_settings:
  assumes "client_settings tls = client_settings tls'"
  shows "build_client L b tls = build_client L b tls'"
proof -
  have "server_name_override t = (if unwrap_or (tls_sni t) [] = [] then None
      else Some (unwrap_or (tls_sni t) []))" for t
    by (cases "tls_sni t") (simp_all add: server_name_override_def)
  with assms show ?thesis
    by (simp add: build_client_def tls_config_def client_settings_def)
qed

lemma mtls_cache_key_settings:
  assumes "mtls_cache_key tls = mtls_cache_key tls'" and "key_separable tls" and "key_separable tls'"
  shows "client_settings tls = client_settings tls'"
  using assms unfolding mtls_cache_key_def key_separable_def client_settings_def
  by (auto dest!: append_Cons_unique [where c = "CHR ''|''", simplified])

text \<open>Every cached client is one that the current files give for some settings with that key.\<close>

definition pool_ok ::
  "('roots, 'config, 'client) tls_lib \<Rightarrow> 'client MtlsClientPool \<Rightarrow> bool"
where
  "pool_ok L pool =
     (\<forall>key client. mp_clients pool key = Some client \<longrightarrow>
        (\<exists>tls. key_separable tls \<and> mtls_cache_key tls = key \<and>
               build_client L (mp_bootstrap pool) tls = Ok client))"

lemma client_for_bootstrap [simp]: "mp_bootstrap (snd (client_for L pool tls)) = mp_bootstrap pool"
  by (simp add: client_for_def Let_def split: option.splits result.splits)

lemma client_for_poisoned [simp]: "mp_poisoned (snd (client_for L pool tls)) = mp_poisoned pool"
  by (simp add: client_for_def Let_def split: option.splits result.splits)

lemma client_for_pool_ok:
  "pool_ok L pool \<Longrightarrow> key_separable tls \<Longrightarrow> pool_ok L (snd (client_for L pool tls))"
  by (auto simp: client_for_def Let_def pool_ok_def split: option.splits result.splits if_splits)

lemma client_for_correct:
  assumes "pool_ok L pool" and "key_separable tls" and "\<not> mp_poisoned pool"
  shows "fst (client_for L pool tls) = build_client L (mp_bootstrap pool) tls"
proof (cases "mp_clients pool (mtls_cache_key tls)")
  case (Some client)
  then obtain tls' where "key_separable tls'" "mtls_cache_key tls' = mtls_cache_key tls"
    "build_client L (mp_bootstrap pool) tls' = Ok client"
    using assms(1) by (auto simp: pool_ok_def)
  moreover from this have "build_client L (mp_bootstrap pool) tls' = build_client L (mp_bootstrap pool) tls"
    using assms(2) by (intro build_client_settings mtls_cache_key_settings)
  ultimately show ?thesis
    using Some assms(3) by (simp add: client_for_def Let_def)
next
  case None
  then show ?thesis
    using assms(3) by (auto simp: client_for_def Let_def split: result.splits)
qed

text \<open>A sequence of requests for clients.\<close>

fun clients_for ::
  "('roots, 'config, 'client) tls_lib \<Rightarrow> 'client MtlsClientPool \<Rightarrow> UpstreamTls list \<Rightarrow>
   ('client, string) result list"
where
  "clients_for L pool [] = []"
| "clients_for L pool (tls # rest) =
     (let (r, pool') = client_for L pool tls in r # clients_for L pool' rest)"

lemma clients_for_correct:
  "pool_ok L pool \<Longrightarrow> \<not> mp_poisoned pool \<Longrightarrow> list_all key_separable reqs \<Longrightarrow>
     clients_for L pool reqs = map (build_client L (mp_bootstrap pool)) reqs"
proof (induction reqs arbitrary: pool)
  case (Cons tls reqs)
  obtain r pool' where c: "client_for L pool tls = (r, pool')" by fastforce
  have "pool_ok L pool'" "mp_bootstrap pool' = mp_bootstrap pool" "\<not> mp_poisoned pool'"
    using client_for_pool_ok [of L pool tls] client_for_bootstrap [of L pool tls]
      client_for_poisoned [of L pool tls] Cons.prems c by simp_all
  moreover have "r = build_client L (mp_bootstrap pool) tls"
    using client_for_correct [of L pool tls] Cons.prems c by simp
  ultimately show ?case
    using Cons.IH [of pool'] Cons.prems c by simp
qed simp

section \<open>A sample library\<close>

text \<open>
  Files with one entry each, PEM parsing that returns the file as the only item, and clients
  that are the certificate and server name they were built from.
\<close>

definition sample_fs :: "string \<Rightarrow> (bytes, string) result" where
  "sample_fs path = (if path = ''missing'' then Err ''not found'' else Ok (map of_char path))"

definition sample_provider :: CertificateProvider where
  "sample_provider = \<lparr>cp_config = \<lparr>fw_certificate_file = Some ''cert-chain.pem'',
     fw_private_key_file = Some ''key.pem'', fw_ca_certificate_file = Some ''root-cert.pem''\<rparr>\<rparr>"

definition sample_lib ::
  "(string \<Rightarrow> (bytes, string) result) \<Rightarrow>
   (bytes list, bytes list \<times> bytes list \<times> bytes, (bytes list \<times> bytes list \<times> bytes) \<times> string option) tls_lib"
where
  "sample_lib fs = \<lparr>tl_open = fs,
     tl_parse_bootstrap = \<lambda>_. Ok \<lparr>gb_certificate_providers = [''default'' \<mapsto> sample_provider]\<rparr>,
     tl_pem_certs = \<lambda>file. Ok [file], tl_pem_pkcs8 = \<lambda>file. Ok [file], tl_pem_rsa = \<lambda>file. Ok [],
     tl_roots_empty = [], tl_roots_add = \<lambda>roots cert. Ok (cert # roots),
     tl_client_config = \<lambda>roots certs key. Ok (roots, certs, key),
     tl_https_client = \<lambda>config name. (config, name)\<rparr>"

definition sample_tls :: UpstreamTls where
  "sample_tls = \<lparr>tls_sni = Some ''orders'', tls_certificate_provider = None,
     tls_validation_provider = None, tls_alpn_protocols = [''h2'']\<rparr>"

definition sample_pool ::
  "((bytes list \<times> bytes list \<times> bytes) \<times> string option) MtlsClientPool"
where
  "sample_pool = \<lparr>mp_bootstrap = \<lparr>gb_certificate_providers = [''default'' \<mapsto> sample_provider]\<rparr>,
     mp_clients = Map.empty, mp_poisoned = False\<rparr>"

lemma sample_bootstrap: "from_bootstrap (sample_lib sample_fs) ''bootstrap.json'' = Ok sample_pool"
  by (simp add: from_bootstrap_def sample_lib_def sample_fs_def sample_pool_def)

lemma sample_build:
  "build_client (sample_lib fs) (mp_bootstrap sample_pool) sample_tls =
     (case (fs ''cert-chain.pem'', fs ''key.pem'', fs ''root-cert.pem'') of
        (Ok cert, Ok key, Ok ca) \<Rightarrow> Ok (([ca], [cert], key), Some ''orders'')
      | _ \<Rightarrow> build_client (sample_lib fs) (mp_bootstrap sample_pool) sample_tls)"
  by (simp add: build_client_def tls_config_def sample_tls_def sample_pool_def provider_def
      required_path_def sample_provider_def load_certs_def load_private_key_def load_private_keys_def
      load_roots_def sample_lib_def server_name_override_def split: result.split)

section \<open>Properties\<close>

text \<open>
  C20: the client cache of a freshly loaded pool is transparent: as long as the files do not change
  (one state \<open>L\<close> of the library throughout) and no setting contains the key separator, each request for a client gets exactly the client (or the error) that would
  be built for it without a cache, in any sequence of requests.
\<close>

theorem client_cache_transparent:
  assumes "from_bootstrap L path = Ok pool" and "list_all key_separable reqs"
  shows "clients_for L pool reqs = map (build_client L (mp_bootstrap pool)) reqs"
proof (rule clients_for_correct)
  show "pool_ok L pool" "\<not> mp_poisoned pool"
    using assms(1) by (auto simp: from_bootstrap_def pool_ok_def)
qed (rule assms(2))

theorem client_cache_transparent_witness:
  "clients_for (sample_lib sample_fs) sample_pool [sample_tls, sample_tls] =
     map (build_client (sample_lib sample_fs) (mp_bootstrap sample_pool)) [sample_tls, sample_tls]"
  by (rule client_cache_transparent [OF sample_bootstrap]) (simp add: key_separable_def sample_tls_def)

text \<open>
  C30: a client once built is never rebuilt: whatever the certificate files, the private key or
  the bootstrap's certificate authorities become later, every later request with the same key
  gets the old client, so rotated certificates are not picked up before a restart.
\<close>

theorem mtls_client_never_reloaded:
  assumes "client_for L pool tls = (Ok client, pool')"
    and "mtls_cache_key tls' = mtls_cache_key tls"
  shows "client_for L' pool' tls' = (Ok client, pool')"
  using assms by (auto simp: client_for_def Let_def split: if_splits option.splits result.splits)

theorem mtls_client_never_reloaded_witness:
  "fst (client_for (sample_lib sample_fs) sample_pool sample_tls) =
     fst (client_for (sample_lib (\<lambda>path. Ok [0])) (snd (client_for (sample_lib sample_fs) sample_pool
       sample_tls)) sample_tls) \<and>
   fst (client_for (sample_lib (\<lambda>path. Ok [0])) sample_pool sample_tls) \<noteq>
     fst (client_for (sample_lib sample_fs) sample_pool sample_tls)"
proof -
  have empty: "mp_clients sample_pool = Map.empty" "\<not> mp_poisoned sample_pool"
    by (simp_all add: sample_pool_def)
  have r: "fst (client_for (sample_lib fs) sample_pool sample_tls) =
      build_client (sample_lib fs) (mp_bootstrap sample_pool) sample_tls" for fs
    by (simp add: client_for_def Let_def empty split: result.split)
  have o: "build_client (sample_lib sample_fs) (mp_bootstrap sample_pool) sample_tls =
      Ok (([map of_char ''root-cert.pem''], [map of_char ''cert-chain.pem''], map of_char ''key.pem''),
          Some ''orders'')"
    by (subst sample_build) (simp add: sample_fs_def)
  have n: "build_client (sample_lib (\<lambda>path. Ok [0])) (mp_bootstrap sample_pool) sample_tls =
      Ok (([[0]], [[0]], [0]), Some ''orders'')"
    by (subst sample_build) simp
  have c: "client_for (sample_lib sample_fs) sample_pool sample_tls =
      (Ok (([map of_char ''root-cert.pem''], [map of_char ''cert-chain.pem''], map of_char ''key.pem''),
          Some ''orders''), snd (client_for (sample_lib sample_fs) sample_pool sample_tls))"
    using r [of sample_fs] by (simp add: prod_eq_iff o)
  have "fst (client_for (sample_lib (\<lambda>path. Ok [0])) (snd (client_for (sample_lib sample_fs) sample_pool
       sample_tls)) sample_tls) =
      Ok (([map of_char ''root-cert.pem''], [map of_char ''cert-chain.pem''], map of_char ''key.pem''),
          Some ''orders'')"
    using mtls_client_never_reloaded [OF c refl, of "sample_lib (\<lambda>path. Ok [0])"] by simp
  then show ?thesis by (simp add: r o n)
qed

text \<open>
  The cache key is ambiguous once a provider name or server name contains the separator: two
  settings that need different certificates then share one client.
\<close>

lemma mtls_cache_key_collision:
  "let a = \<lparr>tls_sni = Some x, tls_certificate_provider = Some (y @ ''|'' @ z),
            tls_validation_provider = v, tls_alpn_protocols = alpn\<rparr>;
       b = \<lparr>tls_sni = Some (x @ ''|'' @ y), tls_certificate_provider = Some z,
            tls_validation_provider = v, tls_alpn_protocols = alpn\<rparr>
   in mtls_cache_key a = mtls_cache_key b \<and> client_settings a \<noteq> client_settings b"
  by (simp add: Let_def mtls_cache_key_def client_settings_def)

text \<open>
  The ALPN protocols of a cluster have no effect on the client that is built for it; they
  only take part in the cache key.
\<close>

lemma alpn_has_no_effect:
  "build_client L b (tls\<lparr>tls_alpn_protocols := protocols\<rparr>) = build_client L b tls"
  by (rule build_client_settings) (simp add: client_settings_def)

text \<open>
  Given that the web PKI verifier checks the chain first and the name last, the proxy's
  verifier decides by the chain alone: a certificate with a trusted chain is accepted under
  every server name, and no identity inside it is looked at.
\<close>

lemma verifier_ignores_server_name:
  assumes "\<And>cert name. inner (cert, name) =
      (case chain cert of
         Err e \<Rightarrow> Err e
       | Ok _ \<Rightarrow> if valid_for cert name then Ok () else Err (InvalidCertificate NotValidForName))"
    and "chain cert \<noteq> Err (InvalidCertificate NotValidForName)"
  shows "verify_server_cert inner (cert, name) = chain cert"
  using assms(2)
  by (auto simp: verify_server_cert_def assms(1) split: result.splits TlsError.splits CertificateError.splits)

lemma verifier_ignores_server_name_example:
  "verify_server_cert (\<lambda>(cert, name). case (if cert = (1::nat) then Ok () else Err (OtherTlsError [])) of
       Err e \<Rightarrow> Err e
     | Ok _ \<Rightarrow> if name = ''orders'' then Ok () else Err (InvalidCertificate NotValidForName)) (1, ''payments'') =
   Ok ()"
  by (rule verifier_ignores_server_name [where chain = "\<lambda>cert. if cert = (1::nat) then Ok () else Err (OtherTlsError [])"
      and valid_for = "\<lambda>cert name. name = ''orders''" and cert = 1, THEN trans]) simp_all

end
