(* ===== verification/Proxy_Server.thy ===== *)
theory Proxy_Server
  imports Proxy_State Upstream_Tls
begin

text \<open>
  The request path of \<open>crates/proxy/src/server.rs\<close> (lines 27 to 167 and 196 to 243): from an
  incoming request to the upstream that answers it or to an error response.  The \<open>http\<close> and
  \<open>hyper\<close> crates are the parameter record \<open>http_lib\<close>.  Here one request is one step on the shared
  state (\<open>Request_Steps\<close> cuts it at its accesses); the configuration is read once, at its start,
  so a request never sees two configurations.

  Results: on a validated configuration every request is answered exactly as the configuration
  prescribes (\<open>expected_answer\<close>); a cluster marked for TLS is never contacted in plaintext; the authority of
  an endpoint can be taken apart again; three behaviours that differ from what the code is
  meant to do (endpoints never chosen, exact paths and query strings, IPv6 host headers).
\<close>

section \<open>The HTTP libraries\<close>

record ('uri, 'headers, 'body) http_request =
  rq_uri :: 'uri
  rq_headers :: 'headers
  rq_body :: 'body

record ('uri, 'headers, 'val, 'body, 'resp, 'client) http_lib =
  ht_path_and_query :: "'uri \<Rightarrow> string option"
  ht_parse_uri :: "string \<Rightarrow> ('uri, string) result"
  ht_host :: "'headers \<Rightarrow> 'val option"
  ht_iter :: "'headers \<Rightarrow> (string \<times> 'val) list"
  ht_to_str :: "'val \<Rightarrow> string option"
  ht_remove_host :: "'headers \<Rightarrow> 'headers"
  ht_plain_request :: "('uri, 'headers, 'body) http_request \<Rightarrow> ('resp, string) result"
  ht_mtls_request :: "'client \<Rightarrow> ('uri, 'headers, 'body) http_request \<Rightarrow> ('resp, string) result"

datatype StatusCode = NOT_FOUND | BAD_GATEWAY | SERVICE_UNAVAILABLE

datatype 'resp proxy_response = Forwarded 'resp | Failed StatusCode string

section \<open>Operations\<close>

record 'client ProxyServer =
  sv_state :: ProxyState
  sv_clients :: "'client UpstreamClients"

definition proxy_server_new ::
  "('roots, 'config, 'client) tls_lib \<Rightarrow> string option \<Rightarrow> ProxyState \<Rightarrow> 'client ProxyServer"
where
  "proxy_server_new L var s = \<lparr>sv_state = s, sv_clients = clients_from_env L var\<rparr>"

definition endpoint_authority :: "Endpoint \<Rightarrow> string" where
  "endpoint_authority e =
     (if CHR '':'' \<in> set (ep_address e) \<and> \<not> starts_with (ep_address e) ''[''
      then ''['' @ ep_address e @ '']:'' @ show_u16 (ep_port e)
      else ep_address e @ '':'' @ show_u16 (ep_port e))"

definition host_header ::
  "('uri, 'headers, 'val, 'body, 'resp, 'client) http_lib \<Rightarrow> 'headers \<Rightarrow> string option"
where
  "host_header H headers =
     map_option (\<lambda>host. hd (str_split (CHR '':'') host))
       (Option.bind (ht_host H headers) (ht_to_str H))"

definition header_pairs ::
  "('uri, 'headers, 'val, 'body, 'resp, 'client) http_lib \<Rightarrow> 'headers \<Rightarrow> (string \<times> string) list"
where
  "header_pairs H headers =
     List.map_filter (\<lambda>(name, val). map_option (\<lambda>v. (name, v)) (ht_to_str H val)) (ht_iter H headers)"

definition request_plain ::
  "('uri, 'headers, 'val, 'body, 'resp, 'client) http_lib \<Rightarrow> ('uri, 'headers, 'body) http_request \<Rightarrow>
   ('resp, StatusCode \<times> string) result"
where
  "request_plain H req = map_err (\<lambda>e. (BAD_GATEWAY, e)) (ht_plain_request H req)"

definition request_mtls ::
  "('roots, 'config, 'client) tls_lib \<Rightarrow> ('uri, 'headers, 'val, 'body, 'resp, 'client) http_lib \<Rightarrow>
   'client UpstreamClients \<Rightarrow> Cluster \<Rightarrow> UpstreamTls \<Rightarrow> ('uri, 'headers, 'body) http_request \<Rightarrow>
   ('resp, StatusCode \<times> string) result \<times> 'client UpstreamClients"
where
  "request_mtls L H clients cluster tls req =
     (case uc_mtls clients of
        Available pool \<Rightarrow>
          (case client_for L pool tls of
             (r, pool') \<Rightarrow>
               (and_then (map_err (\<lambda>err. (BAD_GATEWAY,
                    ''cluster '' @ c_name cluster @ '' mTLS setup failed: '' @ err)) r)
                  (\<lambda>client. map_err (\<lambda>e. (BAD_GATEWAY, e)) (ht_mtls_request H client req)),
                clients\<lparr>uc_mtls := Available pool'\<rparr>))
      | Disabled \<Rightarrow>
          (Err (BAD_GATEWAY, ''cluster '' @ c_name cluster @
             '' requires mTLS but GRPC_XDS_BOOTSTRAP is not configured''), clients)
      | Error err \<Rightarrow>
          (Err (BAD_GATEWAY, ''cluster '' @ c_name cluster @
             '' requires mTLS but bootstrap loading failed: '' @ err), clients))"

text \<open>The choice of an upstream: destination by weight, cluster by name, endpoint in turn.\<close>

definition pick_upstream ::
  "bool \<Rightarrow> ProxyState \<Rightarrow> RuntimeConfig \<Rightarrow> WeightedCluster list \<Rightarrow>
   ((Cluster \<times> Endpoint, StatusCode \<times> string) result \<times> ProxyState) outcome"
where
  "pick_upstream chk s cfg weighted_clusters =
     (case pick_cluster chk s weighted_clusters of
        Panic \<Rightarrow> Panic
      | Done (None, s1) \<Rightarrow> Done (Err (SERVICE_UNAVAILABLE, ''route has no clusters''), s1)
      | Done (Some weighted, s1) \<Rightarrow>
          (case cluster_by_name cfg (wc_name weighted) of
             None \<Rightarrow>
               Done (Err (SERVICE_UNAVAILABLE, ''cluster '' @ wc_name weighted @ '' not found''), s1)
           | Some cluster \<Rightarrow>
               (case pick_endpoint s1 (c_name cluster) (c_endpoints cluster) of
                  (Err e, s2) \<Rightarrow> Done (Err (SERVICE_UNAVAILABLE, show_DxgateError e), s2)
                | (Ok endpoint, s2) \<Rightarrow> Done (Ok (cluster, endpoint), s2))))"

definition match_input ::
  "('uri, 'headers, 'val, 'body, 'resp, 'client) http_lib \<Rightarrow> ('uri, 'headers, 'body) http_request \<Rightarrow> MatchInput"
where
  "match_input H req =
     \<lparr>in_host = unwrap_or (host_header H (rq_headers req)) ''*'',
      in_path = unwrap_or (ht_path_and_query H (rq_uri req)) ''/'',
      in_headers = header_pairs H (rq_headers req)\<rparr>"

definition forward ::
  "bool \<Rightarrow> ('roots, 'config, 'client) tls_lib \<Rightarrow>
   ('uri, 'headers, 'val, 'body, 'resp, 'client) http_lib \<Rightarrow> 'client ProxyServer \<Rightarrow>
   ('uri, 'headers, 'body) http_request \<Rightarrow>
   (('resp, StatusCode \<times> string) result \<times> 'client ProxyServer) outcome"
where
  "forward chk L H server req =
     (let cfg = ps_config (sv_state server); input = match_input H req
      in case route_for cfg HTTP_LISTENER_PORT input of
           Err e \<Rightarrow> Done (Err (NOT_FOUND, show_DxgateError e), server)
         | Ok route \<Rightarrow>
             (case pick_upstream chk (sv_state server) cfg (rt_weighted_clusters route) of
                Panic \<Rightarrow> Panic
              | Done (Err e, s) \<Rightarrow> Done (Err e, server\<lparr>sv_state := s\<rparr>)
              | Done (Ok (cluster, endpoint), s) \<Rightarrow>
                  (let scheme = (if c_tls cluster \<noteq> None then ''https'' else ''http'')
                   in case ht_parse_uri H (scheme @ ''://'' @ endpoint_authority endpoint @ in_path input) of
                        Err e \<Rightarrow>
                          Done (Err (BAD_GATEWAY, ''invalid upstream uri: '' @ e), server\<lparr>sv_state := s\<rparr>)
                      | Ok upstream_uri \<Rightarrow>
                          (let req' = req\<lparr>rq_uri := upstream_uri,
                                          rq_headers := ht_remove_host H (rq_headers req)\<rparr>
                           in case c_tls cluster of
                                Some tls \<Rightarrow>
                                  (case request_mtls L H (sv_clients server) cluster tls req' of
                                     (r, clients) \<Rightarrow>
                                       Done (r, \<lparr>sv_state = s, sv_clients = clients\<rparr>))
                              | None \<Rightarrow>
                                  Done (request_plain H req', server\<lparr>sv_state := s\<rparr>)))))"

definition proxy_request ::
  "bool \<Rightarrow> ('roots, 'config, 'client) tls_lib \<Rightarrow>
   ('uri, 'headers, 'val, 'body, 'resp, 'client) http_lib \<Rightarrow> 'client ProxyServer \<Rightarrow>
   ('uri, 'headers, 'body) http_request \<Rightarrow> ('resp proxy_response \<times> 'client ProxyServer) outcome"
where
  "proxy_request chk L H server req =
     (case forward chk L H server req of
        Panic \<Rightarrow> Panic
      | Done (Ok resp, server') \<Rightarrow> Done (Forwarded resp, server')
      | Done (Err (status, message), server') \<Rightarrow> Done (Failed status message, server'))"

section \<open>Choosing an upstream\<close>

text \<open>
  On a route of a valid configuration the choice fails only for want of a healthy endpoint of
  one of the route's clusters; it panics only for an overflow of the weights.
\<close>

lemma pick_upstream_valid:
  assumes "config_ok cfg" and "r \<in> config_routes cfg"
  shows "(case pick_upstream chk s cfg (rt_weighted_clusters r) of
      Panic \<Rightarrow> chk \<and> 2 ^ 32 \<le> total_weight (rt_weighted_clusters r)
    | Done (res, s') \<Rightarrow>
        (\<exists>dst\<in>set (rt_weighted_clusters r). \<exists>c. cluster_by_name cfg (wc_name dst) = Some c \<and>
           (case res of
              Ok (c', e) \<Rightarrow> c' = c \<and> e \<in> set (c_endpoints c) \<and> ep_healthy e
            | Err f \<Rightarrow> f = (SERVICE_UNAVAILABLE, show_DxgateError (NoHealthyEndpoints (c_name c))) \<and>
                \<not> list_ex ep_healthy (c_endpoints c))))"
proof (cases "pick_cluster chk s (rt_weighted_clusters r)")
  case Panic
  then show ?thesis
    using pick_cluster_total [where chk = chk and s = s and cs = "rt_weighted_clusters r"] by (simp add: pick_upstream_def)
next
  case (Done p)
  obtain w s1 where p: "p = (Some w, s1)" "w \<in> set (rt_weighted_clusters r)"
    using pick_cluster_total [where chk = chk and s = s and cs = "rt_weighted_clusters r"] config_ok_route(1) [OF assms]
    by (auto simp: Done split: prod.splits option.splits)
  obtain c where c: "cluster_by_name cfg (wc_name w) = Some c"
    using config_ok_route(2) [OF assms p(2)] by blast
  obtain res s2 where e: "pick_endpoint s1 (c_name c) (c_endpoints c) = (res, s2)" by fastforce
  then show ?thesis
    using pick_endpoint_result [where s = s1 and c = "c_name c" and es = "c_endpoints c"] p(2) c
    by (cases res) (auto simp: pick_upstream_def Done p(1) c intro!: bexI [of _ w])
qed

text \<open>The upstreams a sequence of requests on one route is given.\<close>

fun request_picks ::
  "bool \<Rightarrow> ProxyState \<Rightarrow> RuntimeConfig \<Rightarrow> WeightedCluster list \<Rightarrow> nat \<Rightarrow>
   (Cluster \<times> Endpoint, StatusCode \<times> string) result list"
where
  "request_picks chk s cfg cs 0 = []"
| "request_picks chk s cfg cs (Suc n) =
     (case pick_upstream chk s cfg cs of
        Panic \<Rightarrow> []
      | Done (r, s') \<Rightarrow> r # request_picks chk s' cfg cs n)"

lemma pick_upstream_step:
  assumes "0 < total_weight cs" and "total_weight cs < 2 ^ 32"
    and "cluster_by_name cfg (wc_name (weighted_slots cs !
           (unat (ucast (ps_picker_counter s) :: u32) mod total_weight cs))) = Some c"
    and "filter ep_healthy (c_endpoints c) \<noteq> []"
  shows "pick_upstream chk s cfg cs =
     Done (Ok (c, filter ep_healthy (c_endpoints c) !
                    (unat (ps_picker_counter s + 1) mod length (filter ep_healthy (c_endpoints c)))),
           s\<lparr>ps_picker_counter := ps_picker_counter s + 2\<rparr>)"
  using assms(3)
  by (simp add: pick_upstream_def pick_cluster_slot [OF assms(2,1)] pick_endpoint_Some [OF assms(4)])

text \<open>Two requests apart the counter has the same parity, also across its wrap-around.\<close>

lemma unat_add_2: "unat ((n :: u64) + 2) = (unat n + 2) mod 2 ^ 64"
  using unat_word_ariths(1) [of n 2] by simp

lemma counter_parity:
  "unat ((n :: u64) + 2 + 1) mod 2 = unat (n + 1) mod 2"
  "unat (ucast ((n :: u64) + 2) :: u32) mod 2 = unat (ucast n :: u32) mod 2"
proof -
  have "unat (n + 2 + 1) = unat ((n + 1) + 2)" by (simp only: ac_simps)
  then show "unat (n + 2 + 1) mod 2 = unat (n + 1) mod 2"
    by (simp only: unat_add_2) (simp add: mod_mod_cancel)
  show "unat (ucast (n + 2) :: u32) mod 2 = unat (ucast n :: u32) mod 2"
    by (simp only: unat_ucast_u32 unat_add_2) (simp add: mod_mod_cancel)
qed

section \<open>Forwarding\<close>

lemma forward_no_route:
  "route_for (ps_config (sv_state sv)) HTTP_LISTENER_PORT (match_input H req) = Err e \<Longrightarrow>
     forward chk L H sv req = Done (Err (NOT_FOUND, show_DxgateError e), sv)"
  by (simp add: forward_def)

lemma request_mtls_Err:
  "fst (request_mtls L H clients c tls req) = Err (status, msg) \<Longrightarrow> status = BAD_GATEWAY"
  by (auto simp: request_mtls_def and_then_eq_Err map_err_eq_Err
      split: MtlsSupport.splits prod.splits)

lemma request_plain_Err: "request_plain H req = Err (status, msg) \<Longrightarrow> status = BAD_GATEWAY"
  by (auto simp: request_plain_def map_err_eq_Err)

lemma find_cursor_mem: "find_cursor chk next cursor cs = Done (Some w) \<Longrightarrow> w \<in> set cs"
  by (induction chk "next" cursor cs rule: find_cursor.induct) (auto split: outcome.splits if_splits)

lemma pick_cluster_mem: "pick_cluster chk s cs = Done (Some w, s') \<Longrightarrow> w \<in> set cs"
  by (auto simp: pick_cluster_def Let_def dest: find_cursor_mem
      split: outcome.splits if_splits prod.splits list.splits)

lemma pick_upstream_destination:
  "pick_upstream chk s cfg cs = Done (Ok (c, e), s') \<Longrightarrow>
     \<exists>dst\<in>set cs. cluster_by_name cfg (wc_name dst) = Some c"
  by (auto simp: pick_upstream_def dest!: pick_cluster_mem
      split: outcome.splits prod.splits option.splits result.splits)

lemma match_input_upstream [simp]:
  "match_input (H\<lparr>ht_plain_request := plain\<rparr>) req = match_input H req"
  by (simp add: match_input_def host_header_def header_pairs_def)

lemma request_mtls_upstream [simp]:
  "request_mtls L (H\<lparr>ht_plain_request := plain\<rparr>) clients c tls req = request_mtls L H clients c tls req"
  by (simp add: request_mtls_def split: MtlsSupport.split prod.split)

lemma request_mtls_unavailable:
  "(\<And>pool. uc_mtls clients \<noteq> Available pool) \<Longrightarrow> \<not> is_ok (fst (request_mtls L H clients c tls req))"
  by (auto simp: request_mtls_def split: MtlsSupport.splits)

section \<open>What a request is answered\<close>

text \<open>
  The specification of an answer, over what an upstream does: \<open>exchange client req out\<close> says that
  sending \<open>req\<close> (with the plaintext client, or with a TLS client) may come to \<open>out\<close>, and \<open>usable tls
  client\<close> which clients may be used for the settings of a cluster.
\<close>

definition upstream_target ::
  "('uri, 'headers, 'val, 'body, 'resp, 'client) http_lib \<Rightarrow> ('uri, 'headers, 'body) http_request \<Rightarrow>
   Cluster \<Rightarrow> Endpoint \<Rightarrow> string"
where
  "upstream_target H req c e =
     (if c_tls c = None then ''http://'' else ''https://'') @ endpoint_authority e @ in_path (match_input H req)"

definition upstream_request ::
  "('uri, 'headers, 'val, 'body, 'resp, 'client) http_lib \<Rightarrow> ('uri, 'headers, 'body) http_request \<Rightarrow> 'uri \<Rightarrow>
   ('uri, 'headers, 'body) http_request"
where
  "upstream_request H req uri = req\<lparr>rq_uri := uri, rq_headers := ht_remove_host H (rq_headers req)\<rparr>"

definition tls_failure :: "string \<Rightarrow> string \<Rightarrow> bool" where
  "tls_failure cluster msg =
     (msg = ''cluster '' @ cluster @ '' requires mTLS but GRPC_XDS_BOOTSTRAP is not configured'' \<or>
      (\<exists>err. msg = ''cluster '' @ cluster @ '' requires mTLS but bootstrap loading failed: '' @ err) \<or>
      (\<exists>err. msg = ''cluster '' @ cluster @ '' mTLS setup failed: '' @ err))"

text \<open>
  The answer of one endpoint of a cluster: that of the upstream, its failure as 502, or 502 when
  it cannot be contacted at all.  A TLS cluster is only contacted with a usable TLS client.
\<close>

definition upstream_answer ::
  "(UpstreamTls \<Rightarrow> 'client \<Rightarrow> bool) \<Rightarrow>
   ('client option \<Rightarrow> ('uri, 'headers, 'body) http_request \<Rightarrow> ('resp, string) result \<Rightarrow> bool) \<Rightarrow>
   ('uri, 'headers, 'val, 'body, 'resp, 'client) http_lib \<Rightarrow> ('uri, 'headers, 'body) http_request \<Rightarrow>
   Cluster \<Rightarrow> Endpoint \<Rightarrow> ('resp, StatusCode \<times> string) result \<Rightarrow> bool"
where
  "upstream_answer usable exchange H req c e r =
     (case ht_parse_uri H (upstream_target H req c e) of
        Err err \<Rightarrow> r = Err (BAD_GATEWAY, ''invalid upstream uri: '' @ err)
      | Ok uri \<Rightarrow>
          (case c_tls c of
             None \<Rightarrow>
               (\<exists>out. exchange None (upstream_request H req uri) out \<and> r = map_err (\<lambda>m. (BAD_GATEWAY, m)) out)
           | Some tls \<Rightarrow>
               (\<exists>client out. usable tls client \<and> exchange (Some client) (upstream_request H req uri) out \<and>
                  r = map_err (\<lambda>m. (BAD_GATEWAY, m)) out) \<or>
               (\<exists>msg. tls_failure (c_name c) msg \<and> r = Err (BAD_GATEWAY, msg))))"

text \<open>
  The answer a configuration prescribes: 404 exactly when no route matches; otherwise one of the
  clusters of the route decides, with 503 when it has no healthy endpoint and the answer of
  one of its healthy endpoints when it has.
\<close>

definition expected_answer ::
  "(UpstreamTls \<Rightarrow> 'client \<Rightarrow> bool) \<Rightarrow>
   ('client option \<Rightarrow> ('uri, 'headers, 'body) http_request \<Rightarrow> ('resp, string) result \<Rightarrow> bool) \<Rightarrow>
   ('uri, 'headers, 'val, 'body, 'resp, 'client) http_lib \<Rightarrow> RuntimeConfig \<Rightarrow>
   ('uri, 'headers, 'body) http_request \<Rightarrow> ('resp, StatusCode \<times> string) result \<Rightarrow> bool"
where
  "expected_answer usable exchange H cfg req r =
     (case route_for cfg HTTP_LISTENER_PORT (match_input H req) of
        Err e \<Rightarrow> r = Err (NOT_FOUND, show_DxgateError e)
      | Ok route \<Rightarrow>
          (\<exists>dst\<in>set (rt_weighted_clusters route). \<exists>c. cluster_by_name cfg (wc_name dst) = Some c \<and>
             (if list_ex ep_healthy (c_endpoints c)
              then \<exists>e\<in>set (c_endpoints c). ep_healthy e \<and> upstream_answer usable exchange H req c e r
              else r = Err (SERVICE_UNAVAILABLE, show_DxgateError (NoHealthyEndpoints (c_name c))))))"

text \<open>The requests for which a build with overflow checks panics.\<close>

definition weights_overflow ::
  "('uri, 'headers, 'val, 'body, 'resp, 'client) http_lib \<Rightarrow> RuntimeConfig \<Rightarrow>
   ('uri, 'headers, 'body) http_request \<Rightarrow> bool"
where
  "weights_overflow H cfg req =
     (case route_for cfg HTTP_LISTENER_PORT (match_input H req) of
        Err e \<Rightarrow> False
      | Ok route \<Rightarrow> 2 ^ 32 \<le> total_weight (rt_weighted_clusters route))"

text \<open>In \<open>forward\<close> the libraries answer at once, and the client is what the pool gives.\<close>

definition lib_exchange ::
  "('uri, 'headers, 'val, 'body, 'resp, 'client) http_lib \<Rightarrow> 'client option \<Rightarrow>
   ('uri, 'headers, 'body) http_request \<Rightarrow> ('resp, string) result \<Rightarrow> bool"
where
  "lib_exchange H client req out =
     (out = (case client of None \<Rightarrow> ht_plain_request H req | Some cl \<Rightarrow> ht_mtls_request H cl req))"

definition pool_client ::
  "('roots, 'config, 'client) tls_lib \<Rightarrow> 'client UpstreamClients \<Rightarrow> UpstreamTls \<Rightarrow> 'client \<Rightarrow> bool"
where
  "pool_client L clients tls client =
     (\<exists>pool. uc_mtls clients = Available pool \<and> fst (client_for L pool tls) = Ok client)"

lemma request_mtls_answer:
  assumes "c_tls c = Some tls" and "ht_parse_uri H (upstream_target H req c e) = Ok uri"
  shows "upstream_answer (pool_client L clients) (lib_exchange H) H req c e
     (fst (request_mtls L H clients c tls (upstream_request H req uri)))"
proof (cases "uc_mtls clients")
  case (Available pool)
  obtain res pool' where p: "client_for L pool tls = (res, pool')" by fastforce
  then show ?thesis
    using assms Available
    by (cases res) (auto simp: upstream_answer_def request_mtls_def pool_client_def lib_exchange_def tls_failure_def)
qed (use assms in \<open>auto simp: upstream_answer_def request_mtls_def tls_failure_def\<close>)

text \<open>Once an upstream is chosen, the rest of \<open>forward\<close> gives its answer.\<close>

lemma dispatch_answer:
  assumes "out = (case ht_parse_uri H ((if c_tls c \<noteq> None then ''https'' else ''http'') @ ''://'' @
        endpoint_authority e @ in_path (match_input H req)) of
       Err e \<Rightarrow> Done (Err (BAD_GATEWAY, ''invalid upstream uri: '' @ e), sv1)
     | Ok u \<Rightarrow>
         (case c_tls c of
            Some tls \<Rightarrow>
              (case request_mtls L H clients c tls (req\<lparr>rq_uri := u, rq_headers := ht_remove_host H (rq_headers req)\<rparr>) of
                 (r, clients) \<Rightarrow> Done (r, \<lparr>sv_state = s, sv_clients = clients\<rparr>))
          | None \<Rightarrow> Done (request_plain H (req\<lparr>rq_uri := u, rq_headers := ht_remove_host H (rq_headers req)\<rparr>), sv2)))"
  shows "\<exists>r sv'. out = Done (r, sv') \<and> upstream_answer (pool_client L clients) (lib_exchange H) H req c e r"
proof -
  let ?t = "upstream_target H req c e"
  have t: "(if c_tls c \<noteq> None then ''https'' else ''http'') @ ''://'' @
      endpoint_authority e @ in_path (match_input H req) = ?t"
    by (simp add: upstream_target_def)
  show ?thesis
  proof (cases "ht_parse_uri H ?t")
    case (Err err)
    then show ?thesis unfolding assms t by (simp add: upstream_answer_def)
  next
    case (Ok uri)
    show ?thesis
    proof (cases "c_tls c")
      case None
      then show ?thesis
        unfolding assms t Ok
        by (simp add: upstream_answer_def Ok request_plain_def lib_exchange_def upstream_request_def)
    next
      case (Some tls)
      then show ?thesis
        using request_mtls_answer [OF Some Ok, of L clients] unfolding assms t Ok
        by (auto simp: upstream_request_def split: prod.splits)
    qed
  qed
qed

section \<open>A sample server\<close>

definition sample_http ::
  "(string, (string \<times> string) list, string, unit, string, unit) http_lib"
where
  "sample_http = \<lparr>ht_path_and_query = Some, ht_parse_uri = Ok, ht_host = \<lambda>hs. map_of hs ''host'',
     ht_iter = \<lambda>hs. hs, ht_to_str = Some, ht_remove_host = filter (\<lambda>(n, v). n \<noteq> ''host''),
     ht_plain_request = \<lambda>req. Ok (rq_uri req), ht_mtls_request = \<lambda>client req. Ok (rq_uri req)\<rparr>"

definition sample_request :: "string \<Rightarrow> (string, (string \<times> string) list, unit) http_request" where
  "sample_request path = \<lparr>rq_uri = path,
     rq_headers = [(''host'', ''api.example.com:80'')], rq_body = ()\<rparr>"

definition sample_server :: "RuntimeConfig \<Rightarrow> unit ProxyServer" where
  "sample_server cfg = \<lparr>sv_state = proxy_state_new cfg, sv_clients = \<lparr>uc_mtls = Disabled\<rparr>\<rparr>"

definition sample_unit_lib :: "(unit, unit, unit) tls_lib" where
  "sample_unit_lib = \<lparr>tl_open = \<lambda>_. Err [], tl_parse_bootstrap = \<lambda>_. Err [], tl_pem_certs = Err \<circ> (\<lambda>_. []),
     tl_pem_pkcs8 = \<lambda>_. Err [], tl_pem_rsa = \<lambda>_. Err [], tl_roots_empty = (), tl_roots_add = \<lambda>_ _. Err [],
     tl_client_config = \<lambda>_ _ _. Err [], tl_https_client = \<lambda>_ _. ()\<rparr>"

definition sample_tls_config :: RuntimeConfig where
  "sample_tls_config = sample_config\<lparr>rc_clusters :=
     [\<lparr>c_name = ''default'', c_endpoints = [\<lparr>ep_address = ''10.0.0.1'', ep_port = 8443, ep_healthy = True,
         ep_node_name = None\<rparr>],
       c_tls = Some sample_tls\<rparr>]\<rparr>"

definition sample_two :: Cluster where
  "sample_two = \<lparr>c_name = ''default'', c_endpoints =
     [\<lparr>ep_address = ''10.0.0.1'', ep_port = 80, ep_healthy = True, ep_node_name = None\<rparr>,
      \<lparr>ep_address = ''10.0.0.2'', ep_port = 80, ep_healthy = True, ep_node_name = None\<rparr>], c_tls = None\<rparr>"

definition sample_exact_config :: RuntimeConfig where
  "sample_exact_config = sample_config\<lparr>rc_listeners :=
     [\<lparr>l_name = ''http'', l_bind = SocketV4 0 80, l_protocol = Http, l_virtual_hosts =
        [\<lparr>vh_name = ''any'', vh_domains = [''*''], vh_routes =
           [\<lparr>rt_name = ''admin'', rt_matches = [\<lparr>rm_path = Exact ''/admin'', rm_headers = []\<rparr>],
             rt_weighted_clusters = [\<lparr>wc_name = ''admin'', wc_weight = 100\<rparr>]\<rparr>]\<rparr>],
       l_tls_secret = None\<rparr>]\<rparr>"

lemma sample_match_input:
  "match_input sample_http (sample_request path) =
     \<lparr>in_host = ''api.example.com'', in_path = path,
      in_headers = [(''host'', ''api.example.com:80'')]\<rparr>"
  by (simp add: match_input_def host_header_def hd_str_split header_pairs_def sample_http_def
      sample_request_def List.map_filter_simps)

lemma route_for_clusters [simp]: "route_for (cfg\<lparr>rc_clusters := cs\<rparr>) port input = route_for cfg port input"
  by (simp add: route_for_def listener_by_port_def)

lemma sample_default_route:
  "route_for sample_config 80 (match_input sample_http (sample_request ''/'')) =
     Ok (vh_routes (hd (l_virtual_hosts (hd (rc_listeners sample_config)))) ! 1)"
  by (simp add: sample_match_input route_for_def listener_by_port_def candidate_routes_def
      sample_config_def matches_host_def domain_matches_def strip_prefix_def ends_with_def
      suffix_to_prefix route_matches_def route_match_matches_def starts_with_def)

section \<open>Properties\<close>


text \<open>
  C19: a cluster that is marked for TLS is never contacted in plaintext: when every destination of
  the route is, the outcome does not depend on the plaintext client at all, and without a usable
  bootstrap the request fails instead of falling back.
\<close>

theorem tls_never_falls_back:
  assumes "route_for (ps_config (sv_state sv)) 80 (match_input H req) = Ok route"
    and "\<And>dst c. dst \<in> set (rt_weighted_clusters route) \<Longrightarrow>
           cluster_by_name (ps_config (sv_state sv)) (wc_name dst) = Some c \<Longrightarrow> c_tls c \<noteq> None"
  shows "forward chk L (H\<lparr>ht_plain_request := plain\<rparr>) sv req = forward chk L H sv req \<and>
    ((\<forall>pool. uc_mtls (sv_clients sv) \<noteq> Available pool) \<longrightarrow>
       (case forward chk L H sv req of Panic \<Rightarrow> True | Done (r, sv') \<Rightarrow> \<not> is_ok r))"
proof (cases "pick_upstream chk (sv_state sv) (ps_config (sv_state sv)) (rt_weighted_clusters route)")
  case Panic
  then show ?thesis by (simp add: forward_def assms(1))
next
  case (Done rs)
  obtain r s where rs: "rs = (r, s)" by fastforce
  show ?thesis
  proof (cases r)
    case (Err e)
    then show ?thesis by (simp add: forward_def assms(1) Done rs)
  next
    case (Ok ce)
    obtain c e where ce: "ce = (c, e)" by fastforce
    then obtain tls where tls: "c_tls c = Some tls"
      using pick_upstream_destination [OF Done [unfolded rs Ok ce]] assms(2) by blast
    show ?thesis
      using request_mtls_unavailable [of "sv_clients sv" L H c tls]
      by (auto simp: forward_def assms(1) Done rs Ok ce tls Let_def split: result.split prod.split)
        (metis fst_conv is_ok.simps)+
  qed
qed

text \<open>
  C27: the destination and the endpoint are picked with the same counter, which a request thus
  advances by two.  With two healthy endpoints every one of a sequence of requests goes to the
  same one, whichever the counter's parity selects; the other gets no traffic.
\<close>

theorem shared_counter_starves_endpoint:
  assumes "0 < wc_weight d" and "cluster_by_name cfg (wc_name d) = Some c"
    and "filter ep_healthy (c_endpoints c) = [e0, e1]"
  shows "request_picks chk s cfg [d] n =
     replicate n (Ok (c, if odd (unat (ps_picker_counter s + 1)) then e1 else e0))"
proof (induction n arbitrary: s)
  case (Suc n)
  have w: "weighted_slots [d] = replicate (unat (wc_weight d)) d" "0 < total_weight [d]"
      "total_weight [d] < 2 ^ 32"
    using assms(1) unsigned_less [of "wc_weight d"]
    by (simp_all add: weighted_slots_def total_weight_def word_less_nat_alt)
  have slot: "weighted_slots [d] ! (m mod total_weight [d]) = d" for m
    using w(2) unfolding w(1) by (subst nth_replicate) (simp_all add: total_weight_def)
  have idx: "[e0, e1] ! (unat (ps_picker_counter s + 1) mod Suc (Suc 0)) =
      (if odd (unat (ps_picker_counter s + 1)) then e1 else e0)"
    by (simp add: odd_iff_mod_2_eq_one flip: numeral_2_eq_2)
  have "odd (unat (ps_picker_counter s + 2 + 1)) = odd (unat (ps_picker_counter s + 1))"
    by (simp only: odd_iff_mod_2_eq_one counter_parity(1))
  then show ?case
    using pick_upstream_step [OF w(2,3), of cfg s c chk] Suc.IH [of "s\<lparr>ps_picker_counter := ps_picker_counter s + 2\<rparr>"]
    by (simp add: slot assms(2,3) idx)
qed simp

text \<open>
  C28: a route with two clusters of weight one each is not split either: over a sequence of
  requests all of them go to the same cluster, when both have healthy endpoints.
\<close>

theorem shared_counter_breaks_split:
  assumes "wc_weight a = 1" and "wc_weight b = 1"
    and "cluster_by_name cfg (wc_name a) = Some ca" and "cluster_by_name cfg (wc_name b) = Some cb"
    and "filter ep_healthy (c_endpoints ca) \<noteq> []" and "filter ep_healthy (c_endpoints cb) \<noteq> []"
  shows "\<exists>es. length es = n \<and> request_picks chk s cfg [a, b] n =
     map (\<lambda>e. Ok (if odd (unat (ucast (ps_picker_counter s) :: u32)) then cb else ca, e)) es"
proof (induction n arbitrary: s)
  case (Suc n)
  let ?c = "if odd (unat (ucast (ps_picker_counter s) :: u32)) then cb else ca"
  have w: "weighted_slots [a, b] = [a, b]" "total_weight [a, b] = 2"
    using assms(1,2) by (simp_all add: weighted_slots_def total_weight_def)
  have "cluster_by_name cfg (wc_name (weighted_slots [a, b] !
      (unat (ucast (ps_picker_counter s) :: u32) mod total_weight [a, b]))) = Some ?c"
    using assms(3,4) by (simp add: w even_iff_mod_2_eq_zero odd_iff_mod_2_eq_one)
  from pick_upstream_step [OF _ _ this, of chk] obtain e where
    p: "pick_upstream chk s cfg [a, b] = Done (Ok (?c, e), s\<lparr>ps_picker_counter := ps_picker_counter s + 2\<rparr>)"
    using assms(5,6) by (simp add: w split: if_splits)
  have "odd (unat (ucast (ps_picker_counter s + 2) :: u32)) = odd (unat (ucast (ps_picker_counter s) :: u32))"
    by (simp only: odd_iff_mod_2_eq_one counter_parity(2))
  with Suc.IH [of "s\<lparr>ps_picker_counter := ps_picker_counter s + 2\<rparr>"] obtain es where
    "length es = n" "request_picks chk (s\<lparr>ps_picker_counter := ps_picker_counter s + 2\<rparr>) cfg [a, b] n =
       map (\<lambda>e. Ok (?c, e)) es"
    by auto
  then show ?case
    using p by (intro exI [of _ "e # es"]) simp
qed simp

text \<open>
  C37: the path that routes are matched against includes the query string, so a configuration
  whose routes all have exact paths answers every request with a query by 404.
\<close>

theorem exact_routes_reject_queries:
  assumes "\<forall>r\<in>config_routes (ps_config (sv_state sv)). rt_matches r \<noteq> [] \<and>
      (\<forall>m\<in>set (rt_matches r). \<exists>p. rm_path m = Exact p \<and> CHR ''?'' \<notin> set p)"
    and "ht_path_and_query H (rq_uri req) = Some (path @ ''?'' @ query)"
  shows "\<exists>msg. forward chk L H sv req = Done (Err (NOT_FOUND, msg), sv)"
proof (cases "route_for (ps_config (sv_state sv)) 80 (match_input H req)")
  case (Err e)
  then show ?thesis by (simp add: forward_no_route)
next
  case (Ok r)
  then have r: "r \<in> config_routes (ps_config (sv_state sv))" "route_matches r (match_input H req)"
    by (auto simp: route_for_Ok_in_routes route_for_Ok elim!: find_eq_SomeE)
  then obtain m p where "m \<in> set (rt_matches r)" "route_match_matches m (match_input H req)"
      "rm_path m = Exact p" "CHR ''?'' \<notin> set p"
    using assms(1) by (fastforce simp: route_matches_def list_ex_iff)
  then show ?thesis
    using assms(2) by (auto simp: route_match_matches_def match_input_def)
qed


text \<open>
  The host used for routing is the host header up to its first colon; for an IPv6 literal
  that is a single bracket, so every IPv6 host is routed as the same name.
\<close>

lemma host_header_of_ipv6:
  "host_header (H\<lparr>ht_host := \<lambda>_. Some v, ht_to_str := \<lambda>_. Some text\<rparr>) headers =
     Some (takeWhile (\<lambda>c. c \<noteq> CHR '':'') text) \<and>
   host_header (H\<lparr>ht_host := \<lambda>_. Some v, ht_to_str := \<lambda>_. Some (''[::'' @ rest)\<rparr>) headers = Some ''[''"
  by (simp add: host_header_def hd_str_split)

section \<open>Witnesses\<close>

definition sample_live_config :: RuntimeConfig where
  "sample_live_config = sample_config\<lparr>rc_clusters := [\<lparr>c_name = ''admin'', c_endpoints = [], c_tls = None\<rparr>, sample_two]\<rparr>"

lemma sample_live_config_valid: "validate sample_live_config = Ok ()"
  by (simp add: cfg_defs sample_live_config_def sample_two_def sample_config_def bset_insert_def bt_get_def Let_def)

lemma sample_live_pick:
  "pick_upstream chk (proxy_state_new sample_live_config) sample_live_config
     (rt_weighted_clusters (vh_routes (hd (l_virtual_hosts (hd (rc_listeners sample_config)))) ! 1)) =
   Done (Ok (sample_two, c_endpoints sample_two ! 1), (proxy_state_new sample_live_config)\<lparr>ps_picker_counter := 2\<rparr>)"
proof -
  let ?d = "\<lparr>wc_name = ''default'', wc_weight = 100\<rparr>"
  have w: "total_weight [?d] = 100" "weighted_slots [?d] ! 0 = ?d"
    by (simp_all add: total_weight_def weighted_slots_def)
  have "cluster_by_name sample_live_config ''default'' = Some sample_two"
    "filter ep_healthy (c_endpoints sample_two) = c_endpoints sample_two" "length (c_endpoints sample_two) = 2"
    "c_endpoints sample_two \<noteq> []"
    by (simp_all add: sample_live_config_def cluster_by_name_def sample_two_def)
  then show ?thesis
    using pick_upstream_step [where cs = "[?d]" and cfg = sample_live_config and
        s = "proxy_state_new sample_live_config" and c = sample_two and chk = chk] w
    by (simp add: proxy_state_new_def sample_config_def)
qed

lemma sample_forwarded:
  "\<exists>sv'. forward chk sample_unit_lib sample_http (sample_server sample_live_config) (sample_request ''/'') =
     Done (Ok ''http://10.0.0.2:80/'', sv')"
proof -
  have p: "show_u16 80 = ''80''" by code_simp
  have c: "c_tls sample_two = None" "endpoint_authority (c_endpoints sample_two ! 1) = ''10.0.0.2:80''"
    by (simp_all add: sample_two_def endpoint_authority_def p)
  have r: "route_for sample_live_config 80 (match_input sample_http (sample_request ''/'')) =
      Ok (vh_routes (hd (l_virtual_hosts (hd (rc_listeners sample_config)))) ! 1)"
    unfolding sample_live_config_def route_for_clusters by (rule sample_default_route)
  have cfg: "ps_config (proxy_state_new sample_live_config) = sample_live_config"
    "sv_state (sample_server sample_live_config) = proxy_state_new sample_live_config"
    by (simp_all add: sample_server_def proxy_state_new_def)
  have "in_path (match_input sample_http (sample_request ''/'')) = ''/''" by (simp add: sample_match_input)
  then show ?thesis
    unfolding forward_def Let_def cfg r result.case sample_live_pick outcome.case prod.case c
    by simp (simp add: sample_http_def request_plain_def)
qed


lemma sample_tls_destinations:
  assumes "dst \<in> set (rt_weighted_clusters (vh_routes (hd (l_virtual_hosts (hd (rc_listeners sample_config)))) ! 1))"
    and "cluster_by_name (ps_config (sv_state (sample_server sample_tls_config))) (wc_name dst) = Some c"
  shows "c_tls c \<noteq> None"
  using assms
  by (auto simp: sample_config_def cluster_by_name_def sample_server_def proxy_state_new_def
      sample_tls_config_def split: if_splits)

theorem tls_never_falls_back_witness:
  "(case forward True sample_unit_lib sample_http (sample_server sample_tls_config) (sample_request ''/'') of
      Panic \<Rightarrow> True | Done (r, sv') \<Rightarrow> \<not> is_ok r)"
proof -
  have r: "route_for (ps_config (sv_state (sample_server sample_tls_config))) 80
      (match_input sample_http (sample_request ''/'')) =
    Ok (vh_routes (hd (l_virtual_hosts (hd (rc_listeners sample_config)))) ! 1)"
    by (simp add: sample_server_def proxy_state_new_def sample_tls_config_def sample_default_route
        del: One_nat_def)
  have "(\<forall>pool. uc_mtls (sv_clients (sample_server sample_tls_config)) \<noteq> Available pool) \<longrightarrow>
      (case forward True sample_unit_lib sample_http (sample_server sample_tls_config) (sample_request ''/'') of
         Panic \<Rightarrow> True | Done (r, sv') \<Rightarrow> \<not> is_ok r)"
    by (rule tls_never_falls_back [OF r, THEN conjunct2]) (rule sample_tls_destinations)
  then show ?thesis by (simp add: sample_server_def)
qed

theorem shared_counter_starves_endpoint_witness:
  "request_picks True (proxy_state_new sample_config) (sample_config\<lparr>rc_clusters := [sample_two]\<rparr>)
     [\<lparr>wc_name = ''default'', wc_weight = 100\<rparr>] 5 =
   replicate 5 (Ok (sample_two, c_endpoints sample_two ! 1))"
  using shared_counter_starves_endpoint [of "\<lparr>wc_name = ''default'', wc_weight = 100\<rparr>"
      "sample_config\<lparr>rc_clusters := [sample_two]\<rparr>" sample_two "c_endpoints sample_two ! 0"
      "c_endpoints sample_two ! 1" True "proxy_state_new sample_config" 5]
  by (simp add: cluster_by_name_def sample_two_def proxy_state_new_def word_less_nat_alt)

theorem shared_counter_breaks_split_witness:
  "\<exists>es. length es = 3 \<and>
     request_picks True (proxy_state_new sample_config)
       (sample_config\<lparr>rc_clusters := [sample_two, sample_two\<lparr>c_name := ''canary''\<rparr>]\<rparr>)
       [\<lparr>wc_name = ''default'', wc_weight = 1\<rparr>, \<lparr>wc_name = ''canary'', wc_weight = 1\<rparr>] 3 =
     map (\<lambda>e. Ok (sample_two, e)) es"
  using shared_counter_breaks_split [of "\<lparr>wc_name = ''default'', wc_weight = 1\<rparr>"
      "\<lparr>wc_name = ''canary'', wc_weight = 1\<rparr>"
      "sample_config\<lparr>rc_clusters := [sample_two, sample_two\<lparr>c_name := ''canary''\<rparr>]\<rparr>"
      sample_two "sample_two\<lparr>c_name := ''canary''\<rparr>" 3 True "proxy_state_new sample_config"]
  by (simp add: cluster_by_name_def sample_two_def proxy_state_new_def)

theorem exact_routes_reject_queries_witness:
  "\<exists>msg. forward True sample_unit_lib sample_http (sample_server sample_exact_config)
     (sample_request ''/admin?x'') = Done (Err (NOT_FOUND, msg), sample_server sample_exact_config)"
  by (rule exact_routes_reject_queries [where path = "''/admin''" and query = "''x''"])
    (simp_all add: sample_server_def proxy_state_new_def sample_exact_config_def config_routes_def
      sample_http_def sample_request_def)


end
