(* ===== verification/Request_Steps.thy ===== *)
theory Request_Steps
  imports Proxy_Server
begin

text \<open>
  A request as a task: \<open>forward\<close> is \<open>async\<close> and shares the proxy state with other requests and with
  the configuration task, so it is cut here at its accesses to shared state: reading the
  configuration, drawing a number for the cluster, drawing a number for the endpoint, and
  obtaining the client (the client cache is locked once).  What happens between two accesses is
  local.  Then the task waits for its upstream, which may answer anything at any time, or never.

  Results: run without interruption, with an upstream that answers, the steps are exactly
  \<open>forward\<close>; whatever happens between its steps, a task that read a valid configuration is only
  ever answered as that configuration prescribes; each pick of a task draws one number from the
  shared counter and takes the destination or endpoint of that number.
\<close>

section \<open>Tasks\<close>

text \<open>A task keeps the request, the configuration it read, and what it has chosen so far.\<close>

datatype ('uri, 'headers, 'body, 'resp, 'client) request_task =
    Arrived "('uri, 'headers, 'body) http_request"
  | Routed "('uri, 'headers, 'body) http_request" RuntimeConfig "WeightedCluster list"
  | Chosen "('uri, 'headers, 'body) http_request" RuntimeConfig Cluster
  | Picked "('uri, 'headers, 'body) http_request" RuntimeConfig Cluster Endpoint
  | Waiting "('uri, 'headers, 'body) http_request" RuntimeConfig Cluster Endpoint "'client option"
      "('uri, 'headers, 'body) http_request"
  | Answered "('uri, 'headers, 'body) http_request" RuntimeConfig "('resp, StatusCode \<times> string) result"
  | Panicked "('uri, 'headers, 'body) http_request" RuntimeConfig

definition read_step ::
  "('uri, 'headers, 'val, 'body, 'resp, 'client) http_lib \<Rightarrow> ProxyState \<Rightarrow>
   ('uri, 'headers, 'body) http_request \<Rightarrow> ('uri, 'headers, 'body, 'resp, 'client) request_task"
where
  "read_step H s req =
     (let cfg = ps_config s
      in case route_for cfg HTTP_LISTENER_PORT (match_input H req) of
           Err e \<Rightarrow> Answered req cfg (Err (NOT_FOUND, show_DxgateError e))
         | Ok route \<Rightarrow> Routed req cfg (rt_weighted_clusters route))"

definition cluster_step ::
  "bool \<Rightarrow> ProxyState \<Rightarrow> ('uri, 'headers, 'body) http_request \<Rightarrow> RuntimeConfig \<Rightarrow> WeightedCluster list \<Rightarrow>
   ('uri, 'headers, 'body, 'resp, 'client) request_task \<times> ProxyState"
where
  "cluster_step chk s req cfg weighted_clusters =
     (case pick_cluster chk s weighted_clusters of
        Panic \<Rightarrow> (Panicked req cfg, s)
      | Done (None, s') \<Rightarrow>
          (Answered req cfg (Err (SERVICE_UNAVAILABLE, ''route has no clusters'')), s')
      | Done (Some weighted, s') \<Rightarrow>
          (case cluster_by_name cfg (wc_name weighted) of
             None \<Rightarrow>
               (Answered req cfg (Err (SERVICE_UNAVAILABLE, ''cluster '' @ wc_name weighted @ '' not found'')), s')
           | Some cluster \<Rightarrow> (Chosen req cfg cluster, s')))"

definition endpoint_step ::
  "ProxyState \<Rightarrow> ('uri, 'headers, 'body) http_request \<Rightarrow> RuntimeConfig \<Rightarrow> Cluster \<Rightarrow>
   ('uri, 'headers, 'body, 'resp, 'client) request_task \<times> ProxyState"
where
  "endpoint_step s req cfg cluster =
     (case pick_endpoint s (c_name cluster) (c_endpoints cluster) of
        (Err e, s') \<Rightarrow> (Answered req cfg (Err (SERVICE_UNAVAILABLE, show_DxgateError e)), s')
      | (Ok endpoint, s') \<Rightarrow> (Picked req cfg cluster endpoint, s'))"

definition send_step ::
  "('roots, 'config, 'client) tls_lib \<Rightarrow> ('uri, 'headers, 'val, 'body, 'resp, 'client) http_lib \<Rightarrow>
   'client UpstreamClients \<Rightarrow> ('uri, 'headers, 'body) http_request \<Rightarrow> RuntimeConfig \<Rightarrow> Cluster \<Rightarrow> Endpoint \<Rightarrow>
   ('uri, 'headers, 'body, 'resp, 'client) request_task \<times> 'client UpstreamClients"
where
  "send_step L H clients req cfg cluster endpoint =
     (let scheme = (if c_tls cluster \<noteq> None then ''https'' else ''http'')
      in case ht_parse_uri H (scheme @ ''://'' @ endpoint_authority endpoint @ in_path (match_input H req)) of
           Err e \<Rightarrow> (Answered req cfg (Err (BAD_GATEWAY, ''invalid upstream uri: '' @ e)), clients)
         | Ok upstream_uri \<Rightarrow>
             (let req' = req\<lparr>rq_uri := upstream_uri, rq_headers := ht_remove_host H (rq_headers req)\<rparr>
              in case c_tls cluster of
                   None \<Rightarrow> (Waiting req cfg cluster endpoint None req', clients)
                 | Some tls \<Rightarrow>
                     (case uc_mtls clients of
                        Available pool \<Rightarrow>
                          (case client_for L pool tls of
                             (Ok client, pool') \<Rightarrow>
                               (Waiting req cfg cluster endpoint (Some client) req',
                                clients\<lparr>uc_mtls := Available pool'\<rparr>)
                           | (Err err, pool') \<Rightarrow>
                               (Answered req cfg (Err (BAD_GATEWAY,
                                  ''cluster '' @ c_name cluster @ '' mTLS setup failed: '' @ err)),
                                clients\<lparr>uc_mtls := Available pool'\<rparr>))
                      | Disabled \<Rightarrow>
                          (Answered req cfg (Err (BAD_GATEWAY, ''cluster '' @ c_name cluster @
                             '' requires mTLS but GRPC_XDS_BOOTSTRAP is not configured'')), clients)
                      | Error err \<Rightarrow>
                          (Answered req cfg (Err (BAD_GATEWAY, ''cluster '' @ c_name cluster @
                             '' requires mTLS but bootstrap loading failed: '' @ err)), clients))))"

fun task_step ::
  "bool \<Rightarrow> ('roots, 'config, 'client) tls_lib \<Rightarrow> ('uri, 'headers, 'val, 'body, 'resp, 'client) http_lib \<Rightarrow>
   'client ProxyServer \<Rightarrow> ('uri, 'headers, 'body, 'resp, 'client) request_task \<Rightarrow>
   ('uri, 'headers, 'body, 'resp, 'client) request_task \<times> 'client ProxyServer"
where
  "task_step chk L H sv (Arrived req) = (read_step H (sv_state sv) req, sv)"
| "task_step chk L H sv (Routed req cfg cs) =
     (case cluster_step chk (sv_state sv) req cfg cs of (t, s) \<Rightarrow> (t, sv\<lparr>sv_state := s\<rparr>))"
| "task_step chk L H sv (Chosen req cfg c) =
     (case endpoint_step (sv_state sv) req cfg c of (t, s) \<Rightarrow> (t, sv\<lparr>sv_state := s\<rparr>))"
| "task_step chk L H sv (Picked req cfg c e) =
     (case send_step L H (sv_clients sv) req cfg c e of (t, clients) \<Rightarrow> (t, sv\<lparr>sv_clients := clients\<rparr>))"
| "task_step chk L H sv (Waiting req cfg c e client req') = (Waiting req cfg c e client req', sv)"
| "task_step chk L H sv (Answered req cfg r) = (Answered req cfg r, sv)"
| "task_step chk L H sv (Panicked req cfg) = (Panicked req cfg, sv)"

text \<open>The upstream of a waiting task answers, or the connection to it fails.\<close>

definition upstream_result :: "('resp, string) result \<Rightarrow> ('resp, StatusCode \<times> string) result" where
  "upstream_result out = map_err (\<lambda>e. (BAD_GATEWAY, e)) out"

section \<open>The steps of one task are \<open>forward\<close>\<close>

fun task_steps ::
  "nat \<Rightarrow> bool \<Rightarrow> ('roots, 'config, 'client) tls_lib \<Rightarrow>
   ('uri, 'headers, 'val, 'body, 'resp, 'client) http_lib \<Rightarrow> 'client ProxyServer \<Rightarrow>
   ('uri, 'headers, 'body, 'resp, 'client) request_task \<Rightarrow>
   ('uri, 'headers, 'body, 'resp, 'client) request_task \<times> 'client ProxyServer"
where
  "task_steps 0 chk L H sv t = (t, sv)"
| "task_steps (Suc n) chk L H sv t = (case task_step chk L H sv t of (t', sv') \<Rightarrow> task_steps n chk L H sv' t')"

text \<open>What a task comes to when its upstream answers as the libraries of \<open>forward\<close> do.\<close>

fun task_outcome ::
  "('uri, 'headers, 'val, 'body, 'resp, 'client) http_lib \<Rightarrow>
   ('uri, 'headers, 'body, 'resp, 'client) request_task \<times> 'client ProxyServer \<Rightarrow>
   (('resp, StatusCode \<times> string) result \<times> 'client ProxyServer) outcome"
where
  "task_outcome H (Answered req cfg r, sv) = Done (r, sv)"
| "task_outcome H (Waiting req cfg c e client req', sv) =
     Done (upstream_result (case client of None \<Rightarrow> ht_plain_request H req' | Some cl \<Rightarrow> ht_mtls_request H cl req'), sv)"
| "task_outcome H (t, sv) = Panic"

lemma task_steps_done [simp]:
  "task_steps n chk L H sv (Answered req cfg r) = (Answered req cfg r, sv)"
  "task_steps n chk L H sv (Waiting req cfg c e client req') = (Waiting req cfg c e client req', sv)"
  "task_steps n chk L H sv (Panicked req cfg) = (Panicked req cfg, sv)"
  by (induction n) simp_all

lemma sv_updates [simp]: "sv\<lparr>sv_clients := sv_clients sv\<rparr> = sv" "sv\<lparr>sv_state := sv_state sv\<rparr> = sv"
  by simp_all

text \<open>From each point on, the remaining steps are the rest of \<open>forward\<close>.\<close>

lemma picked_forward:
  "task_outcome H (task_steps (Suc 0) chk L H (sv\<lparr>sv_state := s\<rparr>) (Picked req cfg c e)) =
   (case ht_parse_uri H ((if c_tls c \<noteq> None then ''https'' else ''http'') @ ''://'' @ endpoint_authority e @
            in_path (match_input H req)) of
      Err e \<Rightarrow> Done (Err (BAD_GATEWAY, ''invalid upstream uri: '' @ e), sv\<lparr>sv_state := s\<rparr>)
    | Ok upstream_uri \<Rightarrow>
        (let req' = req\<lparr>rq_uri := upstream_uri, rq_headers := ht_remove_host H (rq_headers req)\<rparr>
         in case c_tls c of
              Some tls \<Rightarrow>
                (case request_mtls L H (sv_clients sv) c tls req' of
                   (r, clients) \<Rightarrow> Done (r, \<lparr>sv_state = s, sv_clients = clients\<rparr>))
            | None \<Rightarrow> Done (request_plain H req', sv\<lparr>sv_state := s\<rparr>)))"
  by (cases sv)
    (auto simp: send_step_def Let_def request_mtls_def request_plain_def upstream_result_def
      split: result.split option.split prod.split MtlsSupport.split)

lemma routed_forward:
  "task_outcome H (task_steps (Suc (Suc (Suc 0))) chk L H sv (Routed req cfg cs)) =
     (case pick_upstream chk (sv_state sv) cfg cs of
        Panic \<Rightarrow> Panic
      | Done (Err f, s) \<Rightarrow> Done (Err f, sv\<lparr>sv_state := s\<rparr>)
      | Done (Ok (c, e), s) \<Rightarrow>
          task_outcome H (task_steps (Suc 0) chk L H (sv\<lparr>sv_state := s\<rparr>) (Picked req cfg c e)))"
  by (auto simp: cluster_step_def endpoint_step_def pick_upstream_def split: outcome.split prod.split
      option.split result.split)

lemma task_steps_forward:
  "task_outcome H (task_steps (Suc (Suc (Suc (Suc 0)))) chk L H sv (Arrived req)) = forward chk L H sv req"
proof (cases "route_for (ps_config (sv_state sv)) HTTP_LISTENER_PORT (match_input H req)")
  case (Ok route)
  then have "task_outcome H (task_steps (Suc (Suc (Suc (Suc 0)))) chk L H sv (Arrived req)) =
      task_outcome H (task_steps (Suc (Suc (Suc 0))) chk L H sv
        (Routed req (ps_config (sv_state sv)) (rt_weighted_clusters route)))"
    by (simp only: task_steps.simps(2) [of "Suc (Suc (Suc 0))"] task_step.simps(1) read_step_def Let_def
        result.case prod.case)
  then show ?thesis
    by (simp only: routed_forward forward_def Ok Let_def result.case picked_forward [unfolded Let_def])
next
  case (Err e)
  then show ?thesis by (simp add: read_step_def forward_def)
qed

section \<open>What a task can come to\<close>

text \<open>A cluster that the route of a request on a configuration leads to.\<close>

definition destination ::
  "('uri, 'headers, 'val, 'body, 'resp, 'client) http_lib \<Rightarrow> RuntimeConfig \<Rightarrow>
   ('uri, 'headers, 'body) http_request \<Rightarrow> Cluster \<Rightarrow> bool"
where
  "destination H cfg req c =
     (\<exists>route. route_for cfg HTTP_LISTENER_PORT (match_input H req) = Ok route \<and>
        (\<exists>dst\<in>set (rt_weighted_clusters route). cluster_by_name cfg (wc_name dst) = Some c))"

text \<open>The state of a task whose configuration was valid when it read it.\<close>

fun task_ok ::
  "bool \<Rightarrow> (UpstreamTls \<Rightarrow> 'client \<Rightarrow> bool) \<Rightarrow>
   ('client option \<Rightarrow> ('uri, 'headers, 'body) http_request \<Rightarrow> ('resp, string) result \<Rightarrow> bool) \<Rightarrow>
   ('uri, 'headers, 'val, 'body, 'resp, 'client) http_lib \<Rightarrow>
   ('uri, 'headers, 'body, 'resp, 'client) request_task \<Rightarrow> bool"
where
  "task_ok chk usable exchange H (Arrived req) = True"
| "task_ok chk usable exchange H (Routed req cfg cs) =
     (config_ok cfg \<and>
      (\<exists>r. route_for cfg HTTP_LISTENER_PORT (match_input H req) = Ok r \<and> cs = rt_weighted_clusters r))"
| "task_ok chk usable exchange H (Chosen req cfg c) = (config_ok cfg \<and> destination H cfg req c)"
| "task_ok chk usable exchange H (Picked req cfg c e) =
     (config_ok cfg \<and> destination H cfg req c \<and> e \<in> set (c_endpoints c) \<and> ep_healthy e)"
| "task_ok chk usable exchange H (Waiting req cfg c e client req') =
     (config_ok cfg \<and> destination H cfg req c \<and> e \<in> set (c_endpoints c) \<and> ep_healthy e \<and>
      (\<exists>uri. ht_parse_uri H (upstream_target H req c e) = Ok uri \<and> req' = upstream_request H req uri) \<and>
      (case c_tls c of None \<Rightarrow> client = None | Some tls \<Rightarrow> (\<exists>cl. client = Some cl \<and> usable tls cl)))"
| "task_ok chk usable exchange H (Answered req cfg r) =
     (config_ok cfg \<and> expected_answer usable exchange H cfg req r)"
| "task_ok chk usable exchange H (Panicked req cfg) = (chk \<and> config_ok cfg \<and> weights_overflow H cfg req)"

lemma answer_of_endpoint:
  "destination H cfg req c \<Longrightarrow> e \<in> set (c_endpoints c) \<Longrightarrow> ep_healthy e \<Longrightarrow>
     upstream_answer usable exchange H req c e r \<Longrightarrow> expected_answer usable exchange H cfg req r"
  by (fastforce simp: destination_def expected_answer_def list_ex_iff)

lemma read_step_ok: "config_ok (ps_config s) \<Longrightarrow> task_ok chk usable exchange H (read_step H s req)"
  by (auto simp: read_step_def expected_answer_def Let_def split: result.split)

lemma cluster_step_ok:
  assumes "config_ok cfg" and "route_for cfg HTTP_LISTENER_PORT (match_input H req) = Ok r"
  shows "task_ok chk usable exchange H (fst (cluster_step chk s req cfg (rt_weighted_clusters r)))"
proof -
  note r = route_for_Ok_in_routes [OF assms(2)]
  note total = pick_cluster_total [where chk = chk and s = s and cs = "rt_weighted_clusters r"]
  show ?thesis
  proof (cases "pick_cluster chk s (rt_weighted_clusters r)")
    case Panic
    then show ?thesis using total assms by (simp add: cluster_step_def weights_overflow_def)
  next
    case (Done p)
    then obtain w s1 where p: "p = (Some w, s1)" "w \<in> set (rt_weighted_clusters r)"
      using total config_ok_route(1) [OF assms(1) r] by (auto split: prod.splits option.splits)
    then obtain c where "cluster_by_name cfg (wc_name w) = Some c"
      using config_ok_route(2) [OF assms(1) r] by blast
    then show ?thesis using assms p by (auto simp: cluster_step_def Done destination_def)
  qed
qed

lemma endpoint_step_ok:
  "config_ok cfg \<Longrightarrow> destination H cfg req c \<Longrightarrow> task_ok chk usable exchange H (fst (endpoint_step s req cfg c))"
  using pick_endpoint_result [where s = s and c = "c_name c" and es = "c_endpoints c"]
  by (fastforce simp: endpoint_step_def expected_answer_def destination_def split: prod.splits result.splits)

lemma send_step_ok:
  assumes "config_ok cfg" and "destination H cfg req c" and "e \<in> set (c_endpoints c)" and "ep_healthy e"
    and "\<And>tls client. pool_client L clients tls client \<Longrightarrow> usable tls client"
  shows "task_ok chk usable exchange H (fst (send_step L H clients req cfg c e))"
proof -
  have t: "(if c_tls c \<noteq> None then ''https'' else ''http'') @ ''://'' @
      endpoint_authority e @ in_path (match_input H req) = upstream_target H req c e"
    by (simp add: upstream_target_def)
  note answer = answer_of_endpoint [OF assms(2-4)]
  show ?thesis
    unfolding send_step_def Let_def t using assms
    by (auto split: result.split option.split prod.split MtlsSupport.split intro!: answer
        simp: upstream_answer_def upstream_request_def tls_failure_def pool_client_def)
qed

lemma respond_ok:
  assumes "task_ok chk usable exchange H (Waiting req cfg c e client req')" and "exchange client req' out"
  shows "task_ok chk usable exchange H (Answered req cfg (upstream_result out))"
proof -
  have "upstream_answer usable exchange H req c e (upstream_result out)"
    using assms by (cases "c_tls c") (fastforce simp: upstream_answer_def upstream_result_def)+
  then show ?thesis using assms(1) answer_of_endpoint by auto
qed

lemma task_step_ok:
  assumes "config_ok (ps_config (sv_state sv))" and "task_ok chk usable exchange H t"
    and "\<And>tls client. pool_client L (sv_clients sv) tls client \<Longrightarrow> usable tls client"
  shows "task_ok chk usable exchange H (fst (task_step chk L H sv t))"
proof (cases t)
  case (Routed req cfg cs)
  then show ?thesis
    using assms(2) cluster_step_ok [where chk = chk and s = "sv_state sv" and cfg = cfg and H = H and req = req and
        usable = usable and exchange = exchange] by (auto simp: case_prod_beta)
next
  case (Chosen req cfg c)
  then show ?thesis
    using assms(2) endpoint_step_ok [of cfg H req c chk usable exchange "sv_state sv"] by (auto split: prod.split)
next
  case (Picked req cfg c e)
  then show ?thesis
    using assms(2,3) send_step_ok [of cfg H req c e L "sv_clients sv" usable chk exchange] by (auto split: prod.split)
qed (use assms read_step_ok in auto)

section \<open>Picks\<close>

text \<open>
  What the pickers decided in a step of a task, read off the task: the cluster chosen among
  weighted destinations, the endpoint chosen among those of a cluster.  Destinations whose
  weights add up to zero are not picked by number.
\<close>

datatype pick =
    Cluster_Pick RuntimeConfig "WeightedCluster list" Cluster
  | Endpoint_Pick "Endpoint list" Endpoint

fun picks ::
  "('uri, 'headers, 'body, 'resp, 'client) request_task \<Rightarrow> ('uri, 'headers, 'body, 'resp, 'client) request_task \<Rightarrow>
   pick list"
where
  "picks (Routed req cfg cs) (Chosen req' cfg' c) =
     (if sum_list (map wc_weight cs) = 0 then [] else [Cluster_Pick cfg cs c])"
| "picks (Chosen req cfg c) (Picked req' cfg' c' e) = [Endpoint_Pick (c_endpoints c) e]"
| "picks t t' = []"

text \<open>The pick that belongs to a number: the slot of the weights, the turn of the healthy endpoints.\<close>

fun pick_of :: "nat \<Rightarrow> pick \<Rightarrow> bool" where
  "pick_of n (Cluster_Pick cfg cs c) =
     (total_weight cs < 2 ^ 32 \<longrightarrow>
        cluster_by_name cfg (wc_name (weighted_slots cs ! (n mod 2 ^ 32 mod total_weight cs))) = Some c)"
| "pick_of n (Endpoint_Pick es e) =
     (e = filter ep_healthy es ! (n mod 2 ^ 64 mod length (filter ep_healthy es)))"

lemma pick_cluster_counter:
  assumes "pick_cluster chk s cs = Done (r, s')"
  shows "s' = (if sum_list (map wc_weight cs) = 0 then s else s\<lparr>ps_picker_counter := ps_picker_counter s + 1\<rparr>)"
proof -
  have "pick_cluster False s cs = Done (r, s')"
    using pick_cluster_total [where chk = chk and s = s and cs = cs] by (simp add: assms)
  then show ?thesis by (auto simp: pick_cluster_release Let_def split: if_splits outcome.splits)
qed

lemma unat_of_nat_u64: "unat (of_nat n :: u64) = n mod 2 ^ 64"
  by (simp add: unat_of_nat)

lemma unat_ucast_of_nat: "unat (ucast (of_nat n :: u64) :: u32) = n mod 2 ^ 32"
  unfolding unat_ucast_u32 unat_of_nat_u64 by (rule mod_mod_cancel) (simp add: le_imp_power_dvd)

lemma cluster_step_picks:
  fixes t :: "('uri, 'headers, 'body, 'resp, 'client) request_task"
  assumes "config_ok cfg" and "route_for cfg HTTP_LISTENER_PORT input = Ok r"
    and "cluster_step chk s req cfg (rt_weighted_clusters r) = (t, s')"
    and "ps_picker_counter s = of_nat n"
  defines "ps \<equiv> picks (Routed req cfg (rt_weighted_clusters r) :: ('uri, 'headers, 'body, 'resp, 'client) request_task) t"
  shows "list_all (pick_of n) ps \<and> length ps \<le> 1 \<and> s' = s\<lparr>ps_picker_counter := of_nat (n + length ps)\<rparr>"
proof -
  let ?cs = "rt_weighted_clusters r"
  note r = route_for_Ok_in_routes [OF assms(2)]
  note total = pick_cluster_total [where chk = chk and s = s and cs = ?cs]
  have same: "s = s\<lparr>ps_picker_counter := of_nat n\<rparr>" using assms(4) by simp
  show ?thesis
  proof (cases "pick_cluster chk s ?cs")
    case Panic
    then show ?thesis using assms(3) same by (auto simp: cluster_step_def ps_def)
  next
    case (Done p)
    obtain w s1 where p: "p = (Some w, s1)" "w \<in> set ?cs"
      using total config_ok_route(1) [OF assms(1) r] by (auto simp: Done split: prod.splits option.splits)
    obtain c where c: "cluster_by_name cfg (wc_name w) = Some c"
      using config_ok_route(2) [OF assms(1) r p(2)] by blast
    have t: "t = Chosen req cfg c" "s' = s1" using assms(3) by (simp_all add: cluster_step_def Done p c)
    have s1: "s1 = (if sum_list (map wc_weight ?cs) = 0 then s else s\<lparr>ps_picker_counter := ps_picker_counter s + 1\<rparr>)"
      by (rule pick_cluster_counter [OF Done [unfolded p]])
    have "pick_of n (Cluster_Pick cfg ?cs c)" if "sum_list (map wc_weight ?cs) \<noteq> 0"
    proof (unfold pick_of.simps, intro impI)
      assume small: "total_weight ?cs < 2 ^ 32"
      then have "unat (sum_list (map wc_weight ?cs)) = total_weight ?cs"
        using unat_sum_list_no_overflow [of "map wc_weight ?cs"] by (simp add: total_weight_def comp_def)
      then have "0 < total_weight ?cs" using that by (metis gr0I unat_eq_zero)
      from pick_cluster_slot [OF small this, of chk s] have
        "w = weighted_slots ?cs ! (n mod 2 ^ 32 mod total_weight ?cs)"
        by (simp add: Done p assms(4) unat_ucast_of_nat)
      with c show "cluster_by_name cfg (wc_name (weighted_slots ?cs ! (n mod 2 ^ 32 mod total_weight ?cs))) = Some c"
        by simp
    qed
    then show ?thesis using same by (auto simp: ps_def t s1 assms(4) add.commute)
  qed
qed

lemma endpoint_step_picks:
  fixes t :: "('uri, 'headers, 'body, 'resp, 'client) request_task"
  assumes "endpoint_step s req cfg c = (t, s')" and "ps_picker_counter s = of_nat n"
  defines "ps \<equiv> picks (Chosen req cfg c :: ('uri, 'headers, 'body, 'resp, 'client) request_task) t"
  shows "list_all (pick_of n) ps \<and> length ps \<le> 1 \<and> s' = s\<lparr>ps_picker_counter := of_nat (n + length ps)\<rparr>"
proof -
  have same: "s = s\<lparr>ps_picker_counter := of_nat n\<rparr>" using assms(2) by simp
  show ?thesis
  proof (cases "filter ep_healthy (c_endpoints c) = []")
    case True
    then show ?thesis using assms(1) same by (auto simp: endpoint_step_def pick_endpoint_None ps_def)
  next
    case False
    then show ?thesis
      using assms(1) by (auto simp: endpoint_step_def pick_endpoint_Some ps_def assms(2) unat_of_nat_u64 add.commute)
  qed
qed

text \<open>A step picks at most once, for the number the counter stands at, and then advances it.\<close>

lemma task_step_picks:
  assumes "task_ok chk usable exchange H t" and "task_step chk L H sv t = (t', sv')"
    and "ps_picker_counter (sv_state sv) = of_nat n"
  shows "list_all (pick_of n) (picks t t') \<and> length (picks t t') \<le> 1 \<and>
    sv_state sv' = (sv_state sv)\<lparr>ps_picker_counter := of_nat (n + length (picks t t'))\<rparr>"
proof -
  have same: "sv_state sv = (sv_state sv)\<lparr>ps_picker_counter := of_nat n\<rparr>" using assms(3) by simp
  show ?thesis
  proof (cases t)
    case (Routed req cfg cs)
    then show ?thesis
      using assms(1,2) cluster_step_picks [OF _ _ _ assms(3), of cfg "match_input H req" _ chk req]
      by (fastforce split: prod.splits)
  next
    case (Chosen req cfg c)
    then show ?thesis
      using assms(2) endpoint_step_picks [OF _ assms(3), of req cfg c] by (fastforce split: prod.splits)
  next
    case (Picked req cfg c e)
    then show ?thesis using assms(2) same by (auto split: prod.splits)
  qed (use assms(2) same in auto)
qed

section \<open>What a step changes\<close>

lemma pick_cluster_state:
  "pick_cluster chk s cs = Done (r, s') \<Longrightarrow> s' = s \<or> s' = snd (fetch_add_counter s)"
  by (auto simp: pick_cluster_def fetch_add_counter_def Let_def split: outcome.splits if_splits)

lemma pick_endpoint_state:
  "snd (pick_endpoint s c es) = s \<or> snd (pick_endpoint s c es) = snd (fetch_add_counter s)"
  by (simp add: pick_endpoint_def fetch_add_counter_def Let_def)

lemma task_step_state:
  "sv_state (snd (task_step chk L H sv t)) = sv_state sv \<or>
   sv_state (snd (task_step chk L H sv t)) = snd (fetch_add_counter (sv_state sv))"
proof (cases t)
  case (Routed req cfg cs)
  then show ?thesis
    using pick_cluster_state [of chk "sv_state sv" cs]
    by (auto simp: cluster_step_def split: outcome.split option.split prod.split)
next
  case (Chosen req cfg c)
  then show ?thesis
    using pick_endpoint_state [of "sv_state sv" "c_name c" "c_endpoints c"]
    by (auto simp: endpoint_step_def split: prod.splits result.splits)
qed (auto split: prod.split)

section \<open>The client cache\<close>

text \<open>
  The clients of a process: its pool was loaded at the start with \<open>L0\<close>, and every client in it was
  built, with the files as some moment had them, for settings with the key it is stored under.
\<close>

definition built_client :: "('roots, 'config, 'client) tls_lib set \<Rightarrow> GrpcBootstrap \<Rightarrow> string \<Rightarrow> 'client \<Rightarrow> bool" where
  "built_client Ls b key client =
     (\<exists>L\<in>Ls. \<exists>tls. mtls_cache_key tls = key \<and> build_client L b tls = Ok client)"

definition clients_ok ::
  "('roots, 'config, 'client) tls_lib set \<Rightarrow> ('roots, 'config, 'client) tls_lib \<Rightarrow> string option \<Rightarrow>
   'client UpstreamClients \<Rightarrow> bool"
where
  "clients_ok Ls L0 var clients =
     (case uc_mtls clients of
        Available pool \<Rightarrow>
          (\<exists>path pool0. var = Some path \<and> from_bootstrap L0 path = Ok pool0 \<and>
             mp_bootstrap pool = mp_bootstrap pool0) \<and>
          (\<forall>key client. mp_clients pool key = Some client \<longrightarrow> built_client Ls (mp_bootstrap pool) key client)
      | _ \<Rightarrow> True)"

definition process_client ::
  "('roots, 'config, 'client) tls_lib set \<Rightarrow> ('roots, 'config, 'client) tls_lib \<Rightarrow> string option \<Rightarrow>
   UpstreamTls \<Rightarrow> 'client \<Rightarrow> bool"
where
  "process_client Ls L0 var tls client =
     (\<exists>path pool0. var = Some path \<and> from_bootstrap L0 path = Ok pool0 \<and>
        built_client Ls (mp_bootstrap pool0) (mtls_cache_key tls) client)"

lemma clients_ok_init: "clients_ok Ls L0 var (clients_from_env L0 var)"
proof -
  have "mp_clients pool = Map.empty" if "from_bootstrap L0 path = Ok pool" for path pool
    using that by (auto simp: from_bootstrap_def)
  then show ?thesis
    by (auto simp: clients_ok_def clients_from_env_def split: option.split MtlsSupport.split result.split)
qed

lemma client_for_built:
  assumes "L \<in> Ls" and "\<And>key client. mp_clients pool key = Some client \<Longrightarrow> built_client Ls (mp_bootstrap pool) key client"
  shows "fst (client_for L pool tls) = Ok client \<Longrightarrow> built_client Ls (mp_bootstrap pool) (mtls_cache_key tls) client"
    and "mp_clients (snd (client_for L pool tls)) key = Some client' \<Longrightarrow> built_client Ls (mp_bootstrap pool) key client'"
    and "mp_bootstrap (snd (client_for L pool tls)) = mp_bootstrap pool"
  using assms
  by (auto simp: client_for_def Let_def built_client_def split: if_splits option.splits result.splits)

lemma clients_ok_usable:
  assumes "clients_ok Ls L0 var clients" and "L \<in> Ls" and "pool_client L clients tls client"
  shows "process_client Ls L0 var tls client"
proof -
  obtain pool where pool: "uc_mtls clients = Available pool" "fst (client_for L pool tls) = Ok client"
    using assms(3) by (auto simp: pool_client_def)
  from assms(1) pool(1) obtain path pool0 where
    p: "var = Some path" "from_bootstrap L0 path = Ok pool0" "mp_bootstrap pool = mp_bootstrap pool0"
    and all: "\<And>key client. mp_clients pool key = Some client \<Longrightarrow> built_client Ls (mp_bootstrap pool) key client"
    by (auto simp: clients_ok_def)
  show ?thesis
    using client_for_built(1) [OF assms(2) all pool(2)] p by (auto simp: process_client_def)
qed

lemma send_step_clients:
  "snd (send_step L H clients req cfg c e) = clients \<or>
   (\<exists>pool tls. uc_mtls clients = Available pool \<and>
      snd (send_step L H clients req cfg c e) = clients\<lparr>uc_mtls := Available (snd (client_for L pool tls))\<rparr>)"
  by (auto simp: send_step_def Let_def split: result.split option.split prod.split MtlsSupport.split) (metis snd_conv)+

lemma task_step_clients_ok:
  assumes "clients_ok Ls L0 var (sv_clients sv)" and "L \<in> Ls"
  shows "clients_ok Ls L0 var (sv_clients (snd (task_step chk L H sv t)))"
proof (cases t)
  case (Picked req cfg c e)
  then show ?thesis
    using send_step_clients [of L H "sv_clients sv" req cfg c e] assms client_for_built [OF assms(2)]
    by (auto simp: case_prod_beta clients_ok_def)
qed (use assms in \<open>auto split: prod.split\<close>)

end
