(* ===== verification/Running_System.thy ===== *)
theory Running_System
  imports Config_Register Request_Steps
begin

text \<open>
  The whole process: the gateway of \<open>Gateway\<close> (xDS client, watch cell, configuration task, shared
  state, readers of the readiness) together with any number of requests (\<open>Request_Steps\<close>), all
  interleaved at their accesses to shared state.  Requests arrive at any time; the upstream of a
  waiting request may answer anything that \<open>exchange\<close> allows, at any time or never; the files that
  TLS clients are built from may change between two steps (\<open>Ls\<close> are the library states there can
  be).

  Results: in every reachable state every answered request has the answer that the configuration
  it read prescribes, and that was valid; the picks of all requests together follow the numbers
  0, 1, 2, ...; the process refines the register of \<open>Config_Register\<close>.
\<close>

section \<open>The system\<close>

text \<open>\<open>rs_picks\<close> records what the pickers decided, read off the tasks, in the order of the steps.\<close>

record ('q, 'w, 'uri, 'headers, 'body, 'resp, 'client) running =
  rs_gateway :: "('q, 'w) gateway"
  rs_clients :: "'client UpstreamClients"
  rs_tasks :: "('uri, 'headers, 'body, 'resp, 'client) request_task list"
  rs_picks :: "pick list"

definition shared_of :: "('q, 'w) gateway \<Rightarrow> ProxyState" where
  "shared_of g = sy_shared (gw_proxy g)"

definition with_shared :: "('q, 'w) gateway \<Rightarrow> ProxyState \<Rightarrow> ('q, 'w) gateway" where
  "with_shared g s = g\<lparr>gw_proxy := (gw_proxy g)\<lparr>sy_shared := s\<rparr>\<rparr>"

definition server_of :: "('q, 'w, 'uri, 'headers, 'body, 'resp, 'client) running \<Rightarrow> 'client ProxyServer" where
  "server_of f = \<lparr>sv_state = shared_of (rs_gateway f), sv_clients = rs_clients f\<rparr>"

inductive running_step ::
  "('q, 'w) transport \<Rightarrow> decoders \<Rightarrow> XdsClientConfig \<Rightarrow> ('w \<Rightarrow> RuntimeConfig list) \<Rightarrow>
   bool \<Rightarrow> ('roots, 'config, 'client) tls_lib set \<Rightarrow> ('uri, 'headers, 'val, 'body, 'resp, 'client) http_lib \<Rightarrow>
   ('client option \<Rightarrow> ('uri, 'headers, 'body) http_request \<Rightarrow> ('resp, string) result \<Rightarrow> bool) \<Rightarrow>
   ('q, 'w, 'uri, 'headers, 'body, 'resp, 'client) running \<Rightarrow>
   ('q, 'w, 'uri, 'headers, 'body, 'resp, 'client) running \<Rightarrow> bool"
  for T D cfg published chk Ls H exchange
where
  gateway:
    "gateway_step T D cfg published (rs_gateway f) g \<Longrightarrow>
     ps_picker_counter (shared_of g) = ps_picker_counter (shared_of (rs_gateway f)) \<Longrightarrow>
     running_step T D cfg published chk Ls H exchange f (f\<lparr>rs_gateway := g\<rparr>)"
| arrive:
    "running_step T D cfg published chk Ls H exchange f (f\<lparr>rs_tasks := rs_tasks f @ [Arrived req]\<rparr>)"
| request:
    "i < length (rs_tasks f) \<Longrightarrow> L \<in> Ls \<Longrightarrow> task_step chk L H (server_of f) (rs_tasks f ! i) = (t, sv) \<Longrightarrow>
     running_step T D cfg published chk Ls H exchange f
       (f\<lparr>rs_gateway := with_shared (rs_gateway f) (sv_state sv), rs_clients := sv_clients sv,
          rs_tasks := (rs_tasks f)[i := t], rs_picks := rs_picks f @ picks (rs_tasks f ! i) t\<rparr>)"
| respond:
    "i < length (rs_tasks f) \<Longrightarrow> rs_tasks f ! i = Waiting req c cl e client req' \<Longrightarrow> exchange client req' out \<Longrightarrow>
     running_step T D cfg published chk Ls H exchange f
       (f\<lparr>rs_tasks := (rs_tasks f)[i := Answered req c (upstream_result out)]\<rparr>)"

definition running_init ::
  "('q, 'w) transport \<Rightarrow> source_lib \<Rightarrow> string option \<Rightarrow> 'w \<Rightarrow> ('roots, 'config, 'client) tls_lib \<Rightarrow> string option \<Rightarrow>
   ('q, 'w, 'uri, 'headers, 'body, 'resp, 'client) running"
where
  "running_init T S static_config w L var =
     \<lparr>rs_gateway = gateway_init T S static_config w,
      rs_clients = sv_clients (proxy_server_new L var (shared_of (gateway_init T S static_config w))),
      rs_tasks = [], rs_picks = []\<rparr>"

text \<open>
  \<open>gateway_step\<close> on its own lets the counter advance at any time, for the requests it leaves out;
  here the requests are tasks, so the gateway's steps are those that leave the counter alone.
\<close>

section \<open>The invariant\<close>

text \<open>The picks so far are those of the numbers from zero, and the counter holds the next one.\<close>

definition picks_inv :: "pick list \<Rightarrow> u64 \<Rightarrow> bool" where
  "picks_inv ps counter = (counter = of_nat (length ps) \<and> (\<forall>k<length ps. pick_of k (ps ! k)))"

lemma picks_inv_append:
  assumes "picks_inv ps (of_nat n)" and "n = length ps" and "list_all (pick_of n) qs" and "length qs \<le> 1"
  shows "picks_inv (ps @ qs) (of_nat (n + length qs))"
proof -
  have "qs = [] \<or> (\<exists>q. qs = [q])" using assms(4) by (cases qs) auto
  then show ?thesis using assms by (auto simp: picks_inv_def nth_append less_Suc_eq)
qed

definition running_inv ::
  "('w \<Rightarrow> RuntimeConfig list) \<Rightarrow> bool \<Rightarrow> ('roots, 'config, 'client) tls_lib set \<Rightarrow>
   ('roots, 'config, 'client) tls_lib \<Rightarrow> string option \<Rightarrow> ('uri, 'headers, 'val, 'body, 'resp, 'client) http_lib \<Rightarrow>
   ('client option \<Rightarrow> ('uri, 'headers, 'body) http_request \<Rightarrow> ('resp, string) result \<Rightarrow> bool) \<Rightarrow>
   ('q, 'w, 'uri, 'headers, 'body, 'resp, 'client) running \<Rightarrow> bool"
where
  "running_inv published chk Ls L0 var H exchange f =
     (gateway_inv published (rs_gateway f) \<and>
      list_all (task_ok chk (process_client Ls L0 var) exchange H) (rs_tasks f) \<and>
      clients_ok Ls L0 var (rs_clients f) \<and>
      picks_inv (rs_picks f) (ps_picker_counter (shared_of (rs_gateway f))))"

text \<open>A request is, for the rest of the gateway, at most an increment of the counter.\<close>

lemma request_is_gateway_step:
  assumes "s' = shared_of g \<or> s' = snd (fetch_add_counter (shared_of g))"
  shows "(gateway_step T D cfg published)\<^sup>=\<^sup>= g (with_shared g s')"
  using assms
proof
  assume "s' = shared_of g"
  then show ?thesis by (simp add: with_shared_def shared_of_def)
next
  assume "s' = snd (fetch_add_counter (shared_of g))"
  then have "proxy_step (gw_proxy g) ((gw_proxy g)\<lparr>sy_shared := s'\<rparr>)"
    using proxy_step.count [of "gw_proxy g"] by (simp add: shared_of_def)
  then have "gateway_step T D cfg published g (with_shared g s')"
    unfolding with_shared_def by (rule gateway_step.proxy) simp
  then show ?thesis by simp
qed

lemma gateway_inv_step_refl:
  "watch_law T published \<Longrightarrow> gateway_inv published g \<Longrightarrow> (gateway_step T D cfg published)\<^sup>=\<^sup>= g g' \<Longrightarrow>
     gateway_inv published g'"
  by (auto intro: gateway_inv_step)

lemma gateway_inv_config: "gateway_inv published g \<Longrightarrow> config_ok (ps_config (shared_of g))"
  by (simp add: gateway_inv_def quiet_inv_def shared_of_def)

lemma list_all_update: "list_all P xs \<Longrightarrow> P x \<Longrightarrow> list_all P (xs[i := x])"
  by (auto simp: list_all_iff dest!: set_update_subset_insert [THEN subsetD])

lemma request_inv:
  fixes T :: "('q, 'w) transport" and f :: "('q, 'w, 'uri, 'headers, 'body, 'resp, 'client) running"
  assumes "watch_law T published" and "running_inv published chk Ls L0 var H exchange f"
    and "i < length (rs_tasks f)" and "L \<in> Ls" and "task_step chk L H (server_of f) (rs_tasks f ! i) = (t, sv)"
  shows "running_inv published chk Ls L0 var H exchange
    (f\<lparr>rs_gateway := with_shared (rs_gateway f) (sv_state sv), rs_clients := sv_clients sv,
       rs_tasks := (rs_tasks f)[i := t], rs_picks := rs_picks f @ picks (rs_tasks f ! i) t\<rparr>)"
proof -
  let ?g = "rs_gateway f"
  let ?n = "length (rs_picks f)"
  let ?ok = "task_ok chk (process_client Ls L0 var) exchange H"
  have inv: "gateway_inv published ?g" "list_all ?ok (rs_tasks f)" "clients_ok Ls L0 var (rs_clients f)"
    "picks_inv (rs_picks f) (ps_picker_counter (shared_of ?g))"
    using assms(2) by (simp_all add: running_inv_def)
  have sv: "sv_state (server_of f) = shared_of ?g" "sv_clients (server_of f) = rs_clients f"
    by (simp_all add: server_of_def)
  have ok: "?ok (rs_tasks f ! i)" using inv(2) assms(3) by (simp add: list_all_length)
  have n: "ps_picker_counter (shared_of ?g) = of_nat ?n" using inv(4) by (simp add: picks_inv_def)
  have "sv_state sv = shared_of ?g \<or> sv_state sv = snd (fetch_add_counter (shared_of ?g))"
    using task_step_state [of chk L H "server_of f" "rs_tasks f ! i"] assms(5) by (simp add: sv)
  then have "gateway_inv published (with_shared ?g (sv_state sv))"
    by (intro gateway_inv_step_refl [OF assms(1) inv(1) request_is_gateway_step])
  moreover have "?ok t"
    using task_step_ok [OF _ ok, of "server_of f" L] gateway_inv_config [OF inv(1)]
      clients_ok_usable [OF inv(3) assms(4)] assms(5) by (simp add: sv)
  moreover have "clients_ok Ls L0 var (sv_clients sv)"
    using task_step_clients_ok [of Ls L0 var "server_of f" L chk H "rs_tasks f ! i"] inv(3) assms(4,5) by (simp add: sv)
  moreover have "picks_inv (rs_picks f @ picks (rs_tasks f ! i) t) (ps_picker_counter (sv_state sv))"
    using task_step_picks [OF ok assms(5), of ?n] picks_inv_append [OF _ refl, of "rs_picks f"] inv(4) n
    by (simp add: sv)
  moreover have "shared_of (with_shared ?g (sv_state sv)) = sv_state sv"
    by (simp add: shared_of_def with_shared_def)
  ultimately show ?thesis
    using inv(2) by (simp add: running_inv_def list_all_update)
qed

lemma running_inv_step:
  assumes "watch_law T published" and "running_inv published chk Ls L0 var H exchange f"
    and "running_step T D cfg published chk Ls H exchange f f'"
  shows "running_inv published chk Ls L0 var H exchange f'"
  using assms(3)
proof cases
  case (gateway g)
  then show ?thesis using assms(1,2) by (auto simp: running_inv_def intro: gateway_inv_step)
next
  case (arrive req)
  then show ?thesis using assms(2) by (simp add: running_inv_def)
next
  case (request i L t sv)
  then show ?thesis using request_inv [OF assms(1,2) request(2-4)] by simp
next
  case (respond i req c cl e client req' out)
  have "task_ok chk (process_client Ls L0 var) exchange H (Waiting req c cl e client req')"
    using assms(2) respond(2,3) by (metis list_all_length running_inv_def)
  from respond_ok [OF this respond(4)] show ?thesis
    using assms(2) respond(1) by (simp add: running_inv_def list_all_update del: task_ok.simps)
qed

lemma running_inv_init:
  assumes "watch_law T published" and "published w = [initial_config]"
  shows "running_inv published chk Ls L var H exchange (running_init T S sc w L var)"
proof -
  have "ps_picker_counter (shared_of (gateway_init T S sc w)) = 0"
    by (auto simp: shared_of_def gateway_init_def case_prod_beta start_static_state proxy_state_new_def
        split: option.split)
  then show ?thesis
    using gateway_inv_init [OF assms] clients_ok_init [of Ls L var]
    by (simp add: running_inv_def running_init_def picks_inv_def proxy_server_new_def)
qed

interpretation sys: step_system
  "(\<lambda>f. watch_law T published \<and> (\<exists>w S sc. published w = [initial_config] \<and> f = running_init T S sc w L var))"
  "(\<lambda>f f'. watch_law T published \<and> running_step T D cfg published chk Ls H exchange f f')"
  "running_inv published chk Ls L var H exchange"
  for T D cfg published chk Ls L var H exchange
  by unfold_locales (auto simp: running_inv_init intro: running_inv_step)

lemma running_reachable_inv:
  assumes "watch_law T published" and "published w = [initial_config]"
    and "(running_step T D cfg published chk Ls H exchange)\<^sup>*\<^sup>* (running_init T S sc w L var) f"
  shows "running_inv published chk Ls L var H exchange f"
proof (rule sys.inv_reachable [where T = T and D = D and cfg = cfg and s = "running_init T S sc w L var"])
  show "(\<lambda>f f'. watch_law T published \<and> running_step T D cfg published chk Ls H exchange f f')\<^sup>*\<^sup>*
      (running_init T S sc w L var) f"
    using assms(1,3) by simp
qed (use assms in blast)

section \<open>The process refines the gateway\<close>

lemma running_matched:
  assumes "running_step T D cfg published chk Ls H exchange f f'"
  shows "(gateway_step T D cfg published)\<^sup>*\<^sup>* (rs_gateway f) (rs_gateway f')"
  using assms
proof cases
  case (request i L t sv)
  have "sv_state sv = shared_of (rs_gateway f) \<or> sv_state sv = snd (fetch_add_counter (shared_of (rs_gateway f)))"
    using task_step_state [of chk L H "server_of f" "rs_tasks f ! i"] request(4) by (simp add: server_of_def)
  from request_is_gateway_step [OF this, of T D cfg published] request(1) show ?thesis by auto
qed auto

interpretation run: simulation
  "running_step T D cfg published chk Ls H exchange" "gateway_step T D cfg published" "\<lambda>f g. g = rs_gateway f"
  for T D cfg published chk Ls H exchange
  by unfold_locales (simp add: running_matched)

lemma running_gateway_run:
  "(running_step T D cfg published chk Ls H exchange)\<^sup>*\<^sup>* f f' \<Longrightarrow>
     (gateway_step T D cfg published)\<^sup>*\<^sup>* (rs_gateway f) (rs_gateway f')"
  using run.matched_run [of T D cfg published chk Ls H exchange f f' "rs_gateway f"] by simp

lemma running_gateway_reachable:
  "(running_step T D cfg published chk Ls H exchange)\<^sup>*\<^sup>* (running_init T S sc w L var) f \<Longrightarrow>
     (gateway_step T D cfg published)\<^sup>*\<^sup>* (gateway_init T S sc w) (rs_gateway f)"
  using running_gateway_run [of T D cfg published chk Ls H exchange "running_init T S sc w L var" f]
  by (simp add: running_init_def)

section \<open>Properties\<close>

text \<open>
  C1: in the running process, with any number of requests, the configuration task, the xDS client
  and readers interleaved, with certificate files changing and upstreams answering anything at
  any time or never, every answered request has the answer that a valid configuration, the one
  it read, prescribes: 404 if and only if no route matches, 503 for a cluster of its route
  without healthy endpoint, else what the upstream at a healthy endpoint of such a cluster
  answered, or 502.  A request that waits is waiting for a healthy endpoint, over TLS if and
  only if the cluster asks for it, with a client built for its settings from the bootstrap the
  process loaded.  A request panics only in a build with overflow checks on a route whose
  weights add up to \<open>2^32\<close> or more.
\<close>

theorem running_requests_explained:
  assumes "watch_law T published" and "published w = [initial_config]"
    and "(running_step T D cfg published chk Ls H exchange)\<^sup>*\<^sup>* (running_init T S static_config w L var) f"
    and "t \<in> set (rs_tasks f)"
  shows "(case t of
      Answered req c r \<Rightarrow> is_ok (validate c) \<and> expected_answer (process_client Ls L var) exchange H c req r
    | Waiting req c cluster e client req' \<Rightarrow>
        is_ok (validate c) \<and> destination H c req cluster \<and> e \<in> set (c_endpoints cluster) \<and> ep_healthy e \<and>
        (case c_tls cluster of
           None \<Rightarrow> client = None
         | Some tls \<Rightarrow> (\<exists>cl. client = Some cl \<and> process_client Ls L var tls cl))
    | Panicked req c \<Rightarrow> chk \<and> weights_overflow H c req
    | _ \<Rightarrow> True)"
proof -
  have "task_ok chk (process_client Ls L var) exchange H t"
    using running_reachable_inv [OF assms(1-3)] assms(4) by (simp add: running_inv_def list_all_iff)
  then show ?thesis by (cases t) (simp_all add: is_ok_validate)
qed

text \<open>
  C2: seen from outside, the running process is a register of configurations: at any two moments
  of a run, the configuration served is one of the history of the watch cell, the history has
  only been extended by valid configurations, and the position served has only moved forward,
  so the process never returns to an older configuration.  It is assumed that the receiver of
  the cell exists when \<open>main\<close> sends a static configuration, as \<open>main\<close> arranges; later sends may
  fail.
\<close>

theorem running_refines_register:
  fixes f f' :: "('q, 'w, 'uri, 'headers, 'body, 'resp, 'client) running"
  assumes "watch_law T published" and "receiver_listening T w" and "published w = [initial_config]"
    and "(running_step T D cfg published chk Ls H exchange)\<^sup>*\<^sup>* (running_init T S static_config w L var) f"
    and "(running_step T D cfg published chk Ls H exchange)\<^sup>*\<^sup>* f f'"
  defines "history \<equiv> \<lambda>f. published (cell_of (gw_client (rs_gateway f)))"
  shows "\<exists>i j. register_step\<^sup>*\<^sup>* ([initial_config], 0) (history f, i) \<and>
    register_step\<^sup>*\<^sup>* (history f, i) (history f', j) \<and> i \<le> j \<and>
    ps_config (shared_of (rs_gateway f)) = history f ! i \<and> ps_config (shared_of (rs_gateway f')) = history f' ! j"
proof -
  obtain r r' where r: "register_step\<^sup>*\<^sup>* ([initial_config], 0) r" "register_of published (rs_gateway f) r"
    "register_step\<^sup>*\<^sup>* r r'" "register_of published (rs_gateway f') r'"
    using gateway_register_run [OF assms(1-3) running_gateway_reachable [OF assms(4)] running_gateway_run [OF assms(5)]]
    by blast
  obtain h i h' j where eq: "r = (h, i)" "r' = (h', j)" by fastforce
  then have "h = history f" "h' = history f'" using r(2,4) by (simp_all add: register_of_def history_def)
  then show ?thesis
    using r eq register_forward [of h i h' j]
    by (intro exI [of _ i] exI [of _ j]) (simp add: register_of_def shared_of_def)
qed

text \<open>
  C12: the shared counter orders the picks of all requests: whatever the interleaving, the k-th
  pick of the process, counted over both pickers and all requests, takes the weighted slot k (of
  weights that do not overflow 32 bits) respectively the k-th healthy endpoint in turn, modulo
  the widths of the counter.  No number is used twice or skipped.
\<close>

theorem running_picks_in_turn:
  fixes Ls :: "('roots, 'config, 'client) tls_lib set" and L :: "('roots, 'config, 'client) tls_lib"
  assumes "watch_law T published" and "published w = [initial_config]"
    and "(running_step T D cfg published chk Ls H exchange)\<^sup>*\<^sup>* (running_init T S static_config w L var) f"
    and "k < length (rs_picks f)"
  shows "(case rs_picks f ! k of
      Cluster_Pick c cs cluster \<Rightarrow>
        2 ^ 32 \<le> total_weight cs \<or>
        cluster_by_name c (wc_name (weighted_slots cs ! (k mod 2 ^ 32 mod total_weight cs))) = Some cluster
    | Endpoint_Pick es e \<Rightarrow> e = filter ep_healthy es ! (k mod 2 ^ 64 mod length (filter ep_healthy es)))"
proof -
  have "pick_of k (rs_picks f ! k)"
    using running_reachable_inv [OF assms(1-3)] assms(4) by (simp add: running_inv_def picks_inv_def)
  then show ?thesis by (cases "rs_picks f ! k") (auto simp: linorder_not_le [symmetric])
qed

section \<open>Witnesses\<close>

text \<open>
  A process with a static configuration that has a live cluster, and an upstream that answers at
  one of its endpoints.
\<close>

definition sample_live_source :: source_lib where
  "sample_live_source = sample_source\<lparr>sl_json_config := \<lambda>raw. Ok sample_live_config,
     sl_yaml_config := \<lambda>raw. Ok sample_live_config\<rparr>"

definition sample_exchange ::
  "unit option \<Rightarrow> (string, (string \<times> string) list, unit) http_request \<Rightarrow> (string, string) result \<Rightarrow> bool"
where
  "sample_exchange client req out =
     (client = None \<and> rq_uri req = ''http://10.0.0.2:80/'' \<and> out = Ok ''pong'')"

abbreviation sample_step where
  "sample_step \<equiv> running_step sample_transport sample_decoders sample_client (\<lambda>w. fst w # snd w) False
     {sample_unit_lib} sample_http sample_exchange"

definition sample_running ::
  "string option \<Rightarrow> (DiscoveryRequest list, RuntimeConfig \<times> RuntimeConfig list, string, (string \<times> string) list,
     unit, string, unit) running"
where
  "sample_running static_config =
     running_init sample_transport sample_live_source static_config (initial_config, []) sample_unit_lib None"

lemma sample_running_server:
  "server_of (sample_running (Some ''/etc/static.yaml'')) =
     \<lparr>sv_state = \<lparr>ps_config = sample_live_config, ps_conflicts = [], ps_ready = True, ps_picker_counter = 0\<rparr>,
      sv_clients = \<lparr>uc_mtls = Disabled\<rparr>\<rparr>"
proof -
  have "static_outcome sample_live_source (Some ''/etc/static.yaml'') = Some sample_live_config"
    by (simp add: static_outcome_def static_load_def sample_live_source_def sample_source_def)
  moreover have "config_ok sample_live_config" using sample_live_config_valid validate_Ok_iff by blast
  ultimately show ?thesis
    by (simp add: server_of_def sample_running_def running_init_def shared_of_def gateway_init_def case_prod_beta
        start_static_state apply_config_cases proxy_state_new_def proxy_server_new_def clients_from_env_def)
qed

text \<open>A step of the only request.\<close>

lemma only_request_step:
  assumes "rs_tasks f = [t]" and "task_step chk L H (server_of f) t = (t', sv)" and "L \<in> Ls"
  shows "\<exists>f'. running_step T D cfg published chk Ls H exchange f f' \<and> rs_tasks f' = [t'] \<and> server_of f' = sv \<and>
    rs_picks f' = rs_picks f @ picks t t'"
proof -
  have "0 < length (rs_tasks f)" "task_step chk L H (server_of f) (rs_tasks f ! 0) = (t', sv)"
    using assms by simp_all
  note step = request [OF this(1) assms(3) this(2), of T D cfg published exchange]
  show ?thesis
    by (intro exI conjI, rule step)
      (simp_all add: assms(1) server_of_def shared_of_def with_shared_def)
qed

definition sample_destinations :: "WeightedCluster list" where
  "sample_destinations = [\<lparr>wc_name = ''default'', wc_weight = 100\<rparr>]"

text \<open>The server after so many picks.\<close>

definition sample_server_at :: "u64 \<Rightarrow> unit ProxyServer" where
  "sample_server_at n =
     \<lparr>sv_state = \<lparr>ps_config = sample_live_config, ps_conflicts = [], ps_ready = True, ps_picker_counter = n\<rparr>,
      sv_clients = \<lparr>uc_mtls = Disabled\<rparr>\<rparr>"

lemma sample_task_steps:
  "task_step False sample_unit_lib sample_http (sample_server_at 0) (Arrived (sample_request ''/'')) =
     (Routed (sample_request ''/'') sample_live_config sample_destinations, sample_server_at 0)" (is ?read)
  "task_step False sample_unit_lib sample_http (sample_server_at 0)
       (Routed (sample_request ''/'') sample_live_config sample_destinations) =
     (Chosen (sample_request ''/'') sample_live_config sample_two, sample_server_at 1)" (is ?cluster)
  "task_step False sample_unit_lib sample_http (sample_server_at 1)
       (Chosen (sample_request ''/'') sample_live_config sample_two) =
     (Picked (sample_request ''/'') sample_live_config sample_two (c_endpoints sample_two ! 1), sample_server_at 2)"
     (is ?endpoint)
  "\<exists>req'. task_step False sample_unit_lib sample_http (sample_server_at 2)
       (Picked (sample_request ''/'') sample_live_config sample_two (c_endpoints sample_two ! 1)) =
     (Waiting (sample_request ''/'') sample_live_config sample_two (c_endpoints sample_two ! 1) None req',
      sample_server_at 2) \<and> rq_uri req' = ''http://10.0.0.2:80/''" (is ?send)
proof -
  have r: "route_for sample_live_config 80 (match_input sample_http (sample_request ''/'')) =
      Ok (vh_routes (hd (l_virtual_hosts (hd (rc_listeners sample_config)))) ! 1)"
    unfolding sample_live_config_def route_for_clusters by (rule sample_default_route)
  then show ?read
    by (simp add: read_step_def sample_server_at_def sample_destinations_def) (simp add: sample_config_def)
  have w: "total_weight sample_destinations = 100" "weighted_slots sample_destinations ! 0 = hd sample_destinations"
    by (simp_all add: total_weight_def weighted_slots_def sample_destinations_def)
  have c: "cluster_by_name sample_live_config ''default'' = Some sample_two"
    by (simp add: sample_live_config_def cluster_by_name_def sample_two_def)
  have "pick_cluster False (sv_state (sample_server_at 0)) sample_destinations =
      Done (Some (hd sample_destinations), sv_state (sample_server_at 1))"
    using pick_cluster_slot [of sample_destinations False "sv_state (sample_server_at 0)"] w
    by (simp add: sample_server_at_def)
  then show ?cluster
    using c by (simp add: cluster_step_def sample_server_at_def sample_destinations_def)
  have h: "filter ep_healthy (c_endpoints sample_two) = c_endpoints sample_two" "length (c_endpoints sample_two) = 2"
    "c_endpoints sample_two \<noteq> []"
    by (simp_all add: sample_two_def)
  then show ?endpoint
    using pick_endpoint_Some [of "c_endpoints sample_two" "sv_state (sample_server_at 1)" "c_name sample_two"]
    by (simp add: endpoint_step_def sample_server_at_def)
  have p: "show_u16 80 = ''80''" by code_simp
  have t: "c_tls sample_two = None" "endpoint_authority (c_endpoints sample_two ! 1) = ''10.0.0.2:80''"
    "in_path (match_input sample_http (sample_request ''/'')) = ''/''"
    by (simp_all add: sample_two_def endpoint_authority_def p sample_match_input)
  have u: "ht_parse_uri sample_http = Ok" by (simp add: sample_http_def)
  show ?send by (simp add: send_step_def t u sample_server_at_def del: One_nat_def)
qed

lemma sample_request_run:
  "\<exists>f. sample_step\<^sup>*\<^sup>* (sample_running (Some ''/etc/static.yaml'')) f \<and>
     rs_tasks f = [Answered (sample_request ''/'') sample_live_config (Ok ''pong'')] \<and>
     rs_picks f = [Cluster_Pick sample_live_config sample_destinations sample_two,
       Endpoint_Pick (c_endpoints sample_two) (c_endpoints sample_two ! 1)]"
proof -
  let ?req = "sample_request ''/''"
  let ?f0 = "sample_running (Some ''/etc/static.yaml'')"
  let ?f1 = "?f0\<lparr>rs_tasks := rs_tasks ?f0 @ [Arrived ?req]\<rparr>"
  have s1: "sample_step ?f0 ?f1" by (rule arrive)
  have f1: "rs_tasks ?f1 = [Arrived ?req]" "rs_picks ?f1 = []" "server_of ?f1 = sample_server_at 0"
    using sample_running_server
    by (simp_all add: sample_running_def running_init_def sample_server_at_def server_of_def proxy_server_new_def clients_from_env_def)
  note step = only_request_step [where L = sample_unit_lib and Ls = "{sample_unit_lib}" and T = sample_transport and
      D = sample_decoders and cfg = sample_client and published = "\<lambda>w. fst w # snd w" and exchange = sample_exchange]
  obtain f2 where f2: "sample_step ?f1 f2" "rs_tasks f2 = [Routed ?req sample_live_config sample_destinations]"
    "rs_picks f2 = []" "server_of f2 = sample_server_at 0"
    using step [OF f1(1), of False sample_http] sample_task_steps(1) f1(2,3) by fastforce
  have nz: "sum_list (map wc_weight sample_destinations) \<noteq> 0" by (simp add: sample_destinations_def)
  obtain f3 where f3: "sample_step f2 f3" "rs_tasks f3 = [Chosen ?req sample_live_config sample_two]"
    "rs_picks f3 = [Cluster_Pick sample_live_config sample_destinations sample_two]" "server_of f3 = sample_server_at 1"
    using step [OF f2(2), of False sample_http] sample_task_steps(2) f2(3,4) nz by fastforce
  obtain f4 where f4: "sample_step f3 f4"
    "rs_tasks f4 = [Picked ?req sample_live_config sample_two (c_endpoints sample_two ! 1)]"
    "rs_picks f4 = [Cluster_Pick sample_live_config sample_destinations sample_two,
       Endpoint_Pick (c_endpoints sample_two) (c_endpoints sample_two ! 1)]" "server_of f4 = sample_server_at 2"
    using step [OF f3(2), of False sample_http] sample_task_steps(3) f3(3,4) by fastforce
  obtain req' where req': "task_step False sample_unit_lib sample_http (server_of f4)
      (Picked ?req sample_live_config sample_two (c_endpoints sample_two ! 1)) =
     (Waiting ?req sample_live_config sample_two (c_endpoints sample_two ! 1) None req', sample_server_at 2)"
    "rq_uri req' = ''http://10.0.0.2:80/''"
    using sample_task_steps(4) f4(4) by auto
  obtain f5 where f5: "sample_step f4 f5"
    "rs_tasks f5 = [Waiting ?req sample_live_config sample_two (c_endpoints sample_two ! 1) None req']"
    "rs_picks f5 = rs_picks f4"
    using step [OF f4(2) req'(1)] by fastforce
  let ?f6 = "f5\<lparr>rs_tasks := (rs_tasks f5)[0 := Answered ?req sample_live_config (upstream_result (Ok ''pong''))]\<rparr>"
  have s6: "sample_step f5 ?f6"
    by (rule respond [where i = 0 and cl = sample_two and e = "c_endpoints sample_two ! 1" and client = None and req' = req'])
      (simp_all add: f5 sample_exchange_def req'(2))
  have "sample_step\<^sup>*\<^sup>* ?f0 ?f6"
    using s1 f2(1) f3(1) f4(1) f5(1) s6 by (meson rtranclp.rtrancl_into_rtrancl rtranclp.rtrancl_refl)
  then show ?thesis
    by (intro exI [of _ ?f6]) (simp add: f5 f4(3) upstream_result_def)
qed

theorem running_requests_explained_witness:
  "\<exists>f. sample_step\<^sup>*\<^sup>* (sample_running (Some ''/etc/static.yaml'')) f \<and>
     rs_tasks f = [Answered (sample_request ''/'') sample_live_config (Ok ''pong'')] \<and>
     is_ok (validate sample_live_config) \<and>
     expected_answer (process_client {sample_unit_lib} sample_unit_lib None) sample_exchange sample_http
       sample_live_config (sample_request ''/'') (Ok ''pong'')"
proof -
  obtain f where f: "sample_step\<^sup>*\<^sup>* (sample_running (Some ''/etc/static.yaml'')) f"
    "rs_tasks f = [Answered (sample_request ''/'') sample_live_config (Ok ''pong'')]"
    using sample_request_run by blast
  from running_requests_explained [OF sample_transport_laws(1) _ f(1) [unfolded sample_running_def], of
      "Answered (sample_request ''/'') sample_live_config (Ok ''pong'')"] f
  show ?thesis by (intro exI [of _ f]) simp
qed

theorem running_picks_in_turn_witness:
  "\<exists>f. sample_step\<^sup>*\<^sup>* (sample_running (Some ''/etc/static.yaml'')) f \<and> length (rs_picks f) = 2 \<and>
     (\<exists>es e. rs_picks f ! 1 = Endpoint_Pick es e \<and>
        e = filter ep_healthy es ! (1 mod 2 ^ 64 mod length (filter ep_healthy es)))"
proof -
  obtain f where f: "sample_step\<^sup>*\<^sup>* (sample_running (Some ''/etc/static.yaml'')) f"
    "rs_picks f = [Cluster_Pick sample_live_config sample_destinations sample_two,
       Endpoint_Pick (c_endpoints sample_two) (c_endpoints sample_two ! 1)]"
    using sample_request_run by blast
  from running_picks_in_turn [OF sample_transport_laws(1) _ f(1) [unfolded sample_running_def], of 1] f
  show ?thesis by (intro exI [of _ f]) simp
qed

text \<open>A process without static configuration, up to the moment it serves the first one published.\<close>

lemma gateway_lift:
  "gateway_step sample_transport sample_decoders sample_client (\<lambda>w. fst w # snd w) (rs_gateway f) g \<Longrightarrow>
     gw_proxy g = gw_proxy (rs_gateway f) \<Longrightarrow> sample_step f (f\<lparr>rs_gateway := g\<rparr>)"
  by (rule gateway) (simp_all add: shared_of_def)

lemma sample_first_published:
  "\<exists>se c. handle_response sample_transport sample_decoders (node sample_client) sample_session
       (sample_response LISTENER_TYPE) = (se, Ok ()) \<and>
     se_watch se \<noteq> (initial_config, []) \<and> tp_borrow sample_transport (se_watch se) = c \<and>
     c \<noteq> initial_config \<and> validate c = Ok ()"
proof -
  let ?h = "handle_response sample_transport sample_decoders (node sample_client) sample_session
       (sample_response LISTENER_TYPE)"
  have type: "dr_type_url (sample_response LISTENER_TYPE) = LISTENER_TYPE"
    "dr_version_info (sample_response LISTENER_TYPE) = ''v1''"
    by (simp_all add: sample_response_def)
  have b: "tp_borrow sample_transport (se_watch (fst ?h)) = runtime_config (se_state (fst ?h)) ''v1''"
    using first_listeners_published(1) [OF sample_transport_laws(1) sample_session_started handle_sample type(1)
        sample_first_listeners] by (simp add: type(2))
  then have ne: "tp_borrow sample_transport (se_watch (fst ?h)) \<noteq> initial_config"
    by (auto simp: runtime_config_def initial_config_def config_empty_def)
  have "se_watch sample_session = (initial_config, [])"
    by (simp add: sample_session_def start_session_watch initial_config_def)
  then obtain added where "fst (se_watch (fst ?h)) # snd (se_watch (fst ?h)) = initial_config # added"
    "list_all (\<lambda>c. is_ok (validate c)) added"
    using handle_response_grows [OF sample_transport_laws(1), of sample_session sample_decoders "node sample_client"
        "sample_response LISTENER_TYPE"] by (auto simp: grows_validly_def)
  then have "is_ok (validate (tp_borrow sample_transport (se_watch (fst ?h))))"
    using ne watch_law_borrow [OF sample_transport_laws(1), of "se_watch (fst ?h)"]
    by (auto simp: list_all_iff split: if_splits)
  with ne handle_sample [of "node sample_client" sample_session LISTENER_TYPE] show ?thesis
    by (intro exI [of _ "fst ?h"]) (auto simp: is_ok_iff sample_transport_def)
qed

lemma sample_gateway_run:
  "\<exists>f. sample_step\<^sup>*\<^sup>* (sample_running None) f \<and> ps_config (shared_of (rs_gateway f)) \<noteq> initial_config"
proof -
  let ?f0 = "sample_running None"
  let ?p = "gw_proxy (rs_gateway ?f0)"
  have f0: "gw_client (rs_gateway ?f0) = Disconnected (initial_config, [])" "gw_task (rs_gateway ?f0) = AwaitChange"
    "gw_seen (rs_gateway ?f0) = 1" "sy_writer ?p = Idle"
    by (simp_all add: sample_running_def running_init_def gateway_init_def start_static_def)
  obtain se c where se: "handle_response sample_transport sample_decoders (node sample_client) sample_session
       (sample_response LISTENER_TYPE) = (se, Ok ())" "se_watch se \<noteq> (initial_config, [])"
    "tp_borrow sample_transport (se_watch se) = c" "c \<noteq> initial_config" "validate c = Ok ()"
    using sample_first_published by blast
  have len: "1 < length (fst (se_watch se) # snd (se_watch se))"
    using se(3,4) handle_response_grows [OF sample_transport_laws(1), of sample_session sample_decoders
        "node sample_client" "sample_response LISTENER_TYPE"] se(1)
    by (cases "snd (se_watch se)")
      (auto simp: grows_validly_def sample_session_def start_session_watch initial_config_def sample_transport_def)
  let ?g1 = "(rs_gateway ?f0)\<lparr>gw_client := Connected sample_session\<rparr>"
  let ?g2 = "?g1\<lparr>gw_client := Connected se\<rparr>"
  let ?g3 = "?g2\<lparr>gw_task := Notified, gw_seen := length (fst (se_watch se) # snd (se_watch se))\<rparr>"
  let ?g4 = "?g3\<lparr>gw_task := Cloned c\<rparr>"
  let ?y = "?p\<lparr>sy_shared := (sy_shared ?p)\<lparr>ps_config := c\<rparr>, sy_writer := ClearConflicts c\<rparr>"
  let ?g5 = "?g4\<lparr>gw_task := AwaitChange, gw_proxy := ?y\<rparr>"
  note start = sample_session_started [folded initial_config_def]
  have 1: "sample_step ?f0 (?f0\<lparr>rs_gateway := ?g1\<rparr>)"
    by (rule gateway_lift [OF gateway_step.connect [OF f0(1) start]]) simp
  have 2: "sample_step (?f0\<lparr>rs_gateway := ?g1\<rparr>) (?f0\<lparr>rs_gateway := ?g2\<rparr>)"
    using gateway_lift [OF gateway_step.receive [OF _ se(1), of "rs_gateway (?f0\<lparr>rs_gateway := ?g1\<rparr>)"]] by simp
  have 3: "sample_step (?f0\<lparr>rs_gateway := ?g2\<rparr>) (?f0\<lparr>rs_gateway := ?g3\<rparr>)"
    using gateway_lift [OF gateway_step.changed [of "rs_gateway (?f0\<lparr>rs_gateway := ?g2\<rparr>)"]] f0 len by simp
  have 4: "sample_step (?f0\<lparr>rs_gateway := ?g3\<rparr>) (?f0\<lparr>rs_gateway := ?g4\<rparr>)"
    using gateway_lift [OF gateway_step.borrow [of "rs_gateway (?f0\<lparr>rs_gateway := ?g3\<rparr>)"]] se(3) by simp
  have "proxy_step ?p ?y" by (rule proxy_step.write_config [OF f0(4) se(5)])
  then have "gateway_step sample_transport sample_decoders sample_client (\<lambda>w. fst w # snd w) ?g4 ?g5"
    using f0(4) by (intro gateway_step.begin_apply [where c = c]) simp_all
  then have 5: "sample_step (?f0\<lparr>rs_gateway := ?g4\<rparr>) (?f0\<lparr>rs_gateway := ?g5\<rparr>)"
    using gateway [of sample_transport sample_decoders sample_client "\<lambda>w. fst w # snd w" "?f0\<lparr>rs_gateway := ?g4\<rparr>" ?g5]
    by (simp add: shared_of_def)
  have "sample_step\<^sup>*\<^sup>* ?f0 (?f0\<lparr>rs_gateway := ?g5\<rparr>)"
    using 1 2 3 4 5 by (meson rtranclp.rtrancl_into_rtrancl rtranclp.rtrancl_refl)
  then show ?thesis using se(4) by (intro exI [of _ "?f0\<lparr>rs_gateway := ?g5\<rparr>"]) (simp add: shared_of_def)
qed

theorem running_refines_register_witness:
  "\<exists>f i j. sample_step\<^sup>*\<^sup>* (sample_running None) f \<and> ps_config (shared_of (rs_gateway f)) \<noteq> initial_config \<and>
    register_step\<^sup>*\<^sup>* ([initial_config], i)
      ((\<lambda>w. fst w # snd w) (cell_of (gw_client (rs_gateway f))), j) \<and> i \<le> j \<and>
    ps_config (shared_of (rs_gateway (sample_running None))) = [initial_config] ! i \<and>
    ps_config (shared_of (rs_gateway f)) = ((\<lambda>w. fst w # snd w) (cell_of (gw_client (rs_gateway f)))) ! j"
proof -
  obtain f where f: "sample_step\<^sup>*\<^sup>* (sample_running None) f" "ps_config (shared_of (rs_gateway f)) \<noteq> initial_config"
    using sample_gateway_run by blast
  have w: "receiver_listening sample_transport (initial_config, [])"
    by (simp add: receiver_listening_def sample_transport_def)
  have start: "cell_of (gw_client (rs_gateway (sample_running None))) = (initial_config, [])"
    by (simp add: sample_running_def running_init_def gateway_init_def start_static_def)
  from running_refines_register [OF sample_transport_laws(1) w _
      rtranclp.rtrancl_refl f(1) [unfolded sample_running_def], folded sample_running_def] f
  show ?thesis by (intro exI [of _ f]) (auto simp: start)
qed

end
