(* ===== verification/Discovery.thy ===== *)
theory Discovery
  imports Xds_Client
begin

text \<open>
  The dialogue between the client and a control plane that answers every subscription.  The
  control plane is a parameter: what it replies to a request for names of a type.  Each
  response can lead to one new subscription, for the next type in the order listeners, routes,
  clusters, endpoints, so the dialogue ends; \<open>dialogue\<close> is a recursive function whose
  termination proof is that argument.

  Results: the dialogue has at most four responses, whatever the control plane says, and leaves
  no subscription unanswered; when the control plane knows the clusters it is asked for, the
  client has published a complete configuration at the end.
\<close>

section \<open>The dialogue\<close>

record reply =
  rp_version :: string
  rp_nonce :: string
  rp_resources :: "Any list"

type_synonym control_plane = "string \<Rightarrow> string list \<Rightarrow> reply"

definition answer :: "control_plane \<Rightarrow> string \<Rightarrow> string list \<Rightarrow> DiscoveryResponse" where
  "answer W type_url names =
     (let r = W type_url names
      in \<lparr>dr_version_info = rp_version r, dr_resources = rp_resources r, dr_type_url = type_url,
          dr_nonce = rp_nonce r\<rparr>)"

lemma answer_simps [simp]:
  "dr_type_url (answer W t names) = t" "dr_resources (answer W t names) = rp_resources (W t names)"
  "dr_version_info (answer W t names) = rp_version (W t names)"
  "dr_nonce (answer W t names) = rp_nonce (W t names)"
  by (simp_all add: answer_def Let_def)

text \<open>The new subscription a response leads to, if any.\<close>

definition follow_up :: "decoders \<Rightarrow> AdsState \<Rightarrow> DiscoveryResponse \<Rightarrow> (string \<times> string list) option" where
  "follow_up D s resp =
     (case snd (apply_response D s resp) of
        Err e \<Rightarrow> None
      | Ok updates \<Rightarrow>
          find (\<lambda>(t, names). bt_get (as_subscriptions s) t \<noteq> Some names) (updates_subscriptions updates))"

text \<open>How many types come after this one.\<close>

definition types_after :: "string \<Rightarrow> nat" where
  "types_after t =
     (if t = LISTENER_TYPE then 3 else if t = ROUTE_TYPE then 2 else if t = CLUSTER_TYPE then 1 else 0)"

lemma types_after_simps [simp]:
  "types_after LISTENER_TYPE = 3" "types_after ROUTE_TYPE = 2" "types_after CLUSTER_TYPE = 1"
  "types_after ENDPOINT_TYPE = 0"
  by (simp_all add: types_after_def)

lemma updates_of_response:
  assumes "snd (apply_response D s resp) = Ok updates"
  defines "s' \<equiv> fst (apply_response D s resp)"
  shows "updates_subscriptions updates =
     (if dr_type_url resp = LISTENER_TYPE \<and> route_names s' \<noteq> [] then [(ROUTE_TYPE, route_names s')]
      else if dr_type_url resp = ROUTE_TYPE \<and> cluster_names s' \<noteq> [] then [(CLUSTER_TYPE, cluster_names s')]
      else if dr_type_url resp = CLUSTER_TYPE \<and> eds_names s' \<noteq> [] then [(ENDPOINT_TYPE, eds_names s')]
      else [])"
  using assms(1) unfolding s'_def
  by (auto simp: apply_response_def apply_listeners_def apply_routes_def apply_clusters_def
      apply_endpoints_def Let_def case_prod_beta updates_subscriptions_def updates_default_def
      split: if_splits)

lemma follow_up_Some:
  assumes "follow_up D s resp = Some (t, names)"
  shows "types_after t < types_after (dr_type_url resp)"
    and "names = (if t = ROUTE_TYPE then route_names else if t = CLUSTER_TYPE then cluster_names
                  else eds_names) (fst (apply_response D s resp))"
  using assms updates_of_response [of D s resp]
  by (auto simp: follow_up_def split: result.splits if_splits)

function dialogue ::
  "decoders \<Rightarrow> control_plane \<Rightarrow> AdsState \<Rightarrow> string \<Rightarrow> string list \<Rightarrow> DiscoveryResponse list"
where
  "dialogue D W s t names =
     (let resp = answer W t names
      in resp #
         (case follow_up D s resp of
            None \<Rightarrow> []
          | Some (t', names') \<Rightarrow> dialogue D W (ads_next D s resp) t' names'))"
  by pat_completeness auto

termination
  by (relation "measure (\<lambda>(D, W, s, t, names). types_after t)")
    (auto dest: follow_up_Some(1))

declare dialogue.simps [simp del]

lemma dialogue_Cons: "dialogue D W s t names = answer W t names # tl (dialogue D W s t names)"
  by (subst (1 2) dialogue.simps) (simp add: Let_def)

lemma length_dialogue: "length (dialogue D W s t names) \<le> Suc (types_after t)"
proof (induction D W s t names rule: dialogue.induct)
  case (1 D W s t names)
  show ?case
  proof (cases "follow_up D s (answer W t names)")
    case None
    then show ?thesis by (simp add: dialogue.simps Let_def)
  next
    case (Some u)
    obtain t' names' where u: "u = (t', names')" by fastforce
    then show ?thesis
      using 1 [OF refl Some u [symmetric]] follow_up_Some(1) [OF Some [unfolded u]] Some
      by (subst dialogue.simps) (simp add: Let_def)
  qed
qed

section \<open>The dialogue as a stream\<close>

lemma handle_answer_sent:
  assumes "queue_law T sent" and "handle_response T D n se resp = (se', Ok u)"
  shows "sent (se_requests se') = sent (se_requests se) @
      discovery_request n (dr_type_url resp) (subscription (se_state se) (dr_type_url resp))
        (dr_version_info resp) (dr_nonce resp) #
      (case follow_up D (se_state se) resp of
         None \<Rightarrow> [] | Some (t, names) \<Rightarrow> [discovery_request n t names [] []])"
proof -
  obtain updates where u: "snd (apply_response D (se_state se) resp) = Ok updates" and
    sent: "sent (se_requests se') = sent (se_requests se) @
       discovery_request n (dr_type_url resp) (subscription (se_state se) (dr_type_url resp))
         (dr_version_info resp) (dr_nonce resp) #
       map (\<lambda>(t, names). discovery_request n t names [] [])
         (filter (\<lambda>(t, names). bt_get (as_subscriptions (se_state se)) t \<noteq> Some names)
            (updates_subscriptions updates))"
    using handle_response_sent [OF assms] by blast
  then show ?thesis
    using updates_of_response [OF u] by (auto simp: follow_up_def)
qed

text \<open>The requests of a session that open a subscription, as opposed to acknowledge a response.\<close>

definition opens_subscription :: "DiscoveryRequest \<Rightarrow> bool" where
  "opens_subscription q = (dq_response_nonce q = [])"

lemma dialogue_answered:
  assumes "queue_law T sent" and "watch_law T published"
  shows "(\<And>t names. rp_nonce (W t names) \<noteq> []) \<Longrightarrow>
     stream_loop T D n se (map Message (dialogue D W (se_state se) t names)) = (se', Ok u) \<Longrightarrow>
     \<exists>new. sent (se_requests se') = sent (se_requests se) @ new \<and>
       map (\<lambda>q. answer W (dq_type_url q) (dq_resource_names q)) (filter opens_subscription new) =
         tl (dialogue D W (se_state se) t names)"
proof (induction D W "se_state se" t names arbitrary: se rule: dialogue.induct)
  case (1 D W t names)
  let ?resp = "answer W t names"
  let ?ack = "discovery_request n t (subscription (se_state se) t) (rp_version (W t names)) (rp_nonce (W t names))"
  from 1(3) obtain se1 where h: "handle_response T D n se ?resp = (se1, Ok ())"
    by (subst (asm) dialogue.simps) (auto simp: Let_def split: prod.splits result.splits)
  have state: "se_state se1 = ads_next D (se_state se) ?resp"
    by (rule handle_response_refines(1) [OF assms(2) h])
  have sent1: "sent (se_requests se1) = sent (se_requests se) @ ?ack #
      (case follow_up D (se_state se) ?resp of
         None \<Rightarrow> [] | Some (t, names) \<Rightarrow> [discovery_request n t names [] []])"
    using handle_answer_sent [OF assms(1) h] by simp
  have ack: "\<not> opens_subscription ?ack"
    using 1(2) by (simp add: opens_subscription_def discovery_request_def)
  show ?case
  proof (cases "follow_up D (se_state se) ?resp")
    case None
    then have "se' = se1"
      using 1(3) h by (subst (asm) dialogue.simps) (simp add: Let_def)
    then show ?thesis
      using sent1 ack None by (subst dialogue.simps) (auto simp: Let_def intro!: exI [of _ "[?ack]"])
  next
    case (Some f)
    obtain t' names' where f: "f = (t', names')" by fastforce
    have rest: "stream_loop T D n se1 (map Message (dialogue D W (se_state se1) t' names')) = (se', Ok u)"
      using 1(3) h by (subst (asm) dialogue.simps) (simp add: Let_def Some f state)
    obtain new where new: "sent (se_requests se') = sent (se_requests se1) @ new"
      "map (\<lambda>q. answer W (dq_type_url q) (dq_resource_names q)) (filter opens_subscription new) =
         tl (dialogue D W (se_state se1) t' names')"
      using 1(1) [OF refl Some f [symmetric] state [symmetric] 1(2) rest] by blast
    let ?new = "?ack # discovery_request n t' names' [] [] # new"
    have "dialogue D W (se_state se1) t' names' = answer W t' names' # tl (dialogue D W (se_state se1) t' names')"
      by (rule dialogue_Cons)
    moreover have "tl (dialogue D W (se_state se) t names) = dialogue D W (se_state se1) t' names'"
      by (subst dialogue.simps) (simp add: Let_def Some f state)
    ultimately have "map (\<lambda>q. answer W (dq_type_url q) (dq_resource_names q)) (filter opens_subscription ?new) =
        tl (dialogue D W (se_state se) t names)"
      using new(2) ack by (simp add: opens_subscription_def discovery_request_def)
    moreover have "sent (se_requests se') = sent (se_requests se) @ ?new"
      using new(1) sent1 by (simp add: Some f)
    ultimately show ?thesis by blast
  qed
qed

section \<open>What the client knows at the end\<close>

text \<open>When no listener carries its routes inline, every cluster in use is one the client asks for.\<close>

definition rds_only :: "AdsState \<Rightarrow> bool" where
  "rds_only s = list_all (\<lambda>snap. ls_inline_virtual_hosts snap = []) (bt_values (as_listeners s))"

lemma referenced_in_cluster_names:
  assumes "ads_inv s" and "rds_only s"
  shows "referenced_clusters s \<subseteq> set (cluster_names s)"
proof -
  have inv: "bt_invar (as_routes s)" using assms(1) by (simp add: ads_inv_def routes_ok_def map_all_def)
  have "set (vhost_clusters (l_virtual_hosts (snapshot_listener s snap))) \<subseteq> set (cluster_names s)"
    if "snap \<in> set (bt_values (as_listeners s))" for snap
  proof -
    have "ls_inline_virtual_hosts snap = []" using assms(2) that by (simp add: rds_only_def list_all_iff)
    then have "set (vhost_clusters (l_virtual_hosts (snapshot_listener s snap))) =
        (\<Union>r\<in>set (ls_route_names snap). set (vhost_clusters (unwrap_or (bt_get (as_routes s) r) [])))"
      by (auto simp: snapshot_listener_def vhost_clusters_def)
    moreover have "set (vhost_clusters (unwrap_or (bt_get (as_routes s) r) [])) \<subseteq> set (cluster_names s)" for r
      using bt_values_iff [OF inv]
      by (cases "bt_get (as_routes s) r") (auto simp: cluster_names_def set_sorted_unique vhost_clusters_def)
    ultimately show ?thesis by blast
  qed
  then show ?thesis by (auto simp: referenced_clusters_def runtime_config_def)
qed

lemma insert_cluster_known:
  assumes "ads_inv s" and "insert_cluster D s r = Ok s'"
  shows "known_clusters s \<subseteq> known_clusters s'"
    and "dec_cluster D (any_value r) = Ok c \<Longrightarrow> xc_name c \<noteq> [] \<Longrightarrow> xc_name c \<in> known_clusters s'"
proof -
  have "bt_invar (as_clusters s)" using assms(1) by (simp add: ads_inv_def clusters_ok_def map_all_def)
  then show "known_clusters s \<subseteq> known_clusters s'"
    and "dec_cluster D (any_value r) = Ok c \<Longrightarrow> xc_name c \<noteq> [] \<Longrightarrow> xc_name c \<in> known_clusters s'"
    using assms(2)
    by (auto simp: insert_cluster_def decode_resource_def known_clusters_def Let_def bt.get_put
        split: if_splits)
qed

lemma insert_clusters_known:
  assumes "ads_inv s" and "try_for_each (insert_cluster D) s rs = (s', Ok u)"
  shows "known_clusters s \<subseteq> known_clusters s' \<and>
    (\<forall>r\<in>set rs. \<forall>c. dec_cluster D (any_value r) = Ok c \<longrightarrow> xc_name c \<noteq> [] \<longrightarrow>
       xc_name c \<in> known_clusters s')"
  using assms
proof (induction rs arbitrary: s)
  case (Cons r rs)
  then obtain s1 where s1: "insert_cluster D s r = Ok s1" "try_for_each (insert_cluster D) s1 rs = (s', Ok u)"
    by (cases "insert_cluster D s r") auto
  have "ads_inv s1" by (rule insert_cluster_inv [OF Cons.prems(1) s1(1)])
  then show ?case
    using Cons.IH [OF _ s1(2)] insert_cluster_known [OF Cons.prems(1) s1(1)] by auto
qed simp

text \<open>The control plane knows the clusters it is asked for.\<close>

definition knows_clusters :: "decoders \<Rightarrow> control_plane \<Rightarrow> bool" where
  "knows_clusters D W =
     (\<forall>names n. n \<in> set names \<and> n \<noteq> [] \<longrightarrow>
        (\<exists>r\<in>set (rp_resources (W CLUSTER_TYPE names)). \<exists>c. dec_cluster D (any_value r) = Ok c \<and> xc_name c = n))"

lemma apply_clusters_knows:
  assumes "ads_inv s" and "knows_clusters D W"
    and "snd (apply_response D s (answer W CLUSTER_TYPE names)) = Ok updates"
  shows "{n\<in>set names. n \<noteq> []} \<subseteq> known_clusters (fst (apply_response D s (answer W CLUSTER_TYPE names)))"
proof -
  let ?s = "s\<lparr>as_clusters := prune_requested (as_clusters s) (subscription s CLUSTER_TYPE)\<rparr>"
  let ?rs = "rp_resources (W CLUSTER_TYPE names)"
  have "ads_inv ?s" using assms(1) by (simp add: ads_inv_def ads_wf)
  moreover have "try_for_each (insert_cluster D) ?s ?rs =
      (fst (apply_response D s (answer W CLUSTER_TYPE names)), Ok ())"
    using assms(3) by (auto simp: apply_response_def apply_clusters_def Let_def split: prod.splits)
  ultimately have "\<forall>r\<in>set ?rs. \<forall>c. dec_cluster D (any_value r) = Ok c \<longrightarrow> xc_name c \<noteq> [] \<longrightarrow>
       xc_name c \<in> known_clusters (fst (apply_response D s (answer W CLUSTER_TYPE names)))"
    using insert_clusters_known by blast
  then show ?thesis using assms(2) by (fastforce simp: knows_clusters_def)
qed

section \<open>The end of the dialogue\<close>

lemma apply_response_frame:
  "dr_type_url resp \<noteq> LISTENER_TYPE \<Longrightarrow> as_listeners (fst (apply_response D s resp)) = as_listeners s"
  "dr_type_url resp \<noteq> ROUTE_TYPE \<Longrightarrow> as_routes (fst (apply_response D s resp)) = as_routes s"
  "dr_type_url resp \<noteq> CLUSTER_TYPE \<Longrightarrow> as_clusters (fst (apply_response D s resp)) = as_clusters s"
proof -
  have c: "as_listeners (fst (try_for_each (insert_cluster D) s' rs)) = as_listeners s' \<and>
      as_routes (fst (try_for_each (insert_cluster D) s' rs)) = as_routes s'" for s' rs
    by (rule try_for_each_inv [where P = "\<lambda>t. as_listeners t = as_listeners s' \<and> as_routes t = as_routes s'"])
      (auto simp: insert_cluster_def Let_def split: if_splits)
  note defs = apply_response_def apply_listeners_def apply_routes_def apply_clusters_def
    apply_endpoints_def Let_def case_prod_beta
  show "dr_type_url resp \<noteq> LISTENER_TYPE \<Longrightarrow> as_listeners (fst (apply_response D s resp)) = as_listeners s"
    "dr_type_url resp \<noteq> ROUTE_TYPE \<Longrightarrow> as_routes (fst (apply_response D s resp)) = as_routes s"
    "dr_type_url resp \<noteq> CLUSTER_TYPE \<Longrightarrow> as_clusters (fst (apply_response D s resp)) = as_clusters s"
    by (auto simp: defs c)
qed

lemma ads_next_eq:
  assumes "snd (apply_response D s resp) = Ok updates"
  shows "ads_next D s resp =
     (case follow_up D s resp of
        None \<Rightarrow> fst (apply_response D s resp)
      | Some (t, names) \<Rightarrow> snd (set_subscription (fst (apply_response D s resp)) t names))"
proof -
  obtain s' where a: "apply_response D s resp = (s', Ok updates)" using assms by (cases "apply_response D s resp") auto
  have "as_subscriptions s' = as_subscriptions s" using apply_response_subscriptions [of D s resp] a by simp
  then show ?thesis
    using a updates_of_response [OF assms] names_of_state_sorted [of s']
    by (auto simp: ads_next_def follow_up_def set_subscription_def Let_def)
qed

lemma ads_next_known:
  "known_clusters (ads_next D s resp) = known_clusters (fst (apply_response D s resp))"
  "cluster_names (ads_next D s resp) = cluster_names (fst (apply_response D s resp))"
proof -
  have f: "as_clusters (fold (\<lambda>(t, names) s. snd (set_subscription s t names)) us s) = as_clusters s" for us s
    by (induction us arbitrary: s) (auto simp: set_subscription_def Let_def)
  have "as_clusters (ads_next D s resp) = as_clusters (fst (apply_response D s resp))"
    by (auto simp: ads_next_def f split: prod.splits result.splits)
  then show "known_clusters (ads_next D s resp) = known_clusters (fst (apply_response D s resp))"
    "cluster_names (ads_next D s resp) = cluster_names (fst (apply_response D s resp))"
    by (simp_all add: known_clusters_def cluster_names_def ads_next_routes)
qed

lemma cluster_names_nonempty: "ads_inv s \<Longrightarrow> [] \<notin> set (cluster_names s)"
  by (fastforce simp: cluster_names_def set_sorted_unique vhost_clusters_def ads_inv_def routes_ok_def
      vhost_wf_def route_wf_def list_all_iff dest: map_all_values)

text \<open>Where the dialogue stands when a request for a type is about to be answered.\<close>

definition stage :: "AdsState \<Rightarrow> string \<Rightarrow> string list \<Rightarrow> bool" where
  "stage s t names =
     (ads_inv s \<and> t \<in> {LISTENER_TYPE, ROUTE_TYPE, CLUSTER_TYPE, ENDPOINT_TYPE} \<and>
      (t = LISTENER_TYPE \<longrightarrow> as_routes s = []) \<and>
      (t \<in> {LISTENER_TYPE, ROUTE_TYPE} \<longrightarrow> bt_get (as_subscriptions s) CLUSTER_TYPE = None) \<and>
      (t = CLUSTER_TYPE \<longrightarrow> names = cluster_names s) \<and>
      (t = ENDPOINT_TYPE \<longrightarrow> set (cluster_names s) \<subseteq> known_clusters s))"

lemma stage_step:
  assumes "stage s t names" and "knows_clusters D W" and "response_decodes D (answer W t names)"
  defines "s' \<equiv> ads_next D s (answer W t names)"
  shows "(case follow_up D s (answer W t names) of
            None \<Rightarrow> ads_inv s' \<and> set (cluster_names s') \<subseteq> known_clusters s'
          | Some (t', names') \<Rightarrow> stage s' t' names')"
proof -
  let ?a = "fst (apply_response D s (answer W t names))"
  obtain updates where u: "snd (apply_response D s (answer W t names)) = Ok updates"
    using apply_response_is_ok [of D s "answer W t names"] assms(3) by (auto simp: is_ok_iff)
  note up = updates_of_response [OF u, simplified] and frame = apply_response_frame [of "answer W t names" D s, simplified]
  have inv: "ads_inv s" "ads_inv s'"
    using assms(1) by (simp_all add: stage_def s'_def ads_next_inv)
  have subs: "bt_invar (as_subscriptions s)"
    using inv(1) by (simp add: ads_inv_def subscriptions_ok_def map_all_def)
  note nx = ads_next_known [of D s "answer W t names", folded s'_def]
  have fu: "follow_up D s (answer W t names) =
      find (\<lambda>(t, names). bt_get (as_subscriptions s) t \<noteq> Some names) (updates_subscriptions updates)"
    by (simp add: follow_up_def u)
  consider "t = LISTENER_TYPE" | "t = ROUTE_TYPE" | "t = CLUSTER_TYPE" | "t = ENDPOINT_TYPE"
    using assms(1) by (auto simp: stage_def)
  then show ?thesis
  proof cases
    case 1
    then have "as_routes s' = []" using assms(1) frame by (simp add: stage_def s'_def ads_next_routes)
    moreover have "bt_get (as_subscriptions s') CLUSTER_TYPE = None"
      unfolding s'_def ads_next_eq [OF u] fu
      using assms(1) 1 up subs by (auto simp: stage_def set_subscription_def Let_def bt.get_put)
    ultimately show ?thesis
      unfolding fu using 1 inv(2) up
      by (auto simp: stage_def cluster_names_def bt_values_def sorted_unique_def)
  next
    case 2
    then show ?thesis
      unfolding fu using assms(1) inv(2) up nx by (auto simp: stage_def)
  next
    case 3
    then have "cluster_names s' = names"
      using assms(1) frame nx by (simp add: stage_def cluster_names_def)
    moreover have "set names \<subseteq> known_clusters s'"
      using apply_clusters_knows [OF inv(1) assms(2), of names] u nx(1) 3 cluster_names_nonempty [OF inv(2)]
      by (auto simp: \<open>cluster_names s' = names\<close>)
    ultimately show ?thesis
      unfolding fu using 3 inv(2) up by (auto simp: stage_def)
  next
    case 4
    then have "cluster_names s' = cluster_names s" "known_clusters s' = known_clusters s"
      using frame nx by (simp_all add: cluster_names_def known_clusters_def)
    then show ?thesis
      unfolding fu using 4 assms(1) inv(2) up by (auto simp: stage_def)
  qed
qed

lemma dialogue_end:
  "stage s t names \<Longrightarrow> knows_clusters D W \<Longrightarrow> (\<And>t names. response_decodes D (answer W t names)) \<Longrightarrow>
     (let s' = foldl (ads_next D) s (dialogue D W s t names)
      in ads_inv s' \<and> set (cluster_names s') \<subseteq> known_clusters s')"
proof (induction D W s t names rule: dialogue.induct)
  case (1 D W s t names)
  note st = stage_step [OF 1(2,3) 1(4) [of t names]]
  show ?case
  proof (cases "follow_up D s (answer W t names)")
    case None
    with st show ?thesis by (subst dialogue.simps) (simp add: Let_def)
  next
    case (Some f)
    obtain t' names' where f: "f = (t', names')" by fastforce
    with st Some have "stage (ads_next D s (answer W t names)) t' names'" by simp
    from 1(1) [OF refl Some f [symmetric] this 1(3,4)] show ?thesis
      by (subst dialogue.simps) (simp add: Let_def Some f)
  qed
qed

text \<open>A fresh session is at the first stage.\<close>

lemma fresh_session_state:
  assumes "start_session T cfg w = (se, r)"
  shows "se_state se = snd (set_subscription ads_default LISTENER_TYPE (sorted_unique (xcc_listener_names cfg)))"
    and "se_watch se = w"
  using assms by (auto simp: start_session_def Let_def split: prod.splits)

lemma fresh_session_stage:
  assumes "start_session T cfg w = (se, r)"
  shows "stage (se_state se) LISTENER_TYPE names"
  unfolding fresh_session_state(1) [OF assms] stage_def
  using set_subscription_inv [OF ads_inv_default]
  by (auto simp: set_subscription_def Let_def ads_default_def bt_get_def)

lemma last_ads_configs:
  "resps \<noteq> [] \<Longrightarrow> last (ads_configs D s resps) =
     runtime_config (foldl (ads_next D) s resps) (dr_version_info (last resps)) \<and> ads_configs D s resps \<noteq> []"
  by (induction resps arbitrary: s) (auto simp: Let_def)

lemma dialogue_decodes:
  "(\<And>t names. response_decodes D (answer W t names)) \<Longrightarrow>
     list_all (response_decodes D) (dialogue D W s t names)"
proof (induction D W s t names rule: dialogue.induct)
  case (1 D W s t names)
  then show ?case
    by (subst dialogue.simps) (auto simp: Let_def split: option.splits)
qed

lemma last_filter: "xs \<noteq> [] \<Longrightarrow> P (last xs) \<Longrightarrow> last (y # filter P xs) = last xs"
  by (induction xs rule: rev_induct) auto

section \<open>Properties\<close>

text \<open>
  C14: the dialogue of a session with a control plane that answers each subscription ends after at
  most four responses, whatever the control plane replies: the responses that follow are exactly
  the answers to the subscriptions the client opened, and none of these is left unanswered.
\<close>

theorem discovery_terminates:
  assumes "queue_law T sent" and "watch_law T published" and "\<And>t names. rp_nonce (W t names) \<noteq> []"
    and "stream_loop T D n se (map Message (dialogue D W (se_state se) LISTENER_TYPE names)) = (se', Ok u)"
  shows "length (dialogue D W (se_state se) LISTENER_TYPE names) \<le> 4 \<and>
    (\<exists>new. sent (se_requests se') = sent (se_requests se) @ new \<and>
       map (\<lambda>q. answer W (dq_type_url q) (dq_resource_names q)) (filter opens_subscription new) =
         tl (dialogue D W (se_state se) LISTENER_TYPE names))"
  using length_dialogue [of D W "se_state se" LISTENER_TYPE names] dialogue_answered [OF assms]
  by simp

text \<open>
  C6: discovery converges: when the control plane answers with resources that decode and knows the
  clusters it is asked for, and no listener carries its routes inline, a new session reaches a
  complete configuration and publishes it.  Assumed of the transport: sends succeed, as they do
  while the receivers of the request queue and of the watch cell are alive.
\<close>

theorem discovery_converges:
  assumes "watch_law T published" and "never_fails T"
    and "start_session T cfg w = (se, Ok u)"
    and "\<And>t names. response_decodes D (answer W t names)" and "knows_clusters D W"
    and "rds_only (foldl (ads_next D) (se_state se) resps)"
    and "resps = dialogue D W (se_state se) LISTENER_TYPE (sorted_unique (xcc_listener_names cfg))"
  shows "\<exists>se'. stream_loop T D (node cfg) se (map Message resps) = (se', Ok ()) \<and>
    referenced_clusters (se_state se') \<subseteq> known_clusters (se_state se') \<and>
    tp_borrow T (se_watch se') = runtime_config (se_state se') (dr_version_info (last resps)) \<and>
    is_ok (validate (tp_borrow T (se_watch se')))"
proof -
  have "resps \<noteq> []"
    unfolding assms(7) by (subst dialogue_Cons) simp
  have "is_ok (snd (stream_loop T D (node cfg) se (map Message resps)))"
    using dialogue_decodes [OF assms(4)] by (simp add: stream_loop_is_ok [OF assms(2)] assms(7))
  then obtain se' where se': "stream_loop T D (node cfg) se (map Message resps) = (se', Ok ())"
    by (cases "stream_loop T D (node cfg) se (map Message resps)") (auto simp: is_ok_iff)
  obtain resps' where r: "map Message resps = map Message resps'"
    "se_state se' = foldl (ads_next D) (se_state se) resps'"
    "tp_borrow T (se_watch se') = last (tp_borrow T (se_watch se) #
        filter (\<lambda>cfg. is_ok (validate cfg)) (ads_configs D (se_state se) resps'))"
    using stream_loop_pure [OF assms(1) se'] by blast
  have eq: "resps' = resps"
    using r(1) by (metis stream_item.inject(1) inj_onI map_inj_on)
  have fin: "ads_inv (se_state se')" "set (cluster_names (se_state se')) \<subseteq> known_clusters (se_state se')"
    using dialogue_end [OF fresh_session_stage [OF assms(3)] assms(5,4)] r(2) eq assms(7)
    by (simp_all add: Let_def)
  have ref: "referenced_clusters (se_state se') \<subseteq> known_clusters (se_state se')"
    using referenced_in_cluster_names [OF fin(1)] fin(2) assms(6) r(2) eq by auto
  have ok: "is_ok (validate (runtime_config (se_state se') v))" for v
    using violated_kinds_runtime_config [OF fin(1), of v] ref
    by (simp add: is_ok_validate config_ok_iff_violated_kinds)
  have "tp_borrow T (se_watch se') = runtime_config (se_state se') (dr_version_info (last resps))"
    using r(2,3) eq last_ads_configs [OF \<open>resps \<noteq> []\<close>, of D "se_state se"] ok last_filter by metis
  with se' ref ok show ?thesis by auto
qed

section \<open>A sample control plane\<close>

text \<open>
  It sends the sample listener, route and assignment, and for each cluster name it is asked for
  a cluster of that name, which the decoder reads from the payload.
\<close>

definition name_bytes :: "string \<Rightarrow> bytes" where
  "name_bytes name = map (\<lambda>c. word_of_nat (of_char c)) name"

definition bytes_name :: "bytes \<Rightarrow> string" where
  "bytes_name bs = map (\<lambda>b. char_of (unat b)) bs"

definition sample_plane :: control_plane where
  "sample_plane t names =
     \<lparr>rp_version = ''v1'', rp_nonce = ''n1'', rp_resources =
        (if t = CLUSTER_TYPE then map (\<lambda>n. \<lparr>any_type_url = t, any_value = name_bytes n\<rparr>) names
         else [sample_any t])\<rparr>"

definition plane_decoders :: decoders where
  "plane_decoders = sample_decoders\<lparr>dec_cluster := \<lambda>bs. Ok (sample_cluster\<lparr>xc_name := bytes_name bs\<rparr>)\<rparr>"

lemma bytes_name_name_bytes: "bytes_name (name_bytes n) = n"
proof -
  have "of_char c < (256 :: nat)" for c
    using of_char_of [of "of_char c :: nat"] by simp
  then have "unat (word_of_nat (of_char c) :: 8 word) = of_char c" for c
    by (simp add: unat_of_nat)
  then show ?thesis by (simp add: bytes_name_def name_bytes_def comp_def)
qed

lemma sample_plane_knows: "knows_clusters plane_decoders sample_plane"
  by (auto simp: knows_clusters_def sample_plane_def plane_decoders_def bytes_name_name_bytes)

lemma plane_snapshot:
  "listener_snapshot plane_decoders l = listener_snapshot sample_decoders l"
proof -
  have "decode_all plane_decoders anys = decode_all sample_decoders anys" for anys
    by (induction anys) (simp_all add: decode_hcm_def plane_decoders_def)
  then show ?thesis
    by (simp add: listener_snapshot_def http_connection_managers_def)
qed

lemma sample_plane_decodes: "response_decodes plane_decoders (answer sample_plane t names)"
  using sample_decode_any [of "[]"]
  by (auto simp: response_decodes_def sample_plane_def resource_decodes_def decode_resource_def
      plane_decoders_def list_all_iff plane_snapshot [unfolded plane_decoders_def] sample_conversions)

lemma rds_only_insert:
  "listeners_ok m \<Longrightarrow> list_all (\<lambda>snap. ls_inline_virtual_hosts snap = []) (bt_values m) \<Longrightarrow>
     ls_inline_virtual_hosts snap = [] \<Longrightarrow>
     list_all (\<lambda>snap. ls_inline_virtual_hosts snap = []) (bt_values (bt_insert k snap m))"
  by (auto simp: list_all_iff bt_values_iff listeners_ok_def map_all_def bt.ok_put bt.get_put split: if_splits)

text \<open>When no connection manager carries routes inline, no listener of the state does.\<close>

lemma rds_only_next:
  assumes "\<And>l snap. listener_snapshot D l = Ok snap \<Longrightarrow> ls_inline_virtual_hosts snap = []"
    and "ads_inv s" and "rds_only s"
  shows "rds_only (ads_next D s resp)"
proof -
  let ?P = "\<lambda>m. listeners_ok m \<and> list_all (\<lambda>snap. ls_inline_virtual_hosts snap = []) (bt_values m)"
  let ?m = "prune_requested (as_listeners s) (subscription s LISTENER_TYPE)"
  have inv: "listeners_ok (as_listeners s)" using assms(2) by (simp add: ads_inv_def)
  have "?P ?m"
    using inv assms(3)
    by (auto simp: rds_only_def list_all_iff bt_values_iff listeners_ok_def map_all_def
        get_prune_requested prune_requested_invar split: if_splits)
  moreover have "?P m'" if "?P m" "insert_listener D m x = Ok m'" for m x m'
    using that insert_listener_inv [of m D x m']
    by (auto simp: insert_listener_def assms(1) intro: rds_only_insert)
  ultimately have "?P (fst (try_for_each (insert_listener D) ?m rs))" for rs
    by (rule try_for_each_inv)
  then show ?thesis
    using assms(3) apply_response_frame(1) [of resp D s]
    by (cases "dr_type_url resp = LISTENER_TYPE")
      (simp_all add: rds_only_def ads_next_listeners apply_response_def apply_listeners_def Let_def
        case_prod_beta)
qed

lemma rds_only_run:
  "(\<And>l snap. listener_snapshot D l = Ok snap \<Longrightarrow> ls_inline_virtual_hosts snap = []) \<Longrightarrow>
   ads_inv s \<Longrightarrow> rds_only s \<Longrightarrow> rds_only (foldl (ads_next D) s resps)"
  by (induction resps arbitrary: s) (auto intro: ads_next_inv rds_only_next)

lemma sample_no_inline:
  assumes "listener_snapshot sample_decoders l = Ok snap"
  shows "ls_inline_virtual_hosts snap = []"
proof -
  have "decode_all sample_decoders anys = Ok hs \<Longrightarrow> concat (map hcm_inline_hosts hs) = []" for anys hs
    by (induction anys arbitrary: hs)
      (auto simp: decode_hcm_def decode_resource_def sample_decoders_def sample_decode_def
        hcm_inline_hosts_def split: if_splits)
  then show ?thesis
    using assms by (auto simp: listener_snapshot_def http_connection_managers_def Let_def)
qed

definition sample_dialogue :: "DiscoveryResponse list" where
  "sample_dialogue = dialogue plane_decoders sample_plane (se_state sample_session) LISTENER_TYPE
     (sorted_unique (xcc_listener_names sample_client))"

section \<open>Witnesses\<close>

theorem discovery_converges_witness:
  "\<exists>se'. stream_loop sample_transport plane_decoders (node sample_client) sample_session
       (map Message sample_dialogue) = (se', Ok ()) \<and>
    referenced_clusters (se_state se') \<subseteq> known_clusters (se_state se') \<and>
    tp_borrow sample_transport (se_watch se') =
      runtime_config (se_state se') (dr_version_info (last sample_dialogue)) \<and>
    is_ok (validate (tp_borrow sample_transport (se_watch se')))"
proof (rule discovery_converges [OF sample_transport_laws(1,3) sample_session_started
        sample_plane_decodes sample_plane_knows _ sample_dialogue_def])
  have "ads_inv (se_state sample_session)" "rds_only (se_state sample_session)"
    using set_subscription_inv [OF ads_inv_default]
    by (auto simp: fresh_session_state(1) [OF sample_session_started] rds_only_def
        set_subscription_def Let_def ads_default_def bt_values_def)
  then show "rds_only (foldl (ads_next plane_decoders) (se_state sample_session) sample_dialogue)"
    by (intro rds_only_run) (auto simp: plane_snapshot dest: sample_no_inline)
qed

theorem discovery_terminates_witness:
  "length sample_dialogue \<le> 4 \<and>
   map (\<lambda>q. answer sample_plane (dq_type_url q) (dq_resource_names q))
     (filter opens_subscription (drop (length (se_requests sample_session))
       (se_requests (fst (stream_loop sample_transport plane_decoders (node sample_client) sample_session
          (map Message sample_dialogue)))))) = tl sample_dialogue"
proof -
  let ?l = "stream_loop sample_transport plane_decoders (node sample_client) sample_session
     (map Message sample_dialogue)"
  have "is_ok (snd ?l)"
    using dialogue_decodes [of plane_decoders sample_plane] sample_plane_decodes
    by (simp add: stream_loop_is_ok sample_transport_laws sample_dialogue_def)
  then have l: "?l = (fst ?l, Ok ())" by (cases ?l) (auto simp: is_ok_iff)
  have nonce: "rp_nonce (sample_plane t names) \<noteq> []" for t names by (simp add: sample_plane_def)
  from discovery_terminates [OF sample_transport_laws(2,1) nonce l [unfolded sample_dialogue_def]]
  show ?thesis by (auto simp: sample_dialogue_def)
qed

end
