(* ===== verification/Ads_Spec.thy ===== *)
theory Ads_Spec
  imports Ads_State
begin

text \<open>
  What a response means for the resources of a stream, stated without the loops and ordered maps
  of \<open>AdsState\<close>: a state is four partial functions from names, a response is a list of entries, and
  applying it replaces the entries of the subscribed names.  \<open>apply_response\<close> implements this
  specification (a functional refinement along \<open>view\<close>).
\<close>

section \<open>Entries of a response\<close>

definition put_entries :: "('k::linorder \<times> 'v) list \<Rightarrow> ('k, 'v) btree_map \<Rightarrow> ('k, 'v) btree_map" where
  "put_entries kvs m = fold (\<lambda>e. bt_insert (fst e) (snd e)) kvs m"

lemma put_entries_append: "put_entries (xs @ ys) m = put_entries ys (put_entries xs m)"
  by (simp add: put_entries_def)

lemma put_entries_simps [simp]:
  "put_entries [] m = m" "put_entries [(k, v)] m = bt_insert k v m"
  by (simp_all add: put_entries_def)

lemma put_entries_invar [simp]: "bt_invar m \<Longrightarrow> bt_invar (put_entries kvs m)"
  unfolding put_entries_def by (rule bt.ok_put_all)

lemma get_put_entries:
  "bt_invar m \<Longrightarrow> bt_get (put_entries kvs m) k =
     (case map_of (rev kvs) k of Some v \<Rightarrow> Some v | None \<Rightarrow> bt_get m k)"
  unfolding put_entries_def using bt.get_put_all [of m fst snd kvs k] by simp

text \<open>Replacing twice is replacing once.\<close>

lemma replace_twice:
  assumes "bt_invar m"
  shows "put_entries kvs (prune_requested (put_entries kvs (prune_requested m names)) names) =
    put_entries kvs (prune_requested m names)"
  using assms
  by (intro bt_extensional)
    (auto simp: get_put_entries get_prune_requested prune_requested_invar split: option.splits)

lemma put_twice: "bt_invar m \<Longrightarrow> put_entries kvs (put_entries kvs m) = put_entries kvs m"
  by (rule bt_extensional) (auto simp: get_put_entries split: option.splits)

text \<open>A loop that inserts the entries of each resource.\<close>

lemma all_Ok_Cons:
  "(\<exists>ys. map g (x # xs) = map Ok ys \<and> Q ys) \<longleftrightarrow> (\<exists>y ys. g x = Ok y \<and> map g xs = map Ok ys \<and> Q (y # ys))"
  (is "?l \<longleftrightarrow> ?r")
proof
  assume ?l
  then obtain ys where "map g (x # xs) = map Ok ys" "Q ys" by blast
  then show ?r by (cases ys) auto
next
  assume ?r
  then obtain y ys where "map g (x # xs) = map Ok (y # ys)" "Q (y # ys)" by auto
  then show ?l by blast
qed

lemma try_for_each_put:
  assumes "\<And>m x. f m x = and_then (entries x) (\<lambda>kvs. Ok (put_entries kvs m))"
  shows "try_for_each f m xs = (m', Ok u) \<longleftrightarrow>
    (\<exists>kvss. map entries xs = map Ok kvss \<and> m' = put_entries (concat kvss) m)"
proof (induction xs arbitrary: m)
  case (Cons x xs)
  show ?case
  proof (cases "entries x")
    case (Ok kvs)
    then show ?thesis
      using Cons.IH [of "put_entries kvs m"] unfolding all_Ok_Cons by (simp add: assms put_entries_append)
  next
    case (Err e)
    then show ?thesis unfolding all_Ok_Cons by (simp add: assms)
  qed
qed auto

lemma redelivered:
  assumes "\<And>m x. f m x = and_then (entries x) (\<lambda>kvs. Ok (put_entries kvs m))"
    and "bt_invar m" and "try_for_each f (prune_requested m names) xs = (m', Ok u)"
  shows "try_for_each f (prune_requested m' names) xs = (m', Ok ())"
proof -
  obtain kvss where "map entries xs = map Ok kvss" "m' = put_entries (concat kvss) (prune_requested m names)"
    using assms(3) unfolding try_for_each_put [where f = f, OF assms(1)] by blast
  with replace_twice [OF assms(2), of "concat kvss" names] show ?thesis
    unfolding try_for_each_put [where f = f, OF assms(1)] by auto
qed

section \<open>The resource types\<close>

definition listener_entries :: "decoders \<Rightarrow> Any \<Rightarrow> ((string \<times> ListenerSnapshot) list, XdsError) result" where
  "listener_entries D r =
     and_then (decode_resource (dec_listener D) LISTENER_TYPE r) (\<lambda>l.
     and_then (listener_snapshot D l) (\<lambda>snap. Ok [(l_name (ls_listener snap), snap)]))"

definition route_entries :: "decoders \<Rightarrow> Any \<Rightarrow> ((string \<times> VirtualHost list) list, XdsError) result" where
  "route_entries D r =
     and_then (decode_resource (dec_route D) ROUTE_TYPE r) (\<lambda>route.
       Ok [(rcfg_name route, convert_virtual_hosts (rcfg_virtual_hosts route))])"

definition assignment_entries :: "decoders \<Rightarrow> Any \<Rightarrow> ((string \<times> Endpoint list) list, XdsError) result" where
  "assignment_entries D r =
     and_then (decode_resource (dec_assignment D) ENDPOINT_TYPE r) (\<lambda>a.
       Ok (if cla_cluster_name a = [] then [] else [(cla_cluster_name a, endpoints_from_assignment a)]))"

text \<open>A cluster can bring its endpoints along.\<close>

definition cluster_entries ::
  "decoders \<Rightarrow> Any \<Rightarrow> ((string \<times> ClusterSnapshot) list \<times> (string \<times> Endpoint list) list, XdsError) result"
where
  "cluster_entries D r =
     and_then (decode_resource (dec_cluster D) CLUSTER_TYPE r) (\<lambda>c.
       Ok (if xc_name c = [] then ([], [])
           else ([(xc_name c, \<lparr>cs_name = xc_name c, cs_eds_service_name = eds_service_name_of c,
                    cs_tls = upstream_tls_from_cluster D c\<rparr>)],
                 (case xc_load_assignment c of
                    Some a \<Rightarrow> [(eds_service_name_of c, endpoints_from_assignment a)] | None \<Rightarrow> []))))"

lemma insert_as_entries:
  "insert_listener D m r = and_then (listener_entries D r) (\<lambda>kvs. Ok (put_entries kvs m))"
  "insert_route D ms r = and_then (route_entries D r) (\<lambda>kvs. Ok (put_entries kvs ms))"
  "insert_assignment D me r = and_then (assignment_entries D r) (\<lambda>kvs. Ok (put_entries kvs me))"
proof -
  show "insert_listener D m r = and_then (listener_entries D r) (\<lambda>kvs. Ok (put_entries kvs m))"
  proof (cases "decode_resource (dec_listener D) LISTENER_TYPE r")
    case (Ok l)
    then show ?thesis
      by (cases "listener_snapshot D l") (simp_all add: insert_listener_def listener_entries_def)
  qed (simp add: insert_listener_def listener_entries_def)
  show "insert_route D ms r = and_then (route_entries D r) (\<lambda>kvs. Ok (put_entries kvs ms))"
    by (cases "decode_resource (dec_route D) ROUTE_TYPE r")
      (simp_all add: insert_route_def route_entries_def)
  show "insert_assignment D me r = and_then (assignment_entries D r) (\<lambda>kvs. Ok (put_entries kvs me))"
    by (cases "decode_resource (dec_assignment D) ENDPOINT_TYPE r")
      (simp_all add: insert_assignment_def assignment_entries_def)
qed

definition put_clusters ::
  "((string \<times> ClusterSnapshot) list \<times> (string \<times> Endpoint list) list) list \<Rightarrow> AdsState \<Rightarrow> AdsState"
where
  "put_clusters ps s = s\<lparr>as_endpoints := put_entries (concat (map snd ps)) (as_endpoints s),
     as_clusters := put_entries (concat (map fst ps)) (as_clusters s)\<rparr>"

lemma insert_cluster_as_entries:
  "insert_cluster D s r = and_then (cluster_entries D r) (\<lambda>p. Ok (put_clusters [p] s))"
  by (cases "decode_resource (dec_cluster D) CLUSTER_TYPE r")
    (auto simp: insert_cluster_def cluster_entries_def put_clusters_def Let_def split: option.split)

lemma try_for_each_clusters:
  "try_for_each (insert_cluster D) s rs = (s', Ok u) \<longleftrightarrow>
     (\<exists>ps. map (cluster_entries D) rs = map Ok ps \<and> s' = put_clusters ps s)"
proof (induction rs arbitrary: s)
  case Nil
  show ?case by (auto simp: put_clusters_def)
next
  case (Cons r rs)
  show ?case
  proof (cases "cluster_entries D r")
    case (Ok p)
    have "put_clusters ps (put_clusters [p] s) = put_clusters (p # ps) s" for ps
      by (simp add: put_clusters_def put_entries_append)
    with Ok show ?thesis
      using Cons.IH [of "put_clusters [p] s"] unfolding all_Ok_Cons
      by (simp add: insert_cluster_as_entries [of D s])
  next
    case (Err e)
    then show ?thesis unfolding all_Ok_Cons by (simp add: insert_cluster_as_entries)
  qed
qed

section \<open>The specification\<close>

record ads_view =
  av_listeners :: "string \<rightharpoonup> ListenerSnapshot"
  av_routes :: "string \<rightharpoonup> VirtualHost list"
  av_clusters :: "string \<rightharpoonup> ClusterSnapshot"
  av_endpoints :: "string \<rightharpoonup> Endpoint list"

definition view :: "AdsState \<Rightarrow> ads_view" where
  "view s = \<lparr>av_listeners = bt_get (as_listeners s), av_routes = bt_get (as_routes s),
     av_clusters = bt_get (as_clusters s), av_endpoints = bt_get (as_endpoints s)\<rparr>"

text \<open>The values, if all resources decode.\<close>

fun all_ok :: "('a, 'e) result list \<Rightarrow> 'a list option" where
  "all_ok [] = Some []"
| "all_ok (Ok x # rs) = map_option ((#) x) (all_ok rs)"
| "all_ok (Err e # rs) = None"

text \<open>
  State of the world: the subscribed names are dropped (all names, when nothing was subscribed),
  then the delivered entries are added; the last one of a name wins.
\<close>

definition replace_entries :: "string list \<Rightarrow> (string \<times> 'v) list \<Rightarrow> (string \<rightharpoonup> 'v) \<Rightarrow> (string \<rightharpoonup> 'v)" where
  "replace_entries names kvs m = (if names = [] then Map.empty else m |` (- set names)) ++ map_of (rev kvs)"

definition spec_response ::
  "decoders \<Rightarrow> string list \<Rightarrow> DiscoveryResponse \<Rightarrow> ads_view \<Rightarrow> ads_view option"
where
  "spec_response D names resp v =
     (let rs = dr_resources resp
      in if dr_type_url resp = LISTENER_TYPE then
           map_option (\<lambda>kvss. v\<lparr>av_listeners := replace_entries names (concat kvss) (av_listeners v)\<rparr>)
             (all_ok (map (listener_entries D) rs))
         else if dr_type_url resp = ROUTE_TYPE then
           map_option (\<lambda>kvss. v\<lparr>av_routes := replace_entries names (concat kvss) (av_routes v)\<rparr>)
             (all_ok (map (route_entries D) rs))
         else if dr_type_url resp = CLUSTER_TYPE then
           map_option (\<lambda>ps. v\<lparr>av_clusters := replace_entries names (concat (map fst ps)) (av_clusters v),
               av_endpoints := av_endpoints v ++ map_of (rev (concat (map snd ps)))\<rparr>)
             (all_ok (map (cluster_entries D) rs))
         else if dr_type_url resp = ENDPOINT_TYPE then
           map_option (\<lambda>kvss. v\<lparr>av_endpoints := replace_entries names (concat kvss) (av_endpoints v)\<rparr>)
             (all_ok (map (assignment_entries D) rs))
         else Some v)"

section \<open>The refinement\<close>

lemma all_ok_Some: "all_ok rs = Some xs \<longleftrightarrow> rs = map Ok xs"
proof (induction rs arbitrary: xs)
  case (Cons r rs)
  then show ?case by (cases r; cases xs) auto
qed auto

lemma view_put:
  "bt_invar m \<Longrightarrow> bt_get (put_entries kvs m) = bt_get m ++ map_of (rev kvs)"
  by (auto simp: fun_eq_iff get_put_entries map_add_def split: option.split)

lemma view_replace:
  "bt_invar m \<Longrightarrow> bt_get (put_entries kvs (prune_requested m names)) = replace_entries names kvs (bt_get m)"
  by (auto simp: fun_eq_iff view_put prune_requested_invar replace_entries_def get_prune_requested map_add_def
      restrict_map_def split: option.split)

text \<open>A loop over resources, as the specification sees it: its final state, if nothing failed.\<close>

definition completed :: "'s \<times> ('a, 'e) result \<Rightarrow> 's option" where
  "completed p = (case p of (s, Ok _) \<Rightarrow> Some s | (s, Err _) \<Rightarrow> None)"

lemma completed_Ok [simp]: "completed (s, Ok u) = Some s"
  by (simp add: completed_def)

lemma completed_Some: "completed p = Some s \<longleftrightarrow> (\<exists>u. p = (s, Ok u))"
  by (auto simp: completed_def split: prod.splits result.splits)

lemma completed_eqI:
  assumes "\<And>s. (\<exists>u. p = (s, Ok u)) \<longleftrightarrow> (\<exists>xs. rs = map Ok xs \<and> s = f xs)"
  shows "completed p = map_option f (all_ok rs)"
proof (cases "all_ok rs")
  case None
  then have "completed p \<noteq> Some s" for s
    using assms [of s] unfolding completed_Some all_ok_Some [symmetric] by simp
  then show ?thesis using None by (cases "completed p") auto
next
  case (Some xs)
  then have "completed p = Some (f xs)"
    using assms [of "f xs"] unfolding completed_Some all_ok_Some [symmetric] by blast
  then show ?thesis using Some by simp
qed

lemma completed_put:
  assumes "\<And>m x. f m x = and_then (entries x) (\<lambda>kvs. Ok (put_entries kvs m))"
  shows "completed (try_for_each f m xs) = map_option (\<lambda>kvss. put_entries (concat kvss) m) (all_ok (map entries xs))"
  by (rule completed_eqI) (simp add: try_for_each_put [OF assms])

lemma completed_clusters:
  "completed (try_for_each (insert_cluster D) s rs) =
     map_option (\<lambda>ps. put_clusters ps s) (all_ok (map (cluster_entries D) rs))"
  by (rule completed_eqI) (simp add: try_for_each_clusters)

text \<open>What follows a loop: the state is built from its result, the error is passed on.\<close>

lemma completed_after: "completed (g (fst p), and_then (snd p) (\<lambda>_. Ok u)) = map_option g (completed p)"
  by (cases p; cases "snd p") (auto simp: completed_def)

lemma ads_inv_maps:
  assumes "ads_inv s"
  shows "bt_invar (as_subscriptions s)" "bt_invar (as_listeners s)" "bt_invar (as_routes s)"
    "bt_invar (as_clusters s)" "bt_invar (as_endpoints s)"
  using assms by (simp_all add: ads_inv_def maps_ok_defs map_all_def)

lemma completed_apply:
  "completed (apply_listeners D s rs) =
     map_option (\<lambda>kvss. s\<lparr>as_listeners := put_entries (concat kvss)
        (prune_requested (as_listeners s) (subscription s LISTENER_TYPE))\<rparr>) (all_ok (map (listener_entries D) rs))"
  "completed (apply_routes D s rs) =
     map_option (\<lambda>kvss. s\<lparr>as_routes := put_entries (concat kvss)
        (prune_requested (as_routes s) (subscription s ROUTE_TYPE))\<rparr>) (all_ok (map (route_entries D) rs))"
  "completed (apply_clusters D s rs) =
     map_option (\<lambda>ps. put_clusters ps (s\<lparr>as_clusters := prune_requested (as_clusters s)
        (subscription s CLUSTER_TYPE)\<rparr>)) (all_ok (map (cluster_entries D) rs))"
  "completed (apply_endpoints D s rs) =
     map_option (\<lambda>kvss. s\<lparr>as_endpoints := put_entries (concat kvss)
        (prune_requested (as_endpoints s) (subscription s ENDPOINT_TYPE))\<rparr>) (all_ok (map (assignment_entries D) rs))"
  unfolding apply_listeners_def apply_routes_def apply_clusters_def apply_endpoints_def Let_def case_prod_beta
     apply (subst completed_after [where g = "\<lambda>m. s\<lparr>as_listeners := m\<rparr>"])
     apply (simp add: completed_put [OF insert_as_entries(1)] option.map_comp comp_def)
    apply (subst completed_after [where g = "\<lambda>m. s\<lparr>as_routes := m\<rparr>"])
    apply (simp add: completed_put [OF insert_as_entries(2)] option.map_comp comp_def)
   apply (subst completed_after [where g = "\<lambda>m. m"])
   apply (simp add: completed_clusters option.map_comp comp_def)
  apply (subst completed_after [where g = "\<lambda>m. s\<lparr>as_endpoints := m\<rparr>"])
  apply (simp add: completed_put [OF insert_as_entries(3)] option.map_comp comp_def)
  done

lemma view_updates:
  assumes "ads_inv s"
  shows "view (s\<lparr>as_listeners := put_entries kl (prune_requested (as_listeners s) names)\<rparr>) =
      (view s)\<lparr>av_listeners := replace_entries names kl (av_listeners (view s))\<rparr>"
    "view (s\<lparr>as_routes := put_entries kr (prune_requested (as_routes s) names)\<rparr>) =
      (view s)\<lparr>av_routes := replace_entries names kr (av_routes (view s))\<rparr>"
    "view (s\<lparr>as_endpoints := put_entries ke (prune_requested (as_endpoints s) names)\<rparr>) =
      (view s)\<lparr>av_endpoints := replace_entries names ke (av_endpoints (view s))\<rparr>"
    "view (put_clusters ps (s\<lparr>as_clusters := prune_requested (as_clusters s) names\<rparr>)) =
      (view s)\<lparr>av_clusters := replace_entries names (concat (map fst ps)) (av_clusters (view s)),
        av_endpoints := av_endpoints (view s) ++ map_of (rev (concat (map snd ps)))\<rparr>"
  using ads_inv_maps [OF assms]
  by (simp_all add: view_def view_replace view_put put_clusters_def)

lemma apply_response_view:
  assumes "ads_inv s"
  shows "map_option view (completed (apply_response D s resp)) =
    spec_response D (subscription s (dr_type_url resp)) resp (view s)"
  by (simp add: apply_response_def spec_response_def completed_apply Let_def option.map_comp comp_def
      view_updates [OF assms])

text \<open>
  For routes the specification reads: a delivered route configuration replaces what was stored
  (the last one of a name wins), a subscribed name that is not delivered is removed, anything
  else is kept.
\<close>

lemma all_ok_route_entries:
  "all_ok (map (route_entries D) rs) =
     map_option (map (\<lambda>r. [(rcfg_name r, convert_virtual_hosts (rcfg_virtual_hosts r))]))
       (all_ok (map (decode_resource (dec_route D) ROUTE_TYPE) rs))"
proof (induction rs)
  case (Cons r rs)
  then show ?case
    by (cases "decode_resource (dec_route D) ROUTE_TYPE r") (simp_all add: route_entries_def option.map_comp comp_def)
qed simp

lemma apply_routes_state_of_the_world:
  assumes "bt_invar (as_routes s)" and "apply_routes D s resources = (s', Ok updates)"
  shows "\<exists>routes. map (decode_resource (dec_route D) ROUTE_TYPE) resources = map Ok routes \<and>
     bt_get (as_routes s') = replace_entries (subscription s ROUTE_TYPE)
       (map (\<lambda>r. (rcfg_name r, convert_virtual_hosts (rcfg_virtual_hosts r))) routes) (bt_get (as_routes s))"
proof -
  obtain routes where "all_ok (map (decode_resource (dec_route D) ROUTE_TYPE) resources) = Some routes"
    "as_routes s' = put_entries (map (\<lambda>r. (rcfg_name r, convert_virtual_hosts (rcfg_virtual_hosts r))) routes)
       (prune_requested (as_routes s) (subscription s ROUTE_TYPE))"
    using completed_apply(2) [of D s resources] assms(2)
    by (cases "all_ok (map (decode_resource (dec_route D) ROUTE_TYPE) resources)")
      (simp_all add: all_ok_route_entries concat_map_singleton)
  then show ?thesis using assms(1) by (auto simp: all_ok_Some view_replace)
qed

section \<open>Properties\<close>

text \<open>
  C9: whatever has been received and subscribed before, a response has exactly its specified
  effect: it fails when one of its resources does not decode; otherwise, for each of the four
  types, the delivered entries replace those of the subscribed names (all of them when nothing
  is subscribed), clusters bring the endpoints they carry, nothing else changes, and a response
  of an unknown type changes nothing.
\<close>

theorem apply_response_refines_spec:
  assumes "(ads_step D)\<^sup>*\<^sup>* ads_default s"
  shows "(case apply_response D s resp of
      (s', Ok updates) \<Rightarrow> spec_response D (subscription s (dr_type_url resp)) resp (view s) = Some (view s')
    | (s', Err e) \<Rightarrow> spec_response D (subscription s (dr_type_url resp)) resp (view s) = None)"
proof -
  have "ads_inv s" using assms by (rule ads.inv_reachable [OF refl])
  from apply_response_view [OF this, of D resp] show ?thesis
    by (auto simp: completed_def split: prod.splits result.splits)
qed

theorem apply_response_refines_spec_witness:
  "\<exists>s'. fst (apply_response sample_decoders sample_ads_state (sample_response CLUSTER_TYPE)) = s' \<and>
     spec_response sample_decoders (subscription sample_ads_state CLUSTER_TYPE) (sample_response CLUSTER_TYPE)
       (view sample_ads_state) = Some (view s')"
proof -
  have "is_ok (snd (apply_response sample_decoders sample_ads_state (sample_response CLUSTER_TYPE)))"
    by (simp add: apply_response_def sample_response_def apply_clusters_def insert_cluster_def sample_decode_any Let_def)
  then show ?thesis
    using apply_response_refines_spec [OF sample_ads_state_reachable, of "sample_response CLUSTER_TYPE"]
    by (auto simp: is_ok_iff sample_response_def split: prod.splits result.splits)
qed

end
