(* ===== verification/Redelivery.thy ===== *)
theory Redelivery
  imports Discovery Ads_Spec
begin

text \<open>
  A control plane may send the same response again: after a missed acknowledgement, or because
  its state-of-the-world protocol repeats everything.  For each resource type a response is a
  list of map entries that replace what was subscribed; replacing twice is replacing once.

  Result: a repeated response leaves the state as it is, is acknowledged again, asks for nothing
  and publishes nothing.  A subscription, once opened, is never given up.
\<close>

section \<open>A repeated response\<close>

text \<open>Two states with the same resources; they may differ in their subscriptions.\<close>

definition same_resources :: "AdsState \<Rightarrow> AdsState \<Rightarrow> bool" where
  "same_resources s t =
     (as_listeners s = as_listeners t \<and> as_routes s = as_routes t \<and> as_clusters s = as_clusters t \<and>
      as_endpoints s = as_endpoints t)"

lemma same_resources_names:
  "same_resources s t \<Longrightarrow> route_names s = route_names t"
  "same_resources s t \<Longrightarrow> cluster_names s = cluster_names t"
  "same_resources s t \<Longrightarrow> eds_names s = eds_names t"
  by (simp_all add: same_resources_def route_names_def cluster_names_def eds_names_def)

lemma listeners_again:
  assumes "ads_inv s" and "apply_listeners D s rs = (s', Ok updates)" and "same_resources t s'"
    and "subscription t LISTENER_TYPE = subscription s LISTENER_TYPE"
  shows "apply_listeners D t rs = (t, Ok updates)"
proof -
  have "try_for_each (insert_listener D) (prune_requested (as_listeners s) (subscription s LISTENER_TYPE)) rs =
      (as_listeners s', Ok ())"
    using assms(2) by (auto simp: apply_listeners_def Let_def split: prod.splits)
  from redelivered [OF insert_as_entries(1) ads_inv_maps(2) [OF assms(1)] this]
  show ?thesis
    using assms same_resources_names [OF assms(3)]
    by (auto simp: apply_listeners_def Let_def same_resources_def split: prod.splits)
qed

lemma routes_again:
  assumes "ads_inv s" and "apply_routes D s rs = (s', Ok updates)" and "same_resources t s'"
    and "subscription t ROUTE_TYPE = subscription s ROUTE_TYPE"
  shows "apply_routes D t rs = (t, Ok updates)"
proof -
  have "try_for_each (insert_route D) (prune_requested (as_routes s) (subscription s ROUTE_TYPE)) rs =
      (as_routes s', Ok ())"
    using assms(2) by (auto simp: apply_routes_def Let_def split: prod.splits)
  from redelivered [OF insert_as_entries(2) ads_inv_maps(3) [OF assms(1)] this]
  show ?thesis
    using assms same_resources_names [OF assms(3)]
    by (auto simp: apply_routes_def Let_def same_resources_def split: prod.splits)
qed

lemma endpoints_again:
  assumes "ads_inv s" and "apply_endpoints D s rs = (s', Ok updates)" and "same_resources t s'"
    and "subscription t ENDPOINT_TYPE = subscription s ENDPOINT_TYPE"
  shows "apply_endpoints D t rs = (t, Ok updates)"
proof -
  have "try_for_each (insert_assignment D) (prune_requested (as_endpoints s) (subscription s ENDPOINT_TYPE)) rs =
      (as_endpoints s', Ok ())"
    using assms(2) by (auto simp: apply_endpoints_def Let_def split: prod.splits)
  from redelivered [OF insert_as_entries(3) ads_inv_maps(5) [OF assms(1)] this]
  show ?thesis
    using assms by (auto simp: apply_endpoints_def Let_def same_resources_def split: prod.splits)
qed

lemma clusters_again:
  assumes "ads_inv s" and "apply_clusters D s rs = (s', Ok updates)" and "same_resources t s'"
    and "subscription t CLUSTER_TYPE = subscription s CLUSTER_TYPE"
  shows "apply_clusters D t rs = (t, Ok updates)"
proof -
  let ?p = "\<lambda>s. s\<lparr>as_clusters := prune_requested (as_clusters s) (subscription s CLUSTER_TYPE)\<rparr>"
  obtain ps where ps: "map (cluster_entries D) rs = map Ok ps" "s' = put_clusters ps (?p s)"
    using assms(2) try_for_each_clusters [of D "?p s" rs s']
    by (auto simp: apply_clusters_def Let_def split: prod.splits)
  have "put_clusters ps (?p t) = t"
    using assms(3,4) ads_inv_maps [OF assms(1)]
    by (simp add: put_clusters_def same_resources_def ps(2) replace_twice put_twice)
  then have "try_for_each (insert_cluster D) (?p t) rs = (t, Ok ())"
    using ps(1) try_for_each_clusters [of D "?p t" rs t] by auto
  then show ?thesis
    using assms(2) same_resources_names [OF assms(3)]
    by (auto simp: apply_clusters_def Let_def split: prod.splits)
qed

lemma apply_response_again:
  assumes "ads_inv s" and "apply_response D s resp = (s', Ok updates)" and "same_resources t s'"
    and "subscription t (dr_type_url resp) = subscription s (dr_type_url resp)"
  shows "apply_response D t resp = (t, Ok updates)"
  using assms listeners_again routes_again clusters_again endpoints_again
  by (auto simp: apply_response_def split: if_splits)

text \<open>The follow-up subscription concerns another type, and is recorded.\<close>

lemma ads_next_recorded:
  assumes "ads_inv s" and "apply_response D s resp = (s', Ok updates)"
  shows "same_resources (ads_next D s resp) s'"
    and "subscription (ads_next D s resp) (dr_type_url resp) = subscription s (dr_type_url resp)"
    and "(t, names) \<in> set (updates_subscriptions updates) \<Longrightarrow>
      bt_get (as_subscriptions (ads_next D s resp)) t = Some names \<and> sorted_unique names = names"
proof -
  have inv: "ads_inv s'" using apply_response_inv [OF assms(1), of D resp] assms(2) by simp
  have subs: "as_subscriptions s' = as_subscriptions s"
    using apply_response_subscriptions [of D s resp] assms(2) by simp
  have next_eq: "ads_next D s resp =
      fold (\<lambda>(t, names) s. snd (set_subscription s t names)) (updates_subscriptions updates) s'"
    by (simp add: ads_next_def assms(2))
  have u: "updates_subscriptions updates = [] \<or> (\<exists>t names. updates_subscriptions updates = [(t, names)] \<and>
      t \<noteq> dr_type_url resp \<and> sorted_unique names = names)"
    using updates_of_response [of D s resp updates] assms(2)
    by (auto simp: names_of_state_sorted split: if_splits)
  have get: "bt_get (as_subscriptions (snd (set_subscription s' t names))) t' =
      (if t' = t then Some (sorted_unique names) else bt_get (as_subscriptions s') t')" for t names t'
    using ads_inv_maps(1) [OF inv] by (auto simp: set_subscription_def Let_def bt.get_put)
  show "same_resources (ads_next D s resp) s'"
    using u by (auto simp: next_eq same_resources_def set_subscription_def Let_def)
  show "subscription (ads_next D s resp) (dr_type_url resp) = subscription s (dr_type_url resp)"
    using u by (auto simp: next_eq subscription_def get subs)
  show "bt_get (as_subscriptions (ads_next D s resp)) t = Some names \<and> sorted_unique names = names"
    if "(t, names) \<in> set (updates_subscriptions updates)"
    using u that by (auto simp: next_eq get)
qed

lemma ads_next_again:
  assumes "ads_inv s" and "snd (apply_response D s resp) = Ok updates"
  defines "s1 \<equiv> ads_next D s resp"
  shows "ads_next D s1 resp = s1" and "follow_up D s1 resp = None"
proof -
  obtain s' where s': "apply_response D s resp = (s', Ok updates)"
    using assms(2) by (cases "apply_response D s resp") auto
  note rec = ads_next_recorded [OF assms(1) s', folded s1_def]
  have again: "apply_response D s1 resp = (s1, Ok updates)"
    by (rule apply_response_again [OF assms(1) s' rec(1,2)])
  have "fold (\<lambda>(t, names) s. snd (set_subscription s t names)) us s1 = s1"
    if "set us \<subseteq> set (updates_subscriptions updates)" for us
    using that by (induction us) (auto simp: set_subscription_def Let_def dest: rec(3))
  then show "ads_next D s1 resp = s1" by (simp add: ads_next_def again)
  show "follow_up D s1 resp = None"
    using rec(3) by (auto simp: follow_up_def again find_None_on)
qed

section \<open>Subscriptions of a session\<close>

text \<open>
  An update without names is skipped, so a subscription that has been opened is replaced only by
  another one with names: when the last listener, route or cluster that needed it goes away, the
  stream stays subscribed to the old names.
\<close>

lemma subscription_kept:
  assumes "ads_inv s" and "subscription s t \<noteq> []"
  shows "subscription (ads_next D s resp) t \<noteq> []"
proof -
  obtain s' r where a: "apply_response D s resp = (s', r)" by fastforce
  have subs: "subscription s' t = subscription s t"
    using apply_response_subscriptions [of D s resp] a by (simp add: subscription_def)
  have inv: "ads_inv s'" using apply_response_inv [OF assms(1), of D resp] a by simp
  show ?thesis
  proof (cases r)
    case (Ok updates)
    have "updates_subscriptions updates = [] \<or>
        (\<exists>t' names. updates_subscriptions updates = [(t', names)] \<and> sorted_unique names \<noteq> [])"
      using updates_of_response [of D s resp updates] a Ok by (auto simp: names_of_state_sorted split: if_splits)
    then show ?thesis
      using assms(2) by (auto simp: ads_next_def a Ok subs get_set_subscription [OF inv] split: if_splits)
  next
    case (Err e)
    then show ?thesis using assms(2) by (simp add: ads_next_def a subs)
  qed
qed

lemma subscriptions_never_emptied:
  "ads_inv s \<Longrightarrow> subscription s t \<noteq> [] \<Longrightarrow> subscription (foldl (ads_next D) s resps) t \<noteq> []"
  by (induction resps arbitrary: s) (simp_all add: ads_next_inv subscription_kept)

text \<open>No response asks for listeners, so theirs stays what the session started with.\<close>

lemma listener_subscription_fixed:
  assumes "ads_inv s"
  shows "subscription (foldl (ads_next D) s resps) LISTENER_TYPE = subscription s LISTENER_TYPE"
  using assms
proof (induction resps arbitrary: s)
  case (Cons resp resps)
  obtain s' r where a: "apply_response D s resp = (s', r)" by fastforce
  have subs: "subscription s' t = subscription s t" for t
    using apply_response_subscriptions [of D s resp] a by (simp add: subscription_def)
  have inv: "ads_inv s'" using apply_response_inv [OF Cons.prems, of D resp] a by simp
  have "subscription (ads_next D s resp) LISTENER_TYPE = subscription s LISTENER_TYPE"
  proof (cases r)
    case (Ok updates)
    have "updates_subscriptions updates = [] \<or>
        (\<exists>t' names. updates_subscriptions updates = [(t', names)] \<and> t' \<noteq> LISTENER_TYPE)"
      using updates_of_response [of D s resp updates] a Ok by (auto split: if_splits)
    then show ?thesis
      by (auto simp: ads_next_def a Ok subs get_set_subscription [OF inv])
  next
    case (Err e)
    then show ?thesis by (simp add: ads_next_def a subs)
  qed
  then show ?case using Cons by (simp add: ads_next_inv)
qed simp

section \<open>In a session\<close>

lemma ads_next_run_inv: "ads_inv s \<Longrightarrow> ads_inv (foldl (ads_next D) s resps)"
  by (induction resps arbitrary: s) (auto intro: ads_next_inv)

lemma session_inv:
  assumes "watch_law T published" and "start_session T cfg w = (se0, Ok u)"
    and "stream_loop T D (node cfg) se0 items = (se, Ok v)"
  shows "ads_inv (se_state se)"
proof -
  have "ads_inv (se_state se0)"
    using set_subscription_inv [OF ads_inv_default] by (simp add: fresh_session_state(1) [OF assms(2)])
  then show ?thesis
    using stream_loop_pure [OF assms(1,3)] by (auto intro: ads_next_run_inv)
qed

lemma handle_again:
  assumes "watch_law T published" and "queue_law T sent" and "ads_inv (se_state se)"
    and "handle_response T D n se resp = (se1, Ok u)" and "handle_response T D n se1 resp = (se2, Ok v)"
  shows "se_state se2 = se_state se1" and "se_watch se2 = se_watch se1"
    and "sent (se_requests se2) = sent (se_requests se1) @
      [discovery_request n (dr_type_url resp) (subscription (se_state se1) (dr_type_url resp))
         (dr_version_info resp) (dr_nonce resp)]"
proof -
  obtain updates where "snd (apply_response D (se_state se) resp) = Ok updates"
    using handle_response_sent [OF assms(2,4)] by blast
  note again = ads_next_again [OF assms(3) this, folded handle_response_refines(1) [OF assms(1,4)]]
  show state: "se_state se2 = se_state se1"
    using handle_response_refines(1) [OF assms(1,5)] again(1) by simp
  show "sent (se_requests se2) = sent (se_requests se1) @
      [discovery_request n (dr_type_url resp) (subscription (se_state se1) (dr_type_url resp))
         (dr_version_info resp) (dr_nonce resp)]"
    using handle_answer_sent [OF assms(2,5)] again(2) by simp
  let ?cfg = "runtime_config (se_state se1) (dr_version_info resp)"
  have "publish T (se_watch se) ?cfg = (se_watch se1, Ok ())"
    using assms(4) by (rule handle_response_Ok)
  then have "is_ok (validate ?cfg) \<Longrightarrow> tp_borrow T (se_watch se1) = ?cfg"
    using publish_Ok_borrow [OF assms(1)] by simp
  moreover have "publish T (se_watch se1) ?cfg = (se_watch se2, Ok ())"
    using assms(5) by (rule handle_response_Ok) (simp add: state)
  ultimately show "se_watch se2 = se_watch se1"
    by (auto simp: publish_def split: result.splits if_splits)
qed

section \<open>Properties\<close>

text \<open>
  C22: a response that the control plane sends a second time, at any point of a session, changes
  neither the state nor the published configuration; it is acknowledged once more, with the
  same version and nonce, and no subscription is sent again.
\<close>

theorem repeated_response_changes_nothing:
  assumes "watch_law T published" and "queue_law T sent"
    and "start_session T cfg w = (se0, Ok u)" and "stream_loop T D (node cfg) se0 items = (se, Ok u')"
    and "handle_response T D (node cfg) se resp = (se1, Ok u1)"
    and "handle_response T D (node cfg) se1 resp = (se2, Ok u2)"
  shows "se_state se2 = se_state se1 \<and> se_watch se2 = se_watch se1 \<and>
    sent (se_requests se2) = sent (se_requests se1) @
      [discovery_request (node cfg) (dr_type_url resp) (subscription (se_state se1) (dr_type_url resp))
         (dr_version_info resp) (dr_nonce resp)]"
  using handle_again [OF assms(1,2) session_inv [OF assms(1,3,4)] assms(5,6)] by simp

text \<open>
  C38: a subscription is never given up: at any later point of a session that has not failed, the
  stream is subscribed to exactly the configured listeners, and to routes, clusters or endpoints
  if it was so before, even when nothing that needed them is left.
\<close>

theorem subscription_never_given_up:
  assumes "watch_law T published" and "start_session T cfg w = (se0, Ok u)"
    and "stream_loop T D (node cfg) se0 items = (se, Ok u1)"
    and "stream_loop T D (node cfg) se later = (se', Ok u2)"
  shows "subscription (se_state se') LISTENER_TYPE = sorted_unique (xcc_listener_names cfg) \<and>
    (subscription (se_state se) t \<noteq> [] \<longrightarrow> subscription (se_state se') t \<noteq> [])"
proof -
  have inv0: "ads_inv (se_state se0)"
    using session_inv [OF assms(1,2), of D "[]"] by simp
  have "subscription (se_state se0) LISTENER_TYPE = sorted_unique (xcc_listener_names cfg)"
    by (simp add: fresh_session_state(1) [OF assms(2)] get_set_subscription [OF ads_inv_default]
        sorted_unique_id [OF sorted_sorted_unique])
  moreover obtain resps resps' where "se_state se = foldl (ads_next D) (se_state se0) resps"
    "se_state se' = foldl (ads_next D) (se_state se) resps'"
    using stream_loop_pure [OF assms(1,3)] stream_loop_pure [OF assms(1,4)] by blast
  ultimately show ?thesis
    using inv0 session_inv [OF assms(1-3)]
    by (simp add: listener_subscription_fixed subscriptions_never_emptied)
qed

section \<open>Witnesses\<close>

theorem subscription_never_given_up_witness:
  "subscription (se_state (fst (stream_loop sample_transport sample_decoders (node sample_client) sample_session
     (map Message sample_resps)))) LISTENER_TYPE = [''dxgate.app:80'']"
proof -
  have "stream_loop sample_transport sample_decoders (node sample_client) sample_session [] = (sample_session, Ok ())"
    by simp
  from subscription_never_given_up [OF sample_transport_laws(1) sample_session_started this sample_loop]
  show ?thesis by (simp add: sample_client_def sorted_unique_def bset_insert_def)
qed

lemma handle_sample_ok:
  "\<exists>se'. handle_response sample_transport sample_decoders (node sample_client) se (sample_response t) = (se', Ok ())"
proof -
  let ?h = "handle_response sample_transport sample_decoders (node sample_client) se (sample_response t)"
  have "is_ok (snd ?h)"
    using handle_response_is_ok sample_transport_laws(3) sample_response_decodes by blast
  then show ?thesis by (cases ?h) (auto simp: is_ok_iff)
qed

theorem repeated_response_changes_nothing_witness:
  "\<exists>se1 se2. handle_response sample_transport sample_decoders (node sample_client) sample_session
       (sample_response LISTENER_TYPE) = (se1, Ok ()) \<and>
     handle_response sample_transport sample_decoders (node sample_client) se1
       (sample_response LISTENER_TYPE) = (se2, Ok ()) \<and>
     se_state se2 = se_state se1 \<and> se_watch se2 = se_watch se1 \<and>
     length (se_requests se2) = Suc (length (se_requests se1))"
proof -
  obtain se1 se2 where h: "handle_response sample_transport sample_decoders (node sample_client) sample_session
       (sample_response LISTENER_TYPE) = (se1, Ok ())"
    "handle_response sample_transport sample_decoders (node sample_client) se1
       (sample_response LISTENER_TYPE) = (se2, Ok ())"
    using handle_sample_ok by metis
  have "stream_loop sample_transport sample_decoders (node sample_client) sample_session [] = (sample_session, Ok ())"
    by simp
  from repeated_response_changes_nothing [OF sample_transport_laws(1,2) sample_session_started this h] h
  show ?thesis by auto
qed

end
