(* ===== verification/Admin_Server.thy ===== *)
theory Admin_Server
  imports Proxy_State
begin

text \<open>
  \<open>crates/admin/src/lib.rs\<close>: the read-only admin endpoints, each a function of the shared state.
  A JSON response is the value that is serialised.  Results: readiness and metrics tell the
  fate of the last configuration, and the route listing is complete.
\<close>

record BuildInfo =
  bi_name :: string
  bi_version :: string

record AdminServer =
  ad_state :: ProxyState
  ad_build :: BuildInfo

datatype ReadyStatus = READY_OK | READY_UNAVAILABLE

record RouteListing =
  rl_listener :: string
  rl_virtual_host :: string
  rl_route :: string
  rl_domains :: "string list"
  rl_weighted_clusters :: "WeightedCluster list"

definition admin_new :: "string \<Rightarrow> ProxyState \<Rightarrow> AdminServer" where
  "admin_new pkg_version s =
     \<lparr>ad_state = s, ad_build = \<lparr>bi_name = ''dxgate'', bi_version = pkg_version\<rparr>\<rparr>"

definition healthz :: "AdminServer \<Rightarrow> BuildInfo" where
  "healthz admin = ad_build admin"

definition readyz :: "AdminServer \<Rightarrow> ReadyStatus \<times> Readiness" where
  "readyz admin =
     (let r = readiness (ad_state admin)
      in (if rd_ready r then READY_OK else READY_UNAVAILABLE, r))"

definition newline :: string where
  "newline = [CHR 0x0A]"

definition metrics :: "AdminServer \<Rightarrow> string" where
  "metrics admin =
     (let r = readiness (ad_state admin)
      in ''# HELP dxgate_ready Whether dxgate has accepted runtime config'' @ newline @
         ''# TYPE dxgate_ready gauge'' @ newline @
         ''dxgate_ready '' @ (if rd_ready r then ''1'' else ''0'') @ newline @
         ''# HELP dxgate_config_conflicts Current rejected config conflicts'' @ newline @
         ''# TYPE dxgate_config_conflicts gauge'' @ newline @
         ''dxgate_config_conflicts '' @ show_nat (length (rd_conflicts r)) @ newline)"

definition debug_config :: "AdminServer \<Rightarrow> RuntimeConfig" where
  "debug_config admin = ps_config (ad_state admin)"

definition debug_routes :: "AdminServer \<Rightarrow> RouteListing list" where
  "debug_routes admin =
     concat (map (\<lambda>l. concat (map (\<lambda>vh. map (\<lambda>r.
         \<lparr>rl_listener = l_name l, rl_virtual_host = vh_name vh, rl_route = rt_name r,
          rl_domains = vh_domains vh, rl_weighted_clusters = rt_weighted_clusters r\<rparr>)
       (vh_routes vh)) (l_virtual_hosts l))) (rc_listeners (ps_config (ad_state admin))))"

definition debug_clusters :: "AdminServer \<Rightarrow> Cluster list" where
  "debug_clusters admin = rc_clusters (ps_config (ad_state admin))"

section \<open>The routing table\<close>

text \<open>The body of a response: JSON of a value, or text.\<close>

datatype AdminResponse =
    JsonBuild BuildInfo
  | JsonReadiness ReadyStatus Readiness
  | Text string
  | JsonConfig RuntimeConfig
  | JsonRoutes "RouteListing list"
  | JsonClusters "Cluster list"

text \<open>
  What \<open>AdminServer::serve\<close> registers, in its order: each path with the handler of its GET
  requests.  Matching a request against the table is axum's.
\<close>

definition admin_table :: "(string \<times> (AdminServer \<Rightarrow> AdminResponse)) list" where
  "admin_table =
     [(''/healthz'', \<lambda>admin. JsonBuild (healthz admin)),
      (''/readyz'', \<lambda>admin. case readyz admin of (status, body) \<Rightarrow> JsonReadiness status body),
      (''/metrics'', \<lambda>admin. Text (metrics admin)),
      (''/debug/config'', \<lambda>admin. JsonConfig (debug_config admin)),
      (''/debug/routes'', \<lambda>admin. JsonRoutes (debug_routes admin)),
      (''/debug/clusters'', \<lambda>admin. JsonClusters (debug_clusters admin))]"

text \<open>axum panics when a path is registered twice; no path is.\<close>

lemma admin_table_distinct: "distinct (map fst admin_table)"
  by (simp add: admin_table_def)

section \<open>Properties\<close>

lemma last_applied:
  fixes s0 :: ProxyState
  assumes "cfgs \<noteq> []"
  defines "s \<equiv> foldl (\<lambda>s c. fst (apply_config s c)) s0 cfgs"
  shows "ps_ready s \<longleftrightarrow> config_ok (last cfgs)"
    and "ps_conflicts s = config_conflicts (last cfgs)"
proof -
  obtain pre c where cfgs: "cfgs = pre @ [c]" using assms(1) by (cases cfgs rule: rev_cases) auto
  have none: "config_ok c \<Longrightarrow> config_conflicts c = []"
    using validate_Ok_iff [of c] by (auto simp: validate_def Let_def split: if_splits)
  show "ps_ready s \<longleftrightarrow> config_ok (last cfgs)" "ps_conflicts s = config_conflicts (last cfgs)"
    unfolding s_def cfgs by (cases "config_ok c"; simp add: apply_config_cases none)+
qed

text \<open>
  C36: after any non-empty sequence of configurations the admin server reports the fate of the
  last one: \<open>/readyz\<close> succeeds exactly when it was accepted, and reports its conflicts otherwise;
  the configuration shown is the last accepted one.
\<close>

theorem admin_reports_last_config:
  assumes "cfgs \<noteq> []"
  shows "let admin = admin_new v (foldl (\<lambda>s c. fst (apply_config s c)) s0 cfgs)
    in case validate (last cfgs) of
         Ok u \<Rightarrow> fst (readyz admin) = READY_OK \<and> rd_conflicts (snd (readyz admin)) = [] \<and>
           debug_config admin = last cfgs
       | Err conflicts \<Rightarrow> fst (readyz admin) = READY_UNAVAILABLE \<and>
           rd_conflicts (snd (readyz admin)) = conflicts \<and> conflicts \<noteq> []"
proof (cases "validate (last cfgs)")
  case (Ok u)
  then have "config_ok (last cfgs)" using is_ok_validate by fastforce
  then show ?thesis
    using last_applied [OF assms(1), of s0] ps.current_after_run [of s0 cfgs] assms(1) Ok
    by (cases cfgs rule: rev_cases)
      (auto simp: readyz_def admin_new_def readiness_def Let_def debug_config_def
        apply_config_valid)
next
  case (Err conflicts)
  then have "conflicts = config_conflicts (last cfgs)" "\<not> config_ok (last cfgs)"
    using validate_Err_iff by blast+
  then show ?thesis
    using last_applied [OF assms(1), of s0] Err
    by (auto simp: readyz_def admin_new_def readiness_def Let_def validate_def split: if_splits)
qed

theorem admin_reports_last_config_witness:
  "fst (readyz (admin_new ''0.1.0'' (foldl (\<lambda>s c. fst (apply_config s c))
      (proxy_state_new (config_empty ''bootstrap'')) [sample_config]))) = READY_OK"
  using admin_reports_last_config [of "[sample_config]" "''0.1.0''"
      "proxy_state_new (config_empty ''bootstrap'')"]
  by (simp add: sample_config_valid Let_def)

lemma debug_routes_complete:
  "set (map rl_weighted_clusters (debug_routes admin)) =
     rt_weighted_clusters ` config_routes (ps_config (ad_state admin))"
  by (force simp: debug_routes_def config_routes_def)

end
