(* ===== verification/Unit_Tests.thy ===== *)
theory Unit_Tests
  imports App Upstream_Tls
begin

text \<open>
  The unit tests of the repository, run against the model: each is a definition that mirrors the
  test function, true when none of its assertions and \<open>unwrap\<close>s fails, and a lemma that it is.
  They check the definitions of the other theories where the authors of the code checked theirs.
  Files, encoding by prost, parsing by serde and PEM, and the exchange of a TLS client with a
  server are parameters; the lemmas assume of them only that they read back what the test wrote.
  The mTLS test is shown to come down to that exchange, for exactly the client it means.
\<close>

section \<open>Helpers\<close>

text \<open>\<open>xs[0]\<close>, with the panic on an empty vector.\<close>

definition first_is :: "('a \<Rightarrow> bool) \<Rightarrow> 'a list \<Rightarrow> bool" where
  "first_is P xs = (case xs of [] \<Rightarrow> False | x # _ \<Rightarrow> P x)"

text \<open>\<open>unwrap()\<close>, and what the test does with the value.\<close>

definition unwraps :: "('a, 'e) result \<Rightarrow> ('a \<Rightarrow> bool) \<Rightarrow> bool" where
  "unwraps r k = (case r of Ok x \<Rightarrow> k x | Err e \<Rightarrow> False)"

definition unwraps_err :: "('a, 'e) result \<Rightarrow> ('e \<Rightarrow> bool) \<Rightarrow> bool" where
  "unwraps_err r k = (case r of Ok x \<Rightarrow> False | Err e \<Rightarrow> k e)"

lemma test_simps [simp]:
  "first_is P (x # xs) = P x" "unwraps (Ok a) k = k a" "unwraps_err (Err e) m = m e"
  by (simp_all add: first_is_def unwraps_def unwraps_err_def)

section \<open>Configuration\<close>

definition detects_listener_conflict :: bool where
  "detects_listener_conflict =
     (let bind = SocketV4 0 80;
          cfg =
            \<lparr>rc_version = ''test'',
             rc_listeners =
               [\<lparr>l_name = ''http'', l_bind = bind, l_protocol = Http, l_virtual_hosts = [],
                 l_tls_secret = None\<rparr>,
                \<lparr>l_name = ''https'', l_bind = bind, l_protocol = Https, l_virtual_hosts = [],
                 l_tls_secret = Some ''secret''\<rparr>],
             rc_clusters = [], rc_secrets = []\<rparr>
      in \<not> is_ok (validate cfg))"

definition missing_cluster_config :: RuntimeConfig where
  "missing_cluster_config =
     \<lparr>rc_version = ''test'',
      rc_listeners =
        [\<lparr>l_name = ''http'', l_bind = SocketV4 0 80, l_protocol = Http,
          l_virtual_hosts =
            [\<lparr>vh_name = ''wildcard'', vh_domains = [''*''],
              vh_routes =
                [\<lparr>rt_name = ''missing'',
                  rt_matches = [\<lparr>rm_path = Prefix ''/'', rm_headers = []\<rparr>],
                  rt_weighted_clusters = [\<lparr>wc_name = ''missing-cluster'', wc_weight = 100\<rparr>]\<rparr>]\<rparr>],
          l_tls_secret = None\<rparr>],
      rc_clusters = [], rc_secrets = []\<rparr>"

definition validates_missing_weighted_cluster_references :: bool where
  "validates_missing_weighted_cluster_references =
     unwraps_err (validate missing_cluster_config) (first_is (\<lambda>c. cc_kind c = ''missing-cluster''))"

definition routes_by_host_path_and_header_match :: bool where
  "routes_by_host_path_and_header_match =
     (let cfg = sample_config; headers = [(''x-env'', ''prod'')]
      in unwraps (route_for cfg HTTP_LISTENER_PORT
             \<lparr>in_host = ''api.example.com'', in_path = ''/admin'', in_headers = headers\<rparr>)
           (\<lambda>route. rt_name route = ''admin'') \<and>
         unwraps (route_for cfg HTTP_LISTENER_PORT
             \<lparr>in_host = ''api.example.com'', in_path = ''/users'', in_headers = []\<rparr>)
           (\<lambda>route. rt_name route = ''default'') \<and>
         \<not> is_ok (route_for cfg HTTP_LISTENER_PORT
             \<lparr>in_host = ''api.other.test'', in_path = ''/users'', in_headers = []\<rparr>))"

lemma detects_listener_conflict_passes: "detects_listener_conflict"
  by (simp add: detects_listener_conflict_def cfg_defs bset_insert_def bt_get_def Let_def)

lemma validates_missing_weighted_cluster_references_passes: "validates_missing_weighted_cluster_references"
  by (simp add: validates_missing_weighted_cluster_references_def missing_cluster_config_def cfg_defs
      bset_insert_def bt_get_def Let_def)

lemma routes_by_host_path_and_header_match_passes: "routes_by_host_path_and_header_match"
  by (simp add: routes_by_host_path_and_header_match_def cfg_defs rust_std sample_config_def
      suffix_to_prefix Let_def)

section \<open>Identity\<close>

definition builds_dubbo_router_node_id :: bool where
  "builds_dubbo_router_node_id =
     (let id = \<lparr>ri_pod_name = ''dxgate-abc'', ri_namespace = ''dubbo-system'', ri_pod_ip = ''10.0.0.10'',
                ri_node_name = Some ''node-a'', ri_cluster_id = DEFAULT_CLUSTER_ID,
                ri_dns_domain = DEFAULT_DNS_DOMAIN\<rparr>
      in node_id id = ''router~10.0.0.10~dxgate-abc.dubbo-system~dubbo-system.svc.cluster.local'')"

definition identity_metadata_selects_dubbod_grpc_generator :: bool where
  "identity_metadata_selects_dubbod_grpc_generator =
     (let identity = \<lparr>ri_pod_name = ''dxgate-abc'', ri_namespace = ''app'', ri_pod_ip = ''10.0.0.10'',
                ri_node_name = Some ''node-a'', ri_cluster_id = ''Kubernetes'',
                ri_dns_domain = ''svc.cluster.local''\<rparr>
      in rmd_generator (identity_metadata identity) = ''grpc'')"

lemma identity_tests_pass: "builds_dubbo_router_node_id" "identity_metadata_selects_dubbod_grpc_generator"
  by (simp_all add: builds_dubbo_router_node_id_def identity_metadata_selects_dubbod_grpc_generator_def
      node_id_def identity_metadata_def)

section \<open>Shared state\<close>

definition valid_config :: "string \<Rightarrow> RuntimeConfig" where
  "valid_config version =
     \<lparr>rc_version = version,
      rc_listeners =
        [\<lparr>l_name = ''http'', l_bind = SocketV4 0 80, l_protocol = Http,
          l_virtual_hosts =
            [\<lparr>vh_name = ''wildcard'', vh_domains = [''*''],
              vh_routes =
                [\<lparr>rt_name = ''default'',
                  rt_matches = [\<lparr>rm_path = Prefix ''/'', rm_headers = []\<rparr>],
                  rt_weighted_clusters = [\<lparr>wc_name = ''backend'', wc_weight = 100\<rparr>]\<rparr>]\<rparr>],
          l_tls_secret = None\<rparr>],
      rc_clusters =
        [\<lparr>c_name = ''backend'',
          c_endpoints = [\<lparr>ep_address = ''127.0.0.1'', ep_port = 8080, ep_healthy = True, ep_node_name = None\<rparr>],
          c_tls = None\<rparr>],
      rc_secrets = []\<rparr>"

definition apply_config_updates_readiness_and_conflicts :: bool where
  "apply_config_updates_readiness_and_conflicts =
     (let state = proxy_state_new (config_empty ''bootstrap'');
          (state1, r1) = apply_config state (valid_config ''ok'');
          readiness1 = readiness state1;
          invalid = (valid_config ''bad'')\<lparr>rc_clusters := []\<rparr>;
          (state2, r2) = apply_config state1 invalid;
          readiness2 = readiness state2
      in is_ok r1 \<and> rd_ready readiness1 \<and> rd_version readiness1 = ''ok'' \<and> rd_conflicts readiness1 = [] \<and>
         unwraps_err r2 (\<lambda>conflicts.
           \<not> rd_ready readiness2 \<and> rd_conflicts readiness2 = conflicts \<and>
           first_is (\<lambda>c. cc_kind c = ''missing-cluster'') (rd_conflicts readiness2)))"

definition weighted_cluster_picker_is_deterministic :: "bool \<Rightarrow> bool" where
  "weighted_cluster_picker_is_deterministic chk =
     (let state = proxy_state_new (config_empty ''test'');
          clusters = [\<lparr>wc_name = ''a'', wc_weight = 2\<rparr>, \<lparr>wc_name = ''b'', wc_weight = 1\<rparr>]
      in map (map_option wc_name) (pick_clusters chk state clusters 6) =
           map Some [''a'', ''a'', ''b'', ''a'', ''a'', ''b''])"

definition endpoint_picker_skips_unhealthy_endpoints :: bool where
  "endpoint_picker_skips_unhealthy_endpoints =
     (let state = proxy_state_new (config_empty ''test'');
          endpoints =
            [\<lparr>ep_address = ''10.0.0.1'', ep_port = 8080, ep_healthy = False, ep_node_name = None\<rparr>,
             \<lparr>ep_address = ''10.0.0.2'', ep_port = 8080, ep_healthy = True, ep_node_name = None\<rparr>];
          (picked, state1) = pick_endpoint state ''backend'' endpoints;
          unhealthy = [\<lparr>ep_address = ''10.0.0.3'', ep_port = 8080, ep_healthy = False, ep_node_name = None\<rparr>]
      in unwraps picked (\<lambda>endpoint. ep_address endpoint = ''10.0.0.2'') \<and>
         \<not> is_ok (fst (pick_endpoint state1 ''backend'' unhealthy)))"

lemma valid_config_validates: "validate (valid_config v) = Ok ()"
  by (simp add: valid_config_def cfg_defs bset_insert_def bt_get_def Let_def)

lemma valid_config_without_clusters:
  "\<exists>message. validate ((valid_config v)\<lparr>rc_clusters := []\<rparr>) = Err [conflict_new ''missing-cluster'' message]"
  by (simp add: valid_config_def cfg_defs bset_insert_def bt_get_def Let_def)

lemma apply_config_updates_readiness_and_conflicts_passes: "apply_config_updates_readiness_and_conflicts"
proof -
  obtain message where
    "validate ((valid_config ''bad'')\<lparr>rc_clusters := []\<rparr>) = Err [conflict_new ''missing-cluster'' message]"
    using valid_config_without_clusters by blast
  moreover have "rc_version (valid_config ''ok'') = ''ok''" by (simp add: valid_config_def)
  ultimately show ?thesis
    by (simp add: apply_config_updates_readiness_and_conflicts_def apply_config_def readiness_def
        valid_config_validates conflict_new_def Let_def)
qed

lemma weighted_cluster_picker_is_deterministic_passes: "weighted_cluster_picker_is_deterministic chk"
  using pick_clusters_slots [of sample_weights sample_state 6 chk]
  by (simp add: weighted_cluster_picker_is_deterministic_def sample_state_def proxy_state_new_def
      sample_weights_def total_weight_def weighted_slots_def upt_rec replicate_two Let_def)

lemma endpoint_picker_skips_unhealthy_endpoints_passes: "endpoint_picker_skips_unhealthy_endpoints"
  by (simp add: endpoint_picker_skips_unhealthy_endpoints_def pick_endpoint_def proxy_state_new_def
      fetch_add_counter_def Let_def)

section \<open>Settings\<close>

definition base_args :: Args where
  "base_args =
     \<lparr>ar_xds_address = ''http://old:15012'', ar_http_addr = SocketV4 0 80, ar_admin_addr = SocketV4 0 15021,
      ar_static_config = None, ar_bootstrap = Some ''/etc/dxgate/bootstrap.json'', ar_listener_names = [],
      ar_pod_name = ''dxgate'', ar_namespace = ''dubbo-system'', ar_pod_ip = ''127.0.0.1'',
      ar_node_name = None, ar_cluster_id = ''old-cluster'', ar_dns_domain = ''cluster.local''\<rparr>"

definition bootstrap_overrides_control_plane_fields :: bool where
  "bootstrap_overrides_control_plane_fields =
     (let args = apply_bootstrap base_args
            \<lparr>bc_xds_address = Some ''http://dubbod.dubbo-system.svc:15012'',
             bc_http_addr = Some (SocketV4 0 8080), bc_admin_addr = None,
             bc_listener_names = [''public-dubbo.app.svc.cluster.local:80''],
             bc_pod_name = None, bc_namespace = None, bc_pod_ip = None, bc_node_name = None,
             bc_cluster_id = Some ''Kubernetes'', bc_dns_domain = Some ''svc.local''\<rparr>
      in ar_xds_address args = ''http://dubbod.dubbo-system.svc:15012'' \<and>
         socket_port (ar_http_addr args) = 8080 \<and> ar_cluster_id args = ''Kubernetes'' \<and>
         ar_dns_domain args = ''svc.local'' \<and> ar_pod_name args = ''dxgate'' \<and>
         ar_listener_names args = [''public-dubbo.app.svc.cluster.local:80''])"

lemma bootstrap_overrides_control_plane_fields_passes: "bootstrap_overrides_control_plane_fields"
  by (simp add: bootstrap_overrides_control_plane_fields_def apply_bootstrap_def base_args_def Let_def)

section \<open>Upstream mTLS\<close>

text \<open>\<open>from_str\<close> stands for serde_json on the document of the test.\<close>

definition parses_grpc_xds_bootstrap_file_watcher_provider ::
  "(string \<Rightarrow> (GrpcBootstrap, string) result) \<Rightarrow> string \<Rightarrow> bool"
where
  "parses_grpc_xds_bootstrap_file_watcher_provider from_str document =
     unwraps (from_str document) (\<lambda>bootstrap. unwraps (provider bootstrap ''default'') (\<lambda>provider.
       required_path provider ''certificate_file'' ''default'' = Ok ''/etc/dubbo/proxy/cert-chain.pem'' \<and>
       required_path provider ''private_key_file'' ''default'' = Ok ''/etc/dubbo/proxy/key.pem'' \<and>
       required_path provider ''ca_certificate_file'' ''default'' = Ok ''/etc/dubbo/proxy/root-cert.pem''))"

definition mtls_cache_key_tracks_provider_and_alpn :: bool where
  "mtls_cache_key_tracks_provider_and_alpn =
     (let tls = \<lparr>tls_sni = Some ''nginx.app.svc.cluster.local'', tls_certificate_provider = Some ''workload'',
                 tls_validation_provider = Some ''roots'', tls_alpn_protocols = [''h2'', ''http/1.1'']\<rparr>
      in mtls_cache_key tls = ''nginx.app.svc.cluster.local|workload|roots|h2,http/1.1'')"

lemma parses_grpc_xds_bootstrap_file_watcher_provider_passes:
  assumes "from_str document = Ok \<lparr>gb_certificate_providers = [''default'' \<mapsto>
     \<lparr>cp_config = \<lparr>fw_certificate_file = Some ''/etc/dubbo/proxy/cert-chain.pem'',
        fw_private_key_file = Some ''/etc/dubbo/proxy/key.pem'',
        fw_ca_certificate_file = Some ''/etc/dubbo/proxy/root-cert.pem''\<rparr>\<rparr>]\<rparr>"
  shows "parses_grpc_xds_bootstrap_file_watcher_provider from_str document"
  by (simp add: parses_grpc_xds_bootstrap_file_watcher_provider_def assms provider_def required_path_def)

lemma mtls_cache_key_tracks_provider_and_alpn_passes: "mtls_cache_key_tracks_provider_and_alpn"
  by (simp add: mtls_cache_key_tracks_provider_and_alpn_def mtls_cache_key_def Let_def)

text \<open>
  The test that serves mTLS.  Its server is a task that reads until the end of the head of a
  request and answers; \<open>reads\<close> is what the reads of its stream return, an empty one at the end.
\<close>

definition windows :: "nat \<Rightarrow> 'a list \<Rightarrow> 'a list list" where
  "windows n xs = map (\<lambda>i. take n (drop i xs)) [0..<Suc (length xs) - n]"

definition head_end :: bytes where
  "head_end = [13, 10, 13, 10]"

fun receive_request :: "bytes \<Rightarrow> bytes list \<Rightarrow> bytes" where
  "receive_request request [] = request"
| "receive_request request (buf # reads) =
     (if buf = [] then request
      else let request' = request @ buf
           in if list_ex (\<lambda>window. window = head_end) (windows 4 request') then request'
              else receive_request request' reads)"

definition test_server :: "bytes list \<Rightarrow> bytes \<times> bytes" where
  "test_server reads =
     (receive_request [] reads,
      map of_char (''HTTP/1.1 200 OK'' @ [CHR 0x0D, CHR 0x0A] @ ''content-length: 2'' @
        [CHR 0x0D, CHR 0x0A, CHR 0x0D, CHR 0x0A] @ ''ok''))"

lemma windows_contain:
  assumes "length w = n" and "0 < n"
  shows "w \<in> set (windows n xs) \<longleftrightarrow> sublist w xs"
proof
  assume "w \<in> set (windows n xs)"
  then obtain i where w: "w = take n (drop i xs)" by (auto simp: windows_def)
  have "xs = take i xs @ w @ drop n (drop i xs)" unfolding w by (simp only: append_take_drop_id)
  then show "sublist w xs" unfolding sublist_def by blast
next
  assume "sublist w xs"
  then obtain a b where "xs = a @ w @ b" unfolding sublist_def by blast
  then have "w = take n (drop (length a) xs)" "length a < Suc (length xs) - n" using assms by auto
  then show "w \<in> set (windows n xs)" by (auto simp: windows_def)
qed

lemma head_seen: "list_ex (\<lambda>window. window = head_end) (windows 4 xs) \<longleftrightarrow> sublist head_end xs"
  using windows_contain [of head_end 4 xs] by (auto simp: list_ex_iff head_end_def)

text \<open>
  However the network cuts the stream, the server reads only whole pieces of it, and reads on
  until it has seen the end of the head when the stream contains one.
\<close>

lemma receive_request_pieces: "\<exists>n. receive_request request reads = request @ concat (take n reads)"
proof (induction request reads rule: receive_request.induct)
  case (2 request buf reads)
  have "\<exists>n. buf @ concat (take m reads) = concat (take n (buf # reads))" for m
    by (rule exI [of _ "Suc m"]) simp
  from this [of 0] this 2 show ?case by (auto simp: Let_def intro: exI [of _ 0])
qed simp

lemma receive_request_head:
  "[] \<notin> set reads \<Longrightarrow> sublist head_end (request @ concat reads) \<Longrightarrow>
     sublist head_end (receive_request request reads)"
  by (induction request reads rule: receive_request.induct) (auto simp: head_seen Let_def)

text \<open>
  The libraries of the test: the PEM texts that rcgen made, the JSON document for three paths, and
  \<open>hyper\<close>'s \<open>get\<close> of a client against a server behind the test's acceptor, as status and body.
\<close>

record 'client mtls_env =
  me_temp_dir :: string
  me_nanos :: nat
  me_port :: u16
  me_client_chain :: bytes
  me_client_key :: bytes
  me_ca :: bytes
  me_document :: "string \<Rightarrow> string \<Rightarrow> string \<Rightarrow> bytes"
  me_get :: "'client \<Rightarrow> string \<Rightarrow> (bytes list \<Rightarrow> bytes \<times> bytes) \<Rightarrow> (nat \<times> bytes, string) result"

definition test_temp_dir :: "'client mtls_env \<Rightarrow> string \<Rightarrow> string" where
  "test_temp_dir env name = me_temp_dir env @ ''/'' @ name @ ''-'' @ show_nat (me_nanos env)"

definition write_pem :: "string \<Rightarrow> bytes \<Rightarrow> ('roots, 'config, 'client) tls_lib \<Rightarrow> ('roots, 'config, 'client) tls_lib" where
  "write_pem path raw L = L\<lparr>tl_open := \<lambda>p. if p = path then Ok raw else tl_open L p\<rparr>"

definition mtls_client_connects_with_bootstrap_certificate ::
  "'client mtls_env \<Rightarrow> ('roots, 'config, 'client) tls_lib \<Rightarrow> bool"
where
  "mtls_client_connects_with_bootstrap_certificate env L =
     (let dir = test_temp_dir env ''dxgate-mtls'';
          cert_chain = dir @ ''/cert-chain.pem'';
          key = dir @ ''/key.pem'';
          root = dir @ ''/root-cert.pem'';
          bootstrap = dir @ ''/grpc-bootstrap.json'';
          L = write_pem cert_chain (me_client_chain env) L;
          L = write_pem key (me_client_key env) L;
          L = write_pem root (me_ca env) L;
          L = write_pem bootstrap (me_document env cert_chain key root) L
      in unwraps (from_bootstrap L bootstrap) (\<lambda>pool.
         unwraps (fst (client_for L pool
           \<lparr>tls_sni = Some ''nginx.app.svc.cluster.local'', tls_certificate_provider = None,
            tls_validation_provider = None, tls_alpn_protocols = [''h2'']\<rparr>)) (\<lambda>client.
         unwraps (me_get env client (''https://127.0.0.1:'' @ show_nat (unat (me_port env)) @ ''/'') test_server)
           (\<lambda>(status, body). status = 200 \<and> body = map of_char ''ok''))))"

text \<open>
  When the JSON document reads back as the bootstrap it describes, and the PEM texts as the
  certificates and the key in them, the test comes down to one exchange: it passes exactly when
  the server answers a client that trusts the test's CA, presents the client certificate with
  its key, and names the server \<open>nginx.app.svc.cluster.local\<close>.
\<close>

lemma mtls_client_connects_iff:
  fixes env :: "'client mtls_env" and L :: "('roots, 'config, 'client) tls_lib"
  defines "dir \<equiv> test_temp_dir env ''dxgate-mtls''"
  defines "cert_file \<equiv> dir @ ''/cert-chain.pem''" and "key_file \<equiv> dir @ ''/key.pem''"
    and "ca_file \<equiv> dir @ ''/root-cert.pem''"
  assumes "tl_parse_bootstrap L (me_document env cert_file key_file ca_file) =
      Ok \<lparr>gb_certificate_providers = [''default'' \<mapsto> \<lparr>cp_config =
        \<lparr>fw_certificate_file = Some cert_file, fw_private_key_file = Some key_file,
         fw_ca_certificate_file = Some ca_file\<rparr>\<rparr>]\<rparr>"
    and "tl_pem_certs L (me_client_chain env) = Ok [chain]" and "tl_pem_pkcs8 L (me_client_key env) = Ok [pkey]"
    and "tl_pem_certs L (me_ca env) = Ok [ca]" and "tl_roots_add L (tl_roots_empty L) ca = Ok roots"
    and "tl_client_config L roots [chain] pkey = Ok config"
  shows "mtls_client_connects_with_bootstrap_certificate env L \<longleftrightarrow>
    me_get env (tl_https_client L config (Some ''nginx.app.svc.cluster.local''))
      (''https://127.0.0.1:'' @ show_nat (unat (me_port env)) @ ''/'') test_server = Ok (200, map of_char ''ok'')"
  using assms
  by (simp add: mtls_client_connects_with_bootstrap_certificate_def write_pem_def Let_def from_bootstrap_def
      client_for_def build_client_def tls_config_def provider_def required_path_def load_certs_def
      load_private_key_def load_private_keys_def load_roots_def server_name_override_def unwraps_def
      split: result.split)

text \<open>
  With libraries that hand over the texts unparsed and a server that answers exactly that client,
  the test passes.
\<close>

definition sample_mtls_env :: "(bytes list \<times> bytes list \<times> bytes \<times> string option) mtls_env" where
  "sample_mtls_env = \<lparr>me_temp_dir = ''/tmp'', me_nanos = 7, me_port = 8443, me_client_chain = [1], me_client_key = [2],
     me_ca = [3], me_document = \<lambda>_ _ _. [4],
     me_get = \<lambda>client uri server.
       if client = ([[3]], [[1]], [2], Some ''nginx.app.svc.cluster.local'') then Ok (200, map of_char ''ok'')
       else Err ''handshake''\<rparr>"

definition sample_mtls_lib ::
  "(bytes list, bytes list \<times> bytes list \<times> bytes, bytes list \<times> bytes list \<times> bytes \<times> string option) tls_lib"
where
  "sample_mtls_lib = \<lparr>tl_open = \<lambda>_. Err ''not found'',
     tl_parse_bootstrap = \<lambda>_. let dir = test_temp_dir sample_mtls_env ''dxgate-mtls''
       in Ok \<lparr>gb_certificate_providers = [''default'' \<mapsto> \<lparr>cp_config =
            \<lparr>fw_certificate_file = Some (dir @ ''/cert-chain.pem''), fw_private_key_file = Some (dir @ ''/key.pem''),
             fw_ca_certificate_file = Some (dir @ ''/root-cert.pem'')\<rparr>\<rparr>]\<rparr>,
     tl_pem_certs = \<lambda>raw. Ok [raw], tl_pem_pkcs8 = \<lambda>raw. Ok [raw], tl_pem_rsa = \<lambda>raw. Ok [],
     tl_roots_empty = [], tl_roots_add = \<lambda>roots cert. Ok (cert # roots),
     tl_client_config = \<lambda>roots certs key. Ok (roots, certs, key),
     tl_https_client = \<lambda>(roots, certs, key) name. (roots, certs, key, name)\<rparr>"

lemma mtls_client_connects_passes:
  "mtls_client_connects_with_bootstrap_certificate sample_mtls_env sample_mtls_lib"
  by (subst mtls_client_connects_iff [where chain = "[1]" and pkey = "[2]" and ca = "[3]" and roots = "[[3]]" and
        config = "([[3]], [[1]], [2])"])
    (simp_all add: sample_mtls_env_def sample_mtls_lib_def test_temp_dir_def Let_def)

section \<open>Configuration files\<close>

text \<open>The name of a temporary file, in the directory for such files.\<close>

definition temp_file :: "string \<Rightarrow> nat \<Rightarrow> nat \<Rightarrow> string \<Rightarrow> string" where
  "temp_file temp_dir process_id nanos name =
     temp_dir @ ''/'' @ ''dxgate-'' @ name @ ''-'' @ show_nat process_id @ ''-'' @ show_nat nanos"

text \<open>The file system after \<open>fs::write\<close>.\<close>

definition write_file :: "source_lib \<Rightarrow> string \<Rightarrow> string \<Rightarrow> source_lib" where
  "write_file S path raw = S\<lparr>sl_read := \<lambda>p. if p = path then Ok raw else sl_read S p\<rparr>"

definition bootstrap_config_loads_json :: "source_lib \<Rightarrow> string \<Rightarrow> nat \<Rightarrow> nat \<Rightarrow> string \<Rightarrow> bool" where
  "bootstrap_config_loads_json S temp_dir process_id nanos document =
     (let path = temp_file temp_dir process_id nanos ''bootstrap.json''
      in unwraps (bootstrap_load (write_file S path document) path) (\<lambda>cfg.
           bc_xds_address cfg = Some ''http://dubbod.dubbo-system.svc:15012'' \<and>
           bc_listener_names cfg = [''public-dubbo.app.svc.cluster.local:80''] \<and>
           bc_cluster_id cfg = Some ''Kubernetes'' \<and> bc_dns_domain cfg = Some ''cluster.local''))"

definition bootstrap_config_loads_yaml :: "source_lib \<Rightarrow> string \<Rightarrow> nat \<Rightarrow> nat \<Rightarrow> bool" where
  "bootstrap_config_loads_yaml S temp_dir process_id nanos =
     (let path = temp_file temp_dir process_id nanos ''bootstrap.yaml'';
          document = ''xds_address: http://dubbod.dubbo-system.svc:15012'' @ [CHR 0x0A] @
                     ''http_addr: 0.0.0.0:8080'' @ [CHR 0x0A]
      in unwraps (bootstrap_load (write_file S path document) path) (\<lambda>cfg.
           bc_xds_address cfg = Some ''http://dubbod.dubbo-system.svc:15012'' \<and>
           map_option socket_port (bc_http_addr cfg) = Some 8080))"

lemma show_nat_no_separator: "CHR ''.'' \<notin> set (show_nat n)" "CHR ''/'' \<notin> set (show_nat n)"
  by (rule not_digit_not_in_show_nat; simp add: digit_val_def)+

lemma temp_file_extension:
  assumes "name = stem @ ''.'' @ ext" and "CHR ''/'' \<notin> set stem" and "CHR ''/'' \<notin> set ext" and "CHR ''.'' \<notin> set ext"
  shows "path_extension (temp_file dir process_id nanos name) =
    Some (ext @ ''-'' @ show_nat process_id @ ''-'' @ show_nat nanos)"
  using path_extension_dir [of "''dxgate-'' @ stem" "ext @ ''-'' @ show_nat process_id @ ''-'' @ show_nat nanos" dir]
    assms show_nat_no_separator
  by (simp add: temp_file_def)

text \<open>
  Both tests go through the YAML parser: the extension of the temporary file is never \<open>json\<close>.  So
  the test of the JSON format passes or fails whatever the JSON parser does.
\<close>

lemma loads_json_ignores_json_parser:
  "bootstrap_config_loads_json (S\<lparr>sl_json_bootstrap := parser\<rparr>) dir pid nanos document =
   bootstrap_config_loads_json S dir pid nanos document"
  using temp_file_extension [of "''bootstrap.json''" "''bootstrap''" "''json''" dir pid nanos]
  by (simp add: bootstrap_config_loads_json_def bootstrap_load_def write_file_def Let_def)

lemma bootstrap_config_loads_yaml_passes:
  assumes "sl_yaml_bootstrap S (''xds_address: http://dubbod.dubbo-system.svc:15012'' @ [CHR 0x0A] @
      ''http_addr: 0.0.0.0:8080'' @ [CHR 0x0A]) =
    Ok \<lparr>bc_xds_address = Some ''http://dubbod.dubbo-system.svc:15012'',
        bc_http_addr = Some (SocketV4 0 8080), bc_admin_addr = None, bc_listener_names = [], bc_pod_name = None,
        bc_namespace = None, bc_pod_ip = None, bc_node_name = None, bc_cluster_id = None, bc_dns_domain = None\<rparr>"
  shows "bootstrap_config_loads_yaml S dir pid nanos"
  using temp_file_extension [of "''bootstrap.yaml''" "''bootstrap''" "''yaml''" dir pid nanos] assms
  by (simp add: bootstrap_config_loads_yaml_def bootstrap_load_def write_file_def Let_def)

section \<open>ADS state\<close>

text \<open>\<open>encode_to_vec\<close> of prost, for the messages the test sends.\<close>

record encoders =
  enc_listener :: "xds_Listener \<Rightarrow> bytes"
  enc_route :: "RouteConfiguration \<Rightarrow> bytes"
  enc_cluster :: "xds_Cluster \<Rightarrow> bytes"
  enc_assignment :: "ClusterLoadAssignment \<Rightarrow> bytes"
  enc_hcm :: "HttpConnectionManager \<Rightarrow> bytes"
  enc_tls :: "UpstreamTlsContext \<Rightarrow> bytes"

definition response :: "string \<Rightarrow> Any list \<Rightarrow> DiscoveryResponse" where
  "response type_url resources =
     \<lparr>dr_version_info = ''v1'', dr_resources = resources, dr_type_url = type_url, dr_nonce = ''nonce''\<rparr>"

definition any_of :: "string \<Rightarrow> bytes \<Rightarrow> Any" where
  "any_of type_url encoded = \<lparr>any_type_url = type_url, any_value = encoded\<rparr>"

definition socket :: "string \<Rightarrow> u32 \<Rightarrow> Address" where
  "socket address_value port =
     \<lparr>addr_address = Some (SocketAddressKind
        \<lparr>sock_address = address_value, sock_port_specifier = Some (PortValue port)\<rparr>)\<rparr>"

definition test_listener_name :: string where
  "test_listener_name = ''dxgate.app.svc.cluster.local:80''"

definition test_route_name :: string where
  "test_route_name = ''outbound|80||orders.app.svc.cluster.local''"

definition test_cluster_name :: string where
  "test_cluster_name = ''outbound|8080||orders.app.svc.cluster.local''"

definition test_hcm :: HttpConnectionManager where
  "test_hcm = \<lparr>hcm_route_specifier = Some (Rds test_route_name)\<rparr>"

definition test_listener :: "encoders \<Rightarrow> xds_Listener" where
  "test_listener E =
     \<lparr>xl_name = test_listener_name, xl_address = Some (socket ''10.96.0.10'' 80), xl_filter_chains = [],
      xl_api_listener = Some \<lparr>al_api_listener = Some (any_of
        ''type.googleapis.com/extensions.filters.network.http_connection_manager.v1.HttpConnectionManager''
        (enc_hcm E test_hcm))\<rparr>\<rparr>"

definition test_route :: RouteConfiguration where
  "test_route =
     \<lparr>rcfg_name = test_route_name,
      rcfg_virtual_hosts =
        [\<lparr>xvh_name = ''orders'', xvh_domains = [''orders.example.com''],
          xvh_routes =
            [\<lparr>xr_name = ''orders-default'',
              xr_match = Some \<lparr>xrm_path_specifier = Some (PS_Prefix ''/''), xrm_headers = []\<rparr>,
              xr_action = Some (ActionRoute
                \<lparr>ra_cluster_specifier = Some (CS_Cluster test_cluster_name)\<rparr>)\<rparr>]\<rparr>]\<rparr>"

definition test_tls :: UpstreamTlsContext where
  "test_tls =
     \<lparr>utc_common = Some
        \<lparr>ctc_certificate_provider =
           Some \<lparr>cpi_instance_name = ''workload'', cpi_certificate_name = ''default''\<rparr>,
         ctc_alpn_protocols = [''h2''],
         ctc_validation_context_type = Some (CombinedValidation
           \<lparr>cvc_provider_instance =
              Some \<lparr>cpi_instance_name = ''roots'', cpi_certificate_name = ''ROOTCA''\<rparr>\<rparr>)\<rparr>,
      utc_sni = ''orders.app.svc.cluster.local''\<rparr>"

definition test_cluster :: "encoders \<Rightarrow> xds_Cluster" where
  "test_cluster E =
     \<lparr>xc_name = test_cluster_name,
      xc_eds_cluster_config = Some \<lparr>eds_service_name = test_cluster_name\<rparr>,
      xc_load_assignment = None,
      xc_transport_socket = Some
        \<lparr>tsock_name = ''envoy.transport_sockets.tls'',
         tsock_config_type = Some (TypedConfig (any_of
           ''type.googleapis.com/extensions.transport_sockets.tls.v1.UpstreamTlsContext''
           (enc_tls E test_tls)))\<rparr>\<rparr>"

definition test_assignment :: ClusterLoadAssignment where
  "test_assignment =
     \<lparr>cla_cluster_name = test_cluster_name,
      cla_endpoints =
        [\<lparr>loc_lb_endpoints =
            [\<lparr>lbe_host_identifier = Some (HI_Endpoint \<lparr>xe_address = Some (socket ''10.244.0.20'' 8080)\<rparr>),
              lbe_health_status = 1\<rparr>]\<rparr>]\<rparr>"

definition ads_state_builds_runtime_config_from_lds_rds_cds_and_eds :: "decoders \<Rightarrow> encoders \<Rightarrow> bool" where
  "ads_state_builds_runtime_config_from_lds_rds_cds_and_eds D E =
     (let state = snd (set_subscription ads_default LISTENER_TYPE [test_listener_name]);
          (state1, r1) = apply_response D state
             (response LISTENER_TYPE [any_of LISTENER_TYPE (enc_listener E (test_listener E))])
      in unwraps r1 (\<lambda>updates. du_route_names updates = [test_route_name] \<and>
       (let state = snd (set_subscription state1 ROUTE_TYPE (du_route_names updates));
            (state2, r2) = apply_response D state
               (response ROUTE_TYPE [any_of ROUTE_TYPE (enc_route E test_route)])
        in unwraps r2 (\<lambda>updates. du_cluster_names updates = [test_cluster_name] \<and>
         (let state = snd (set_subscription state2 CLUSTER_TYPE (du_cluster_names updates));
              (state3, r3) = apply_response D state
                 (response CLUSTER_TYPE [any_of CLUSTER_TYPE (enc_cluster E (test_cluster E))])
          in unwraps r3 (\<lambda>updates. du_eds_names updates = [test_cluster_name] \<and>
           (let state = snd (set_subscription state3 ENDPOINT_TYPE (du_eds_names updates));
                (state4, r4) = apply_response D state
                   (response ENDPOINT_TYPE [any_of ENDPOINT_TYPE (enc_assignment E test_assignment)]);
                cfg = runtime_config state4 ''v1''
            in is_ok r4 \<and> is_ok (validate cfg) \<and>
               first_is (\<lambda>l. l_bind l = SocketV4 0 80 \<and>
                 first_is (\<lambda>vh. vh_domains vh = [''orders.example.com'']) (l_virtual_hosts l)) (rc_listeners cfg) \<and>
               first_is (\<lambda>c. first_is (\<lambda>e. ep_address e = ''10.244.0.20'') (c_endpoints c) \<and>
                 (case c_tls c of
                    None \<Rightarrow> False
                  | Some tls \<Rightarrow> tls_sni tls = Some ''orders.app.svc.cluster.local'' \<and>
                      tls_certificate_provider tls = Some ''workload'' \<and>
                      tls_validation_provider tls = Some ''roots'' \<and>
                      tls_alpn_protocols tls = [''h2''])) (rc_clusters cfg))))))))"

text \<open>prost reads back the messages of the test.\<close>

definition reads_back :: "decoders \<Rightarrow> encoders \<Rightarrow> bool" where
  "reads_back D E =
     (dec_listener D (enc_listener E (test_listener E)) = Ok (test_listener E) \<and>
      dec_route D (enc_route E test_route) = Ok test_route \<and>
      dec_cluster D (enc_cluster E (test_cluster E)) = Ok (test_cluster E) \<and>
      dec_assignment D (enc_assignment E test_assignment) = Ok test_assignment \<and>
      dec_hcm D (enc_hcm E test_hcm) = Ok test_hcm \<and> dec_tls D (enc_tls E test_tls) = Ok test_tls)"

text \<open>What the conversions make of the messages.\<close>

definition test_snapshot :: ListenerSnapshot where
  "test_snapshot =
     \<lparr>ls_listener = \<lparr>l_name = test_listener_name, l_bind = SocketV4 0 80, l_protocol = Http,
        l_virtual_hosts = [], l_tls_secret = None\<rparr>,
      ls_route_names = [test_route_name], ls_inline_virtual_hosts = []\<rparr>"

definition test_vhosts :: "VirtualHost list" where
  "test_vhosts = [\<lparr>vh_name = ''orders'', vh_domains = [''orders.example.com''], vh_routes =
     [\<lparr>rt_name = ''orders-default'', rt_matches = [\<lparr>rm_path = Prefix ''/'', rm_headers = []\<rparr>],
       rt_weighted_clusters = [\<lparr>wc_name = test_cluster_name, wc_weight = 100\<rparr>]\<rparr>]\<rparr>]"

definition test_upstream_tls :: UpstreamTls where
  "test_upstream_tls = \<lparr>tls_sni = Some ''orders.app.svc.cluster.local'', tls_certificate_provider = Some ''workload'',
     tls_validation_provider = Some ''roots'', tls_alpn_protocols = [''h2'']\<rparr>"

definition test_endpoints :: "Endpoint list" where
  "test_endpoints = [\<lparr>ep_address = ''10.244.0.20'', ep_port = 8080, ep_healthy = True, ep_node_name = None\<rparr>]"

lemma test_names_not_empty [simp]: "test_route_name \<noteq> []" "test_cluster_name \<noteq> []"
  by (simp_all add: test_route_name_def test_cluster_name_def)

lemma test_snapshot_eq:
  assumes "reads_back D E" shows "listener_snapshot D (test_listener E) = Ok test_snapshot"
  using assms
  by (simp add: reads_back_def listener_snapshot_def test_listener_def test_snapshot_def
      http_connection_managers_def hcm_candidates_def listener_port_def socket_address_def
      socket_def try_into_u16_def any_of_def decode_hcm_def decode_resource_def hcm_route_names_def
      hcm_inline_hosts_def test_hcm_def sorted_unique_def bset_insert_def)

lemma test_vhosts_eq: "convert_virtual_hosts (rcfg_virtual_hosts test_route) = test_vhosts"
  by (simp add: convert_virtual_hosts_def convert_route_def convert_route_action_def
      convert_route_match_def convert_path_def test_route_def test_vhosts_def List.map_filter_def)

lemma test_endpoints_eq: "endpoints_from_assignment test_assignment = test_endpoints"
  by (simp add: test_assignment_def endpoints_from_assignment_def test_endpoints_def
      convert_lb_endpoint_def List.map_filter_def socket_address_def try_into_u16_def socket_def
      endpoint_is_healthy_iff)

lemma test_tls_eq:
  assumes "reads_back D E" shows "upstream_tls_from_cluster D (test_cluster E) = Some test_upstream_tls"
  using assms
  by (simp add: reads_back_def upstream_tls_from_cluster_def test_cluster_def any_of_def ends_with_def
      suffix_to_prefix test_tls_def test_upstream_tls_def first_non_empty_def certificate_provider_name_def
      validation_provider_name_def instance_name_def)

text \<open>The four responses, from any state that has none of the type yet.\<close>

lemma sorted_unique_single [simp]: "sorted_unique [x] = [x]"
  by (simp add: sorted_unique_id)

lemma prune_requested_empty [simp]: "prune_requested ([] :: (string, 'v) btree_map) names = []"
proof -
  have "fold bt_remove names ([] :: (string, 'v) btree_map) = []" by (induction names) (simp_all add: bt_remove_def)
  then show ?thesis by (simp add: prune_requested_def)
qed

lemma set_subscription_frame [simp]:
  "as_listeners (snd (set_subscription s t names)) = as_listeners s"
  "as_routes (snd (set_subscription s t names)) = as_routes s"
  "as_clusters (snd (set_subscription s t names)) = as_clusters s"
  "as_endpoints (snd (set_subscription s t names)) = as_endpoints s"
  by (simp_all add: set_subscription_def Let_def)

lemma test_lds:
  assumes "reads_back D E" and "as_listeners s = []"
  shows "apply_response D s (response LISTENER_TYPE [any_of LISTENER_TYPE (enc_listener E (test_listener E))]) =
    (s\<lparr>as_listeners := [(test_listener_name, test_snapshot)]\<rparr>,
     Ok (updates_default\<lparr>du_route_names := [test_route_name]\<rparr>))"
  using assms test_snapshot_eq [OF assms(1)]
  by (simp add: apply_response_def response_def apply_listeners_def insert_listener_def decode_resource_def
      any_of_def reads_back_def test_snapshot_def route_names_def bt_values_def Let_def)

lemma test_rds:
  assumes "reads_back D E" and "as_routes s = []"
  shows "apply_response D s (response ROUTE_TYPE [any_of ROUTE_TYPE (enc_route E test_route)]) =
    (s\<lparr>as_routes := [(test_route_name, test_vhosts)]\<rparr>,
     Ok (updates_default\<lparr>du_cluster_names := [test_cluster_name]\<rparr>))"
proof -
  have "rcfg_name test_route = test_route_name" by (simp add: test_route_def)
  moreover have "vhost_clusters test_vhosts = [test_cluster_name]"
    by (simp add: vhost_clusters_def test_vhosts_def)
  ultimately show ?thesis
    using assms
    by (simp add: apply_response_def response_def apply_routes_def insert_route_def decode_resource_def
        any_of_def reads_back_def test_vhosts_eq cluster_names_def bt_values_def Let_def)
qed

definition test_cluster_snapshot :: ClusterSnapshot where
  "test_cluster_snapshot = \<lparr>cs_name = test_cluster_name, cs_eds_service_name = test_cluster_name,
     cs_tls = Some test_upstream_tls\<rparr>"

lemma test_cds:
  assumes "reads_back D E" and "as_clusters s = []"
  shows "apply_response D s (response CLUSTER_TYPE [any_of CLUSTER_TYPE (enc_cluster E (test_cluster E))]) =
    (s\<lparr>as_clusters := [(test_cluster_name, test_cluster_snapshot)]\<rparr>,
     Ok (updates_default\<lparr>du_eds_names := [test_cluster_name]\<rparr>))"
proof -
  have "xc_name (test_cluster E) = test_cluster_name" "xc_load_assignment (test_cluster E) = None"
    "eds_service_name_of (test_cluster E) = test_cluster_name"
    by (simp_all add: test_cluster_def eds_service_name_of_def)
  then show ?thesis
    using assms
    by (simp add: apply_response_def response_def apply_clusters_def insert_cluster_def decode_resource_def
        any_of_def reads_back_def test_tls_eq [OF assms(1)] test_cluster_snapshot_def eds_names_def
        bt_values_def Let_def)
qed

lemma test_eds:
  assumes "reads_back D E" and "as_endpoints s = []"
  shows "apply_response D s (response ENDPOINT_TYPE [any_of ENDPOINT_TYPE (enc_assignment E test_assignment)]) =
    (s\<lparr>as_endpoints := [(test_cluster_name, test_endpoints)]\<rparr>, Ok updates_default)"
proof -
  have "cla_cluster_name test_assignment = test_cluster_name" by (simp add: test_assignment_def)
  then show ?thesis
    using assms
    by (simp add: apply_response_def response_def apply_endpoints_def insert_assignment_def
        decode_resource_def any_of_def reads_back_def test_endpoints_eq Let_def)
qed

text \<open>The configuration at the end.\<close>

definition test_runtime_config :: RuntimeConfig where
  "test_runtime_config =
     \<lparr>rc_version = ''v1'',
      rc_listeners = [(ls_listener test_snapshot)\<lparr>l_virtual_hosts := test_vhosts\<rparr>],
      rc_clusters = [\<lparr>c_name = test_cluster_name, c_endpoints = test_endpoints, c_tls = Some test_upstream_tls\<rparr>],
      rc_secrets = []\<rparr>"

lemma test_runtime_config_eq:
  assumes "as_listeners s = [(test_listener_name, test_snapshot)]"
    and "as_routes s = [(test_route_name, test_vhosts)]"
    and "as_clusters s = [(test_cluster_name, test_cluster_snapshot)]"
    and "as_endpoints s = [(test_cluster_name, test_endpoints)]"
  shows "runtime_config s ''v1'' = test_runtime_config"
  using assms
  by (simp add: runtime_config_def test_runtime_config_def bt_values_def snapshot_listener_def
      snapshot_cluster_def test_cluster_snapshot_def bt_get_def test_snapshot_def)

lemma test_runtime_config_validates: "validate test_runtime_config = Ok ()"
  by (simp add: test_runtime_config_def test_snapshot_def test_vhosts_def cfg_defs bset_insert_def
      bt_get_def Let_def)

theorem ads_state_test_passes:
  assumes "reads_back D E"
  shows "ads_state_builds_runtime_config_from_lds_rds_cds_and_eds D E"
  by (simp add: ads_state_builds_runtime_config_from_lds_rds_cds_and_eds_def Let_def ads_default_def
      test_lds [OF assms] test_rds [OF assms] test_cds [OF assms] test_eds [OF assms]
      updates_default_def test_runtime_config_eq test_runtime_config_validates)
    (simp add: test_runtime_config_def test_snapshot_def test_vhosts_def test_endpoints_def
      test_upstream_tls_def)

end
