(* ===== verification/Spec2Isabelle.thy ===== *)
theory Spec2Isabelle
  imports Running_System Redelivery Admin_Server Unit_Tests
begin

text \<open>
  A verification of dxgate, the north-south gateway of this repository: a reverse proxy that
  learns listeners, routes, clusters and endpoints from an xDS control plane (dubbod) and
  forwards HTTP requests to the endpoints, with mutual TLS where a cluster asks for it.

  \<^bold>\<open>The program and its model.\<close>  The xDS client (\<open>crates/xds/src/client.rs\<close>) keeps what one ADS
  stream delivered, builds a runtime configuration from it, validates it
  (\<open>crates/core/src/config.rs\<close>) and publishes it in a watch cell.  A task of
  \<open>crates/app/src/main.rs\<close> applies what it observes there to the shared state
  (\<open>crates/proxy/src/state.rs\<close>), which the proxy (\<open>crates/proxy/src/server.rs\<close>) and the admin server
  (\<open>crates/admin/src/lib.rs\<close>) read.  The theories follow this order:

  \<^item> \<open>Prelude\<close>: results, panics, first-match searches, and three interfaces as locales:
    \<open>step_system\<close> (an invariant of a step relation), \<open>simulation\<close> (each step of one relation is
    matched by steps of another) and \<open>config_store\<close> (a store that keeps the last accepted value).
    \<open>Rust_Std\<close>: the string, number and address functions of the standard library that the code uses.  \<open>BTree_Map\<close>: ordered maps, with the interface \<open>ordered_map\<close>.
  \<^item> \<open>Core_Config\<close>: the configuration's types, \<open>validate\<close>, \<open>route_for\<close> and the matchers.
    \<open>Core_Identity\<close>: the node id.
  \<^item> \<open>Xds_Proto\<close>: the decoded messages.  \<open>Xds_Convert\<close>: their conversion.  \<open>Ads_State\<close>: the state of
    one stream, as a step system with an invariant.  \<open>Ads_Spec\<close>: what a response means, stated on
    partial functions.  \<open>Xds_Client\<close>: a session and the reconnect
    loop.  \<open>Discovery\<close>: the dialogue with a control plane that answers every subscription.
    \<open>Redelivery\<close>: responses that are sent again.  \<open>Config_Source\<close>: configuration files.
  \<^item> \<open>Proxy_State\<close>: the shared state and the pickers, on 32 and 64 bit words.  \<open>Proxy_Concurrency\<close>:
    the same operations as interleaved atomic accesses.  \<open>Upstream_Tls\<close>: mTLS clients, their
    cache and the certificate verifier.  \<open>Proxy_Server\<close>: the request path.  \<open>Request_Steps\<close>: a request
    as a task, cut at its accesses to shared state.
  \<^item> \<open>Admin_Server\<close>: the admin endpoints.  \<open>App\<close>: settings, start-up, the configuration task, the
    result of \<open>main\<close>.  \<open>Gateway\<close>: the client task, the watch cell, the configuration task and the
    shared state as one step relation, from what \<open>main\<close> sets up.  \<open>Config_Register\<close>: the abstract
    view of it, a register of accepted configurations, and the simulation.  \<open>Running_System\<close>: the
    gateway with any number of request tasks interleaved.  This theory: the path from the
    control plane to the proxy and to a request.
  \<^item> \<open>Unit_Tests\<close>: the tests of the crates, as definitions that are proved to pass on the model.

  \<^bold>\<open>Conventions.\<close>  Structs are records (fields prefixed by a short form of the type), enums are
  datatypes, \<open>Result\<close> is \<open>result\<close>, an operation that mutates returns the new state, a loop over a
  collection is recursion over it and ends with it.  The two unbounded loops, over the messages
  of a stream and over connection attempts, take the list of what happened so far; \<open>Running\<close> is
  the reconnect loop after that, so no fuel is needed and every definition is total.  The one
  recursion that does not follow a list, \<open>dialogue\<close>, comes with its termination proof.  A panic is
  the value \<open>Panic\<close>; overflow checks are a parameter, since \<open>u32\<close> sums panic in a debug build
  and wrap in a release build.  Logging and sleeping have no effect.

  \<^bold>\<open>Parameters.\<close>  Code outside the repository is an argument: \<open>decoders\<close> (prost), \<open>transport\<close> (tonic,
  tokio channels), \<open>source_lib\<close> (files, serde), \<open>clap_lib\<close> (clap), \<open>tls_lib\<close> (files, serde_json,
  rustls, pemfile, hyper), \<open>http_lib\<close> (http, hyper), \<open>control_plane\<close> (what the other side answers).  What some results rely on is named: \<open>watch_law\<close> (a watch cell
  holds the value sent last), \<open>queue_law\<close> (a queue keeps its order), \<open>receiver_listening\<close> (the cell
  has a receiver when \<open>main\<close> sends the static configuration, so that send succeeds) and
  \<open>never_fails\<close> (both kinds of send succeed, as they do while their receivers are alive; only the
  two results that a session processes all its messages and that discovery converges need it).
  The witnesses instantiate them.

  \<^bold>\<open>What is shown.\<close>  Validation reports exactly the violated conditions, and validated routes always
  resolve.  Routing is first match.  Whatever arrives on a stream, in any order and with any
  failures, the state keeps its invariant, the only conflict of a configuration built from it is
  a missing cluster, and only valid configurations are published; a session refines a pure state
  machine, acknowledges each response once and ends exactly at the first message that does not
  decode; the client gives up only on an invalid endpoint.  The dialogue with a control plane ends
  after at most four responses, with a complete configuration when the control plane knows the
  clusters it is asked for; a repeated response changes nothing.  The shared state serves the last
  valid configuration, also under interleaving.  In the running gateway, under every interleaving
  of its tasks, the stored configuration is valid, readiness and conflicts are never reported
  together, the configuration task can always catch up with the cell and then the proxy serves
  its value.  With any number of requests interleaved, the process refines a register that only
  moves forward through valid configurations; every answered request has exactly the answer that
  the configuration it read prescribes, with upstreams that answer anything at any time or never,
  and panics only in a build with overflow checks on weights of 2^32 or more; the picks of all
  requests together follow the counter from zero, none skipped or repeated.  A response has exactly the effect of
  its specification, for all four resource types.  The weighted picker is exact over a cycle, the
  endpoint picker a round robin over healthy endpoints.  A request on a validated configuration
  gets 404 exactly without a route, 503 without a healthy endpoint, else what its upstream
  answers or 502, and never goes out in plaintext for a TLS cluster.  The client cache is
  transparent for settings without the separator as long as the files do not change.

  Several results show behaviour the code does not intend: a reconnect publishes a configuration
  without routes first; clusters of inline routes are never subscribed to; the shared counter
  starves one of two endpoints and sends a split of weights 1 and 1 to one side; a subscription is never given up; exact paths do not match requests with a
  query; only the first listener of a port is routed; a wildcard domain ignores label boundaries;
  cached mTLS clients outlive their certificates; the test of the JSON bootstrap format runs the
  YAML parser.

  \<^bold>\<open>Not modelled.\<close>  The generated protobuf code and \<open>crates/xds/src/proto.rs\<close> (module
  declarations around it), the build script, the crate roots (re-exports), serving sockets, axum's matching of paths, JSON serialisation, logging, the 32 MiB message
  limit (a message above it is a receive error), and the panic-to-poisoning of the client cache's
  lock, which appears as a flag.  The certificates of the mTLS test (rcgen) and the exchange it
  makes are parameters.  In the running process a request waits for its upstream, which may never
  answer, and the files of TLS clients may change between any two steps; that a waiting request
  is answered is therefore not claimed, and there is no time.
\<close>

section \<open>From the control plane to the proxy\<close>

lemma apply_loop_valid:
  assumes "\<forall>c\<in>set observed. config_ok c" and "observed \<noteq> []"
  shows "ps_config (apply_loop s observed) = last observed" and "ps_ready (apply_loop s observed)"
    and "ps_conflicts (apply_loop s observed) = []"
proof -
  have "config_ok (last observed)" using assms by simp
  moreover obtain pre c where "observed = pre @ [c]" using assms(2) by (cases observed rule: rev_cases) auto
  ultimately show "ps_config (apply_loop s observed) = last observed"
    and "ps_ready (apply_loop s observed)" and "ps_conflicts (apply_loop s observed) = []"
    by (simp_all add: apply_loop_def apply_config_valid)
qed

text \<open>What start-up leaves in the cell and in the shared state.\<close>

lemma startup_started:
  assumes "startup T watch_channel S args = Ok st"
  shows "st_state st = fst (start_static T S (ar_static_config args) (proxy_state_new initial_config)
      (watch_channel initial_config))"
    and "st_watch st = snd (start_static T S (ar_static_config args) (proxy_state_new initial_config)
      (watch_channel initial_config))"
proof -
  obtain args' where a: "effective_args S args = Ok args'" using assms by (auto simp: startup_def)
  then have "ar_static_config args' = ar_static_config args"
    by (auto simp: effective_args_def apply_bootstrap_def split: option.splits)
  then show "st_state st = fst (start_static T S (ar_static_config args) (proxy_state_new initial_config)
      (watch_channel initial_config))"
    and "st_watch st = snd (start_static T S (ar_static_config args) (proxy_state_new initial_config)
      (watch_channel initial_config))"
    using assms a by (auto simp: startup_def split: prod.splits)
qed

lemma startup_cases:
  assumes "watch_law T published" and "published (watch_channel initial_config) = [initial_config]"
    and "receiver_listening T (watch_channel initial_config)" and "startup T watch_channel S args = Ok st"
  obtains (static) c where "static_outcome S (ar_static_config args) = Some c" "config_ok c"
      "published (st_watch st) = [initial_config, c]"
  | (none) "published (st_watch st) = [initial_config]" "ps_config (st_state st) = initial_config"
      "\<not> ps_ready (st_state st)"
      "ps_conflicts (st_state st) =
         (case static_outcome S (ar_static_config args) of Some c \<Rightarrow> config_conflicts c | None \<Rightarrow> [])"
proof (cases "\<exists>c. static_outcome S (ar_static_config args) = Some c \<and> config_ok c")
  case True
  then obtain c where c: "static_outcome S (ar_static_config args) = Some c" "config_ok c" by blast
  obtain w where "tp_config_send T (watch_channel initial_config) c = Some w"
    using assms(3) by (auto simp: receiver_listening_def)
  then have "published (st_watch st) = [initial_config, c]"
    using assms(1,2) c by (simp add: startup_started [OF assms(4)] start_static_watch watch_law_send)
  with c static show thesis by blast
next
  case False
  then show thesis
    using none assms(2)
    by (auto simp: startup_started [OF assms(4)] start_static_watch start_static_state apply_config_cases
        proxy_state_new_def split: option.splits)
qed

text \<open>
  C3: from start-up on, once the configuration task has caught up with the watch cell (the cell
  may skip values but not the last one), the proxy serves exactly the value in the cell: the
  configuration the xDS client published last over any number of connections and failures, or
  before that the static one when it was accepted, or the empty one.  It is ready exactly when
  the cell has received a configuration, static or published; then it reports no conflicts, and
  before that it reports those of a refused static configuration.  Assumed: a new cell holds
  the initial value, a cell holds what was sent last, and its receiver exists when \<open>main\<close> sends
  the static configuration.
\<close>

theorem gateway_serves_last_published:
  assumes "watch_law T published" and "published (watch_channel initial_config) = [initial_config]"
    and "receiver_listening T (watch_channel initial_config)" and "startup T watch_channel S args = Ok st"
    and "new = tl (published (watch_of (run T D (st_client st) attempts (st_watch st))))"
    and "set observed \<subseteq> set new" and "new \<noteq> [] \<longrightarrow> observed \<noteq> [] \<and> last observed = last new"
  shows "let s = apply_loop (st_state st) observed
    in ps_config s = tp_borrow T (watch_of (run T D (st_client st) attempts (st_watch st))) \<and>
       (ps_ready s \<longleftrightarrow> new \<noteq> []) \<and>
       ps_conflicts s = (if new \<noteq> [] then [] else
         (case static_outcome S (ar_static_config args) of Some c \<Rightarrow> config_conflicts c | None \<Rightarrow> []))"
proof -
  let ?w = "watch_of (run T D (st_client st) attempts (st_watch st))"
  have b: "tp_borrow T ?w = last (published ?w)" using watch_law_borrow [OF assms(1)] .
  obtain added where added: "published ?w = published (st_watch st) @ added" "\<forall>c\<in>set added. config_ok c"
    using run_grows [OF assms(1), of "st_watch st" D "st_client st" attempts]
    by (auto simp: grows_validly_def list_all_iff is_ok_validate)
  have served: "let s = apply_loop (st_state st) observed in
      ps_config s = last new \<and> ps_ready s \<and> ps_conflicts s = []" if "new \<noteq> []" "\<forall>c\<in>set new. config_ok c"
    using apply_loop_valid [of observed "st_state st"] that assms(6,7) by (auto simp: Let_def)
  show ?thesis
    using assms(1-4)
  proof (cases rule: startup_cases)
    case (static c)
    then have "new = c # added" using assms(5) added(1) by simp
    then show ?thesis using served static(2) added by (simp add: b static(3) Let_def)
  next
    case none
    then have new: "new = added" using assms(5) added(1) by simp
    show ?thesis
    proof (cases "new = []")
      case True
      then have "observed = []" using assms(6) by simp
      then show ?thesis using none True new added(1) by (simp add: b apply_loop_def Let_def)
    next
      case False
      then show ?thesis using served new added none(1) by (simp add: b Let_def)
    qed
  qed
qed

definition sample_args :: Args where
  "sample_args = base_args\<lparr>ar_bootstrap := None, ar_static_config := Some ''/etc/static.yaml''\<rparr>"

theorem gateway_serves_last_published_witness:
  "\<exists>st. startup sample_transport (\<lambda>c. (c, [])) sample_source sample_args = Ok st \<and>
     (let w = watch_of (run sample_transport sample_decoders (st_client st)
            [\<lparr>at_connect = Ok (), at_open = Ok (map Message sample_resps)\<rparr>] (st_watch st));
          s = apply_loop (st_state st) (snd w)
      in ps_config s = tp_borrow sample_transport w \<and> (ps_ready s \<longleftrightarrow> snd w \<noteq> []))"
proof -
  obtain st where st: "startup sample_transport (\<lambda>c. (c, [])) sample_source sample_args = Ok st"
    by (simp add: startup_def effective_args_def sample_args_def case_prod_beta)
  have r: "receiver_listening sample_transport (initial_config, [])"
    by (simp add: receiver_listening_def sample_transport_def)
  show ?thesis
    using gateway_serves_last_published [OF sample_transport_laws(1) _ _ st, where D = sample_decoders and
        attempts = "[\<lparr>at_connect = Ok (), at_open = Ok (map Message sample_resps)\<rparr>]",
        OF _ _ refl subset_refl] r st
    by (intro exI [of _ st]) (simp add: Let_def)
qed

end
